(* ===== verification/Auth_Prelude.thy ===== *)
theory Auth_Prelude
  imports Complex_Main "HOL-Library.List_Lexorder" "HOL-Library.Char_ord" "HOL-Library.AList"
begin

text \<open>
  The shared vocabulary of the development.

  \<^item> Python values: strings as \<^typ>\<open>string\<close> (a character is read as the Unicode code
    point below 256 with its number), with \<open>str.strip\<close>, \<open>str.lower\<close>, \<open>str.split\<close>;
    instants as \<open>datetime\<close>, an integer number of microseconds since the epoch in UTC,
    which is the resolution of Python's \<open>datetime\<close>; UUIDs as natural numbers below
    \<open>2 ^ 128\<close> in the models that need the bound; \<open>dict.fromkeys\<close> and \<open>sorted\<close> on
    strings.
  \<^item> The computation type of the use cases and repositories: a state transformer with
    exceptions, where the state survives an exception (what was written before a
    \<open>raise\<close> stays written), with its weakest-precondition calculus \<open>wp\<close>.
\<close>

subsection \<open>Collections of the development\<close>

named_theorems wp_simps \<open>weakest preconditions of the computation combinators\<close>
named_theorems op_defs \<open>definitions of the operations, to be unfolded by hand\<close>

subsection \<open>Names for the model's types\<close>

type_synonym datetime = int
type_synonym uuid = nat

abbreviation seconds :: "int \<Rightarrow> int" where
  "seconds n \<equiv> 1000000 * n"

subsection \<open>Python strings\<close>

text \<open>
  \<open>str.strip()\<close> removes Unicode white space; below code point 256 these are the tab to
  carriage return block, the four separators, the blank, NEL and the no-break space.
\<close>

definition is_space :: "char \<Rightarrow> bool" where
  "is_space c = (let n = (of_char c :: nat) in
     (9 \<le> n \<and> n \<le> 13) \<or> (28 \<le> n \<and> n \<le> 32) \<or> n = 133 \<or> n = 160)"

definition lstrip_with :: "(char \<Rightarrow> bool) \<Rightarrow> string \<Rightarrow> string" where
  "lstrip_with p s = dropWhile p s"

definition rstrip_with :: "(char \<Rightarrow> bool) \<Rightarrow> string \<Rightarrow> string" where
  "rstrip_with p s = rev (dropWhile p (rev s))"

definition strip_with :: "(char \<Rightarrow> bool) \<Rightarrow> string \<Rightarrow> string" where
  "strip_with p s = rstrip_with p (lstrip_with p s)"

definition strip :: "string \<Rightarrow> string" where
  "strip s = strip_with is_space s"

text \<open>\<open>str.lower()\<close> on code points below 256: A-Z and the Latin-1 capitals.\<close>

definition lower_char :: "char \<Rightarrow> char" where
  "lower_char c = (let n = (of_char c :: nat) in
     if (65 \<le> n \<and> n \<le> 90) \<or> (192 \<le> n \<and> n \<le> 222 \<and> n \<noteq> 215) then char_of (n + 32) else c)"

definition lower :: "string \<Rightarrow> string" where
  "lower s = map lower_char s"

abbreviation normalize_email :: "string \<Rightarrow> string" where
  "normalize_email s \<equiv> lower (strip s)"

text \<open>\<open>str.split(sep)\<close> for a one-character separator.\<close>

fun split_on :: "char \<Rightarrow> string \<Rightarrow> string list" where
  "split_on c [] = [[]]"
| "split_on c (x # xs) =
     (if x = c then [] # split_on c xs
      else (case split_on c xs of [] \<Rightarrow> [[x]] | p # ps \<Rightarrow> (x # p) # ps))"

definition startswith :: "string \<Rightarrow> string \<Rightarrow> bool" where
  "startswith s p = (take (length p) s = p)"

definition endswith :: "string \<Rightarrow> string \<Rightarrow> bool" where
  "endswith s p = startswith (rev s) (rev p)"

text \<open>\<open>x in s\<close> for strings.\<close>

fun contains :: "string \<Rightarrow> string \<Rightarrow> bool" where
  "contains [] p = (p = [])"
| "contains (x # xs) p = (startswith (x # xs) p \<or> contains xs p)"

lemma lower_char_idem [simp]: "lower_char (lower_char c) = lower_char c"
proof -
  define n where "n = (of_char c :: nat)"
  show ?thesis
  proof (cases "(65 \<le> n \<and> n \<le> 90) \<or> (192 \<le> n \<and> n \<le> 222 \<and> n \<noteq> 215)")
    case True
    then have lc: "lower_char c = char_of (n + 32)"
      by (simp add: lower_char_def n_def [symmetric])
    have lt: "n + 32 < 256" using True by auto
    have e: "(of_char (char_of (n + 32) :: char) :: nat) = n + 32"
      by (simp only: of_char_of mod_less [OF lt])
    have "\<not> ((65 \<le> n + 32 \<and> n + 32 \<le> 90) \<or> (192 \<le> n + 32 \<and> n + 32 \<le> 222 \<and> n + 32 \<noteq> 215))"
      using True by auto
    then show ?thesis unfolding lc by (simp only: lower_char_def e Let_def if_False)
  next
    case False
    then show ?thesis by (auto simp add: lower_char_def n_def [symmetric] Let_def)
  qed
qed

lemma lower_idem [simp]: "lower (lower s) = lower s"
  by (simp add: lower_def comp_def)

lemma length_lower [simp]: "length (lower s) = length s"
  by (simp add: lower_def)

lemma lower_Nil_iff [simp]: "lower s = [] \<longleftrightarrow> s = []"
  by (simp add: lower_def)

lemma split_on_nonempty [simp]: "split_on c s \<noteq> []"
  by (induction s) (auto split: list.splits)

subsection \<open>Lists and dictionaries\<close>

text \<open>\<open>tuple(dict.fromkeys(xs))\<close> keeps the first occurrence of every element.\<close>

fun fromkeys :: "'a list \<Rightarrow> 'a list" where
  "fromkeys [] = []"
| "fromkeys (x # xs) = x # filter (\<lambda>y. y \<noteq> x) (fromkeys xs)"

lemma set_fromkeys [simp]: "set (fromkeys xs) = set xs"
  by (induction xs) auto

lemma distinct_fromkeys [simp]: "distinct (fromkeys xs)"
  by (induction xs) auto

lemma fromkeys_distinct_id: "distinct xs \<Longrightarrow> fromkeys xs = xs"
proof (induction xs)
  case (Cons x xs)
  then have "filter (\<lambda>y. y \<noteq> x) xs = xs" by (intro filter_True) auto
  with Cons show ?case by simp
qed simp

lemma fromkeys_idem [simp]: "fromkeys (fromkeys xs) = fromkeys xs"
  by (simp add: fromkeys_distinct_id)

text \<open>\<open>sorted(frozenset(xs))\<close> on strings, by code points.\<close>

definition sorted_strings :: "string set \<Rightarrow> string list" where
  "sorted_strings A = sorted_list_of_set A"

lemma set_sorted_strings [simp]: "finite A \<Longrightarrow> set (sorted_strings A) = A"
  by (simp add: sorted_strings_def)

lemma distinct_sorted_strings [simp]: "distinct (sorted_strings A)"
  by (simp add: sorted_strings_def)

lemma sorted_sorted_strings [simp]: "sorted (sorted_strings A)"
  by (simp add: sorted_strings_def)

lemma sorted_strings_empty_iff [simp]: "finite A \<Longrightarrow> sorted_strings A = [] \<longleftrightarrow> A = {}"
  by (simp add: sorted_strings_def)

text \<open>Facts on association lists used for ordered dictionaries and tables.\<close>

lemma distinct_map_filter_key: "distinct (map f xs) \<Longrightarrow> distinct (map f (filter P xs))"
  by (rule distinct_map_filter)

lemma map_update_key:
  "(\<And>x. f (g x) = f x) \<Longrightarrow> map f (map (\<lambda>x. if P x then g x else x) xs) = map f xs"
  by (induction xs) auto

lemma sorted_le_last: "sorted xs \<Longrightarrow> x \<in> set xs \<Longrightarrow> x \<le> last xs"
  by (induction xs rule: rev_induct) (auto simp: sorted_append)

lemma delete_filter: "AList.delete k al = filter (\<lambda>e. fst e \<noteq> k) al"
  by (induction al) auto

lemma map_update_existing:
  "map_of al k = Some v \<Longrightarrow> f (k, v') = f (k, v) \<Longrightarrow> map f (AList.update k v' al) = map f al"
  by (induction al) (auto split: if_splits)

lemma set_update_existing:
  "distinct (map fst al) \<Longrightarrow> set (AList.update k v al) \<subseteq> insert (k, v) (set al)"
  by (induction al) auto

end
