(* ===== verification/Computation.thy ===== *)
theory Computation
  imports Auth_Prelude
begin

text \<open>
  The computations of the use cases and repositories. An \<open>async def\<close> of the source is a
  function from the state of the running application to either an exception (\<open>Inl\<close>) or
  a value (\<open>Inr\<close>), together with the state at that moment: an exception does not undo
  what was done before it, only a database transaction does (theory \<open>Database\<close>).

  \<open>wp m Q E s\<close> says that running \<open>m\<close> from \<open>s\<close> ends in a value and state that satisfy
  \<open>Q\<close> or in an exception and state that satisfy \<open>E\<close>; \<open>keeps I m\<close> says that \<open>m\<close> keeps
  \<open>I\<close>, whatever its outcome.
\<close>

named_theorems keeps_intros \<open>rules for predicates kept by a computation\<close>

type_synonym ('s, 'e, 'a) comp = "'s \<Rightarrow> ('e + 'a) \<times> 's"

definition ok :: "'a \<Rightarrow> ('s, 'e, 'a) comp" where
  "ok x = (\<lambda>s. (Inr x, s))"

definition raise :: "'e \<Rightarrow> ('s, 'e, 'a) comp" where
  "raise e = (\<lambda>s. (Inl e, s))"

definition bind :: "('s, 'e, 'a) comp \<Rightarrow> ('a \<Rightarrow> ('s, 'e, 'b) comp) \<Rightarrow> ('s, 'e, 'b) comp" where
  "bind m f = (\<lambda>s. case m s of (Inl e, s') \<Rightarrow> (Inl e, s') | (Inr x, s') \<Rightarrow> f x s')"

definition seq :: "('s, 'e, unit) comp \<Rightarrow> ('s, 'e, 'b) comp \<Rightarrow> ('s, 'e, 'b) comp" where
  "seq m n = bind m (\<lambda>_. n)"

definition gets :: "('s \<Rightarrow> 'a) \<Rightarrow> ('s, 'e, 'a) comp" where
  "gets f = (\<lambda>s. (Inr (f s), s))"

definition modify :: "('s \<Rightarrow> 's) \<Rightarrow> ('s, 'e, unit) comp" where
  "modify f = (\<lambda>s. (Inr (), f s))"

text \<open>A pure result, for instance of a validation that may raise.\<close>

definition lift :: "'e + 'a \<Rightarrow> ('s, 'e, 'a) comp" where
  "lift r = (\<lambda>s. (r, s))"

text \<open>\<open>try: m except Exception as e: h(e)\<close>; the handler runs from the state of the raise.\<close>

definition catch :: "('s, 'e, 'a) comp \<Rightarrow> ('e \<Rightarrow> ('s, 'e, 'a) comp) \<Rightarrow> ('s, 'e, 'a) comp" where
  "catch m h = (\<lambda>s. case m s of (Inl e, s') \<Rightarrow> h e s' | (Inr x, s') \<Rightarrow> (Inr x, s'))"

definition only_if :: "bool \<Rightarrow> ('s, 'e, unit) comp \<Rightarrow> ('s, 'e, unit) comp" where
  "only_if b m = (if b then m else ok ())"

fun for_each :: "'a list \<Rightarrow> ('a \<Rightarrow> ('s, 'e, unit) comp) \<Rightarrow> ('s, 'e, unit) comp" where
  "for_each [] f = ok ()"
| "for_each (x # xs) f = seq (f x) (for_each xs f)"

lemmas comp_defs = ok_def raise_def bind_def seq_def gets_def modify_def lift_def catch_def
  only_if_def

subsection \<open>Weakest preconditions\<close>

definition wp :: "('s, 'e, 'a) comp \<Rightarrow> ('a \<Rightarrow> 's \<Rightarrow> bool) \<Rightarrow> ('e \<Rightarrow> 's \<Rightarrow> bool) \<Rightarrow> 's \<Rightarrow> bool" where
  "wp m Q E s = (case m s of (Inl e, s') \<Rightarrow> E e s' | (Inr x, s') \<Rightarrow> Q x s')"

lemma wp_ok [wp_simps]: "wp (ok x) Q E s = Q x s"
  by (simp add: wp_def ok_def)

lemma wp_raise [wp_simps]: "wp (raise e) Q E s = E e s"
  by (simp add: wp_def raise_def)

lemma wp_bind [wp_simps]: "wp (bind m f) Q E s = wp m (\<lambda>x. wp (f x) Q E) E s"
  by (simp add: wp_def bind_def split: prod.splits sum.splits)

lemma wp_seq [wp_simps]: "wp (seq m n) Q E s = wp m (\<lambda>_. wp n Q E) E s"
  by (simp add: seq_def wp_bind)

lemma wp_gets [wp_simps]: "wp (gets f) Q E s = Q (f s) s"
  by (simp add: wp_def gets_def)

lemma wp_modify [wp_simps]: "wp (modify f) Q E s = Q () (f s)"
  by (simp add: wp_def modify_def)

lemma wp_lift [wp_simps]: "wp (lift r) Q E s = (case r of Inl e \<Rightarrow> E e s | Inr x \<Rightarrow> Q x s)"
  by (simp add: wp_def lift_def)

lemma wp_catch [wp_simps]: "wp (catch m h) Q E s = wp m Q (\<lambda>e. wp (h e) Q E) s"
  by (simp add: wp_def catch_def split: prod.splits sum.splits)

lemma wp_only_if [wp_simps]: "wp (only_if b m) Q E s = (if b then wp m Q E s else Q () s)"
  by (simp add: only_if_def wp_ok)

lemma wp_if [wp_simps]: "wp (if b then m else n) Q E s = (if b then wp m Q E s else wp n Q E s)"
  by simp

lemma wp_case_option [wp_simps]:
  "wp (case v of None \<Rightarrow> m | Some x \<Rightarrow> f x) Q E s =
     (case v of None \<Rightarrow> wp m Q E s | Some x \<Rightarrow> wp (f x) Q E s)"
  by (simp split: option.splits)

lemma wp_case_prod [wp_simps]:
  "wp (case p of (x, y) \<Rightarrow> f x y) Q E s = (case p of (x, y) \<Rightarrow> wp (f x y) Q E s)"
  by (simp split: prod.splits)

lemma wp_mono:
  "wp m Q E s \<Longrightarrow> (\<And>x t. Q x t \<Longrightarrow> Q' x t) \<Longrightarrow> (\<And>e t. E e t \<Longrightarrow> E' e t) \<Longrightarrow> wp m Q' E' s"
  by (auto simp: wp_def split: prod.splits sum.splits)

lemma wp_conj: "wp m Q E s \<Longrightarrow> wp m Q' E' s \<Longrightarrow> wp m (\<lambda>x t. Q x t \<and> Q' x t) (\<lambda>e t. E e t \<and> E' e t) s"
  by (auto simp: wp_def split: prod.splits sum.splits)

lemma wp_Ok: "wp m Q E s \<Longrightarrow> m s = (Inr x, s') \<Longrightarrow> Q x s'"
  by (simp add: wp_def)

lemma wp_Err: "wp m Q E s \<Longrightarrow> m s = (Inl e, s') \<Longrightarrow> E e s'"
  by (simp add: wp_def)

lemma wp_OkD: "wp m Q (\<lambda>_ _. False) s \<Longrightarrow> \<exists>x s'. m s = (Inr x, s') \<and> Q x s'"
  by (cases "m s"; cases "fst (m s)") (auto simp: wp_def)

lemma wp_outcome: "wp m (\<lambda>x. Q (Inr x)) (\<lambda>e. Q (Inl e)) s = Q (fst (m s)) (snd (m s))"
  by (cases "m s"; cases "fst (m s)") (auto simp: wp_def)

lemma wp_raisesD: "wp m (\<lambda>_ _. False) E s \<Longrightarrow> \<exists>e s'. m s = (Inl e, s') \<and> E e s'"
  by (cases "m s"; cases "fst (m s)") (auto simp: wp_def)

lemma wpI:
  "(\<And>x t. m s = (Inr x, t) \<Longrightarrow> Q x t) \<Longrightarrow> (\<And>e t. m s = (Inl e, t) \<Longrightarrow> E e t) \<Longrightarrow> wp m Q E s"
  by (auto simp: wp_def split: prod.splits sum.splits)

lemma wp_for_each:
  assumes "I s" and "\<And>x t. x \<in> set xs \<Longrightarrow> I t \<Longrightarrow> wp (f x) (\<lambda>_. I) E t"
  shows "wp (for_each xs f) (\<lambda>_. I) E s"
  using assms
proof (induction xs arbitrary: s)
  case Nil
  then show ?case by (simp add: wp_ok)
next
  case (Cons x xs)
  have "wp (f x) (\<lambda>_. I) E s" using Cons.prems by simp
  then show ?case
    unfolding for_each.simps wp_seq
    by (rule wp_mono) (use Cons in auto)
qed

text \<open>Rules for specifications that say nothing about exceptions.\<close>

lemma wp_seq_returns: "P r \<Longrightarrow> wp (seq m (ok r)) (\<lambda>r _. P r) (\<lambda>_ _. True) s"
  by (simp add: wp_def seq_def bind_def ok_def split: prod.splits sum.splits)

lemma wp_True [simp]: "wp m (\<lambda>_ _. True) (\<lambda>_ _. True) s"
  by (simp add: wp_def split: prod.splits sum.splits)

lemma wp_or_raise:
  "wp (seq m (seq n (raise e))) Q (\<lambda>_ _. True) s" "wp (seq m (raise e)) Q (\<lambda>_ _. True) s"
  by (simp_all add: wp_def seq_def bind_def raise_def split: prod.splits sum.splits)

lemma wp_catch_raising:
  assumes "wp m Q (\<lambda>_ _. True) s" "\<And>e t. wp (h e) Q (\<lambda>_ _. True) t"
  shows "wp (catch m h) Q (\<lambda>_ _. True) s"
  unfolding wp_catch by (rule wp_mono [OF assms(1)]) (simp_all add: assms(2))

lemma wp_bindI:
  assumes "wp m R (\<lambda>_ _. True) s" "\<And>x t. R x t \<Longrightarrow> wp (f x) Q (\<lambda>_ _. True) t"
  shows "wp (bind m f) Q (\<lambda>_ _. True) s"
  unfolding wp_bind using assms(1) by (rule wp_mono) (simp_all add: assms(2))

lemma wp_seqI:
  assumes "wp m R (\<lambda>_ _. True) s" "\<And>x t. R x t \<Longrightarrow> wp n Q (\<lambda>_ _. True) t"
  shows "wp (seq m n) Q (\<lambda>_ _. True) s"
  unfolding seq_def by (rule wp_bindI [OF assms])

lemma wp_discard: "wp (bind m (\<lambda>_. ok ())) (\<lambda>_. Q) E s = wp m (\<lambda>_. Q) E s"
  by (simp add: wp_def bind_def ok_def split: prod.splits sum.splits)

subsection \<open>Predicates kept by a computation\<close>

definition keeps :: "('s \<Rightarrow> bool) \<Rightarrow> ('s, 'e, 'a) comp \<Rightarrow> bool" where
  "keeps I m = (\<forall>s. I s \<longrightarrow> I (snd (m s)))"

lemma keepsD: "keeps I m \<Longrightarrow> I s \<Longrightarrow> I (snd (m s))"
  by (simp add: keeps_def)

lemma wp_same: "wp m (\<lambda>_. I) (\<lambda>_. I) s = I (snd (m s))"
  by (cases "m s") (simp add: wp_def split: sum.splits)

lemma keeps_wp: "keeps I m \<Longrightarrow> I s \<Longrightarrow> wp m (\<lambda>_. I) (\<lambda>_. I) s"
  by (simp add: keeps_def wp_same)

lemma keeps_wp_iff: "keeps I m \<longleftrightarrow> (\<forall>s. I s \<longrightarrow> wp m (\<lambda>_. I) (\<lambda>_. I) s)"
  by (simp add: keeps_def wp_same)

lemma keeps_ok [keeps_intros]: "keeps I (ok x)"
  by (simp add: keeps_def ok_def)

lemma keeps_raise [keeps_intros]: "keeps I (raise e)"
  by (simp add: keeps_def raise_def)

lemma keeps_lift [keeps_intros]: "keeps I (lift r)"
  by (simp add: keeps_def lift_def)

lemma keeps_gets [keeps_intros]: "keeps I (gets f)"
  by (simp add: keeps_def gets_def)

lemma keeps_bind [keeps_intros]: "keeps I m \<Longrightarrow> (\<And>x. keeps I (f x)) \<Longrightarrow> keeps I (bind m f)"
  by (simp add: keeps_wp_iff wp_bind) (blast intro: wp_mono)

lemma keeps_seq [keeps_intros]: "keeps I m \<Longrightarrow> keeps I n \<Longrightarrow> keeps I (seq m n)"
  by (simp add: seq_def keeps_bind)

lemma keeps_catch [keeps_intros]: "keeps I m \<Longrightarrow> (\<And>e. keeps I (h e)) \<Longrightarrow> keeps I (catch m h)"
  by (simp add: keeps_wp_iff wp_catch) (blast intro: wp_mono)

lemma keeps_only_if [keeps_intros]: "keeps I m \<Longrightarrow> keeps I (only_if b m)"
  by (simp add: only_if_def keeps_ok)

lemma keeps_if [keeps_intros]:
  "(b \<Longrightarrow> keeps I m) \<Longrightarrow> (\<not> b \<Longrightarrow> keeps I n) \<Longrightarrow> keeps I (if b then m else n)"
  by simp

lemma keeps_case_option [keeps_intros]:
  "(v = None \<Longrightarrow> keeps I m) \<Longrightarrow> (\<And>x. v = Some x \<Longrightarrow> keeps I (f x)) \<Longrightarrow>
     keeps I (case v of None \<Rightarrow> m | Some x \<Rightarrow> f x)"
  by (cases v) auto

lemma keeps_case_prod [keeps_intros]:
  "(\<And>x y. p = (x, y) \<Longrightarrow> keeps I (f x y)) \<Longrightarrow> keeps I (case p of (x, y) \<Rightarrow> f x y)"
  by (cases p) auto

lemma keeps_let [keeps_intros]: "(\<And>x. x = v \<Longrightarrow> keeps I (f x)) \<Longrightarrow> keeps I (Let v f)"
  by simp

lemma keeps_modify: "(\<And>s. I s \<Longrightarrow> I (f s)) \<Longrightarrow> keeps I (modify f)"
  by (simp add: keeps_def modify_def)

lemma keeps_for_each [keeps_intros]: "(\<And>x. x \<in> set xs \<Longrightarrow> keeps I (f x)) \<Longrightarrow> keeps I (for_each xs f)"
  by (induction xs) (auto intro: keeps_intros)

end
