(* ===== verification/Rate_Limiter_Interface.thy ===== *)
theory Rate_Limiter_Interface
  imports Computation
begin

text \<open>
  The interface \<open>LoginRateLimiterInterface\<close>
  (\<^verbatim>\<open>app/interfaces/libraries/rate_limiter_interface.py\<close>). The use cases receive a limiter by
  dependency injection, so they are defined over a record of its operations, and the state
  type \<open>'l\<close> of the limiter stays abstract in them. The locale \<open>login_rate_limiter\<close> is the
  contract the use cases rely on: an invariant of the limiter kept by all its operations.
  The two implementations, \<open>In_Memory_Limiter\<close> and \<open>Redis_Limiter\<close>, interpret it.
\<close>

record 'l limiter_ops =
  is_allowed :: "string \<Rightarrow> string \<Rightarrow> 'l \<Rightarrow> bool \<times> 'l"
  is_account_deletion_reauth_allowed :: "string \<Rightarrow> string \<Rightarrow> 'l \<Rightarrow> bool \<times> 'l"
  record_failure :: "string \<Rightarrow> string \<Rightarrow> bool \<Rightarrow> 'l \<Rightarrow> 'l"
  record_success :: "string \<Rightarrow> string \<Rightarrow> 'l \<Rightarrow> 'l"
  is_registration_allowed :: "string \<Rightarrow> 'l \<Rightarrow> bool \<times> 'l"
  record_registration :: "string \<Rightarrow> 'l \<Rightarrow> 'l"
  is_oidc_authorization_allowed :: "string \<Rightarrow> 'l \<Rightarrow> bool \<times> 'l"
  record_oidc_authorization :: "string \<Rightarrow> 'l \<Rightarrow> 'l"

text \<open>The calls a client can make, as data, and a sequence of them.\<close>

datatype limiter_call =
    IsAllowed string string
  | IsAccountDeletionReauthAllowed string string
  | RecordFailure string string bool
  | RecordSuccess string string
  | IsRegistrationAllowed string
  | RecordRegistration string
  | IsOidcAuthorizationAllowed string
  | RecordOidcAuthorization string

fun limiter_step :: "'l limiter_ops \<Rightarrow> limiter_call \<Rightarrow> 'l \<Rightarrow> 'l" where
  "limiter_step ops (IsAllowed ip em) l = snd (is_allowed ops ip em l)"
| "limiter_step ops (IsAccountDeletionReauthAllowed ip em) l =
     snd (is_account_deletion_reauth_allowed ops ip em l)"
| "limiter_step ops (RecordFailure ip em b) l = record_failure ops ip em b l"
| "limiter_step ops (RecordSuccess ip em) l = record_success ops ip em l"
| "limiter_step ops (IsRegistrationAllowed ip) l = snd (is_registration_allowed ops ip l)"
| "limiter_step ops (RecordRegistration ip) l = record_registration ops ip l"
| "limiter_step ops (IsOidcAuthorizationAllowed ip) l = snd (is_oidc_authorization_allowed ops ip l)"
| "limiter_step ops (RecordOidcAuthorization ip) l = record_oidc_authorization ops ip l"

definition limiter_run :: "'l limiter_ops \<Rightarrow> limiter_call list \<Rightarrow> 'l \<Rightarrow> 'l" where
  "limiter_run ops calls l = fold (limiter_step ops) calls l"

lemma limiter_run_simps [simp]:
  "limiter_run ops [] l = l"
  "limiter_run ops (c # cs) l = limiter_run ops cs (limiter_step ops c l)"
  by (simp_all add: limiter_run_def)

locale login_rate_limiter =
  fixes ops :: "'l limiter_ops" and lim_inv :: "'l \<Rightarrow> bool"
  assumes step_inv: "lim_inv l \<Longrightarrow> lim_inv (limiter_step ops c l)"
begin

lemma is_allowed_inv [simp]: "lim_inv l \<Longrightarrow> lim_inv (snd (is_allowed ops ip em l))"
  using step_inv [of l "IsAllowed ip em"] by simp

lemma reauth_allowed_inv [simp]:
  "lim_inv l \<Longrightarrow> lim_inv (snd (is_account_deletion_reauth_allowed ops ip em l))"
  using step_inv [of l "IsAccountDeletionReauthAllowed ip em"] by simp

lemma record_failure_inv [simp]: "lim_inv l \<Longrightarrow> lim_inv (record_failure ops ip em b l)"
  using step_inv [of l "RecordFailure ip em b"] by simp

lemma record_success_inv [simp]: "lim_inv l \<Longrightarrow> lim_inv (record_success ops ip em l)"
  using step_inv [of l "RecordSuccess ip em"] by simp

lemma registration_allowed_inv [simp]:
  "lim_inv l \<Longrightarrow> lim_inv (snd (is_registration_allowed ops ip l))"
  using step_inv [of l "IsRegistrationAllowed ip"] by simp

lemma record_registration_inv [simp]: "lim_inv l \<Longrightarrow> lim_inv (record_registration ops ip l)"
  using step_inv [of l "RecordRegistration ip"] by simp

lemma oidc_allowed_inv [simp]:
  "lim_inv l \<Longrightarrow> lim_inv (snd (is_oidc_authorization_allowed ops ip l))"
  using step_inv [of l "IsOidcAuthorizationAllowed ip"] by simp

lemma record_oidc_inv [simp]: "lim_inv l \<Longrightarrow> lim_inv (record_oidc_authorization ops ip l)"
  using step_inv [of l "RecordOidcAuthorization ip"] by simp

lemma run_inv: "lim_inv l \<Longrightarrow> lim_inv (limiter_run ops cs l)"
  by (induction cs arbitrary: l) (auto intro: step_inv)

end

end
