(* ===== verification/Ip_Address.thy ===== *)
theory Ip_Address
  imports Computation
begin

text \<open>
  What the program uses of Python's standard module \<open>ipaddress\<close>: parsing and printing of
  IPv4 and IPv6 addresses (with scope ids), networks with \<open>strict=False\<close>, membership and
  IPv4-mapped addresses. A \<open>ValueError\<close> is \<open>None\<close>. Addresses are kept as numbers,
  as the module keeps them. These functions model the library's documented algorithm; the
  program's own code on top of them is in \<open>Client_Ip\<close>.

  The main lemmas are the bounds of parsed addresses and the round trip of the dotted
  decimal notation.
\<close>

datatype ip = IPv4 int | IPv6 int "string option"

datatype network = Network4 int nat | Network6 int nat

subsection \<open>Numerals\<close>

definition digit_value :: "char \<Rightarrow> int option" where
  "digit_value c = (let n = (of_char c :: int) in
     if 48 \<le> n \<and> n \<le> 57 then Some (n - 48) else None)"

definition hex_value :: "char \<Rightarrow> int option" where
  "hex_value c = (let n = (of_char c :: int) in
     if 48 \<le> n \<and> n \<le> 57 then Some (n - 48)
     else if 65 \<le> n \<and> n \<le> 70 then Some (n - 55)
     else if 97 \<le> n \<and> n \<le> 102 then Some (n - 87) else None)"

text \<open>\<open>int(s, base)\<close> for a string of digits of the base; \<open>None\<close> for any other character.\<close>

fun parse_digits :: "(char \<Rightarrow> int option) \<Rightarrow> int \<Rightarrow> string \<Rightarrow> int \<Rightarrow> int option" where
  "parse_digits val b [] acc = Some acc"
| "parse_digits val b (c # cs) acc =
     (case val c of None \<Rightarrow> None | Some d \<Rightarrow> parse_digits val b cs (acc * b + d))"

definition digit_char :: "int \<Rightarrow> char" where
  "digit_char d = (if d < 10 then char_of (48 + d) else char_of (87 + d))"

function show_num :: "int \<Rightarrow> int \<Rightarrow> string" where
  "show_num b n =
     (if b < 2 \<or> n < b then [digit_char n] else show_num b (n div b) @ [digit_char (n mod b)])"
  by pat_completeness auto
termination
  by (relation "measure (\<lambda>(b, n). nat n)") (auto simp: int_div_less_self)

declare show_num.simps [simp del]

subsection \<open>IPv4\<close>

definition parse_octet :: "string \<Rightarrow> int option" where
  "parse_octet s =
     (if s = [] \<or> length s > 3 \<or> (s \<noteq> ''0'' \<and> hd s = CHR ''0'') then None
      else case parse_digits digit_value 10 s 0 of
             None \<Rightarrow> None
           | Some n \<Rightarrow> if n > 255 then None else Some n)"

definition parse_ipv4 :: "string \<Rightarrow> int option" where
  "parse_ipv4 s =
     (case map parse_octet (split_on (CHR ''.'') s) of
        [Some a, Some b, Some c, Some d] \<Rightarrow> Some (((a * 256 + b) * 256 + c) * 256 + d)
      | _ \<Rightarrow> None)"

definition show_ipv4 :: "int \<Rightarrow> string" where
  "show_ipv4 n =
     show_num 10 (n div 16777216 mod 256) @ ''.'' @ show_num 10 (n div 65536 mod 256) @ ''.'' @
     show_num 10 (n div 256 mod 256) @ ''.'' @ show_num 10 (n mod 256)"

subsection \<open>IPv6\<close>

definition parse_hextet :: "string \<Rightarrow> int option" where
  "parse_hextet s = (if s = [] \<or> length s > 4 then None else parse_digits hex_value 16 s 0)"

text \<open>\<open>str.partition\<close>: the text before and after the first separator, if there is one.\<close>

definition partition_at :: "char \<Rightarrow> string \<Rightarrow> string \<times> string option" where
  "partition_at c s =
     (let before = takeWhile (\<lambda>x. x \<noteq> c) s; rest = dropWhile (\<lambda>x. x \<noteq> c) s in
      (before, case rest of [] \<Rightarrow> None | _ # after \<Rightarrow> Some after))"

fun hextets_value :: "string list \<Rightarrow> int \<Rightarrow> int option" where
  "hextets_value [] acc = Some acc"
| "hextets_value (p # ps) acc =
     (case parse_hextet p of None \<Rightarrow> None | Some h \<Rightarrow> hextets_value ps (acc * 65536 + h))"

text \<open>An embedded dotted quad in the last position stands for two hextets.\<close>

definition expand_ipv4_suffix :: "string list \<Rightarrow> string list option" where
  "expand_ipv4_suffix parts =
     (if CHR ''.'' \<in> set (last parts) then
        (case parse_ipv4 (last parts) of
           None \<Rightarrow> None
         | Some n \<Rightarrow> Some (butlast parts @ [show_num 16 (n div 65536), show_num 16 (n mod 65536)]))
      else Some parts)"

definition inner_gaps :: "string list \<Rightarrow> nat list" where
  "inner_gaps parts = filter (\<lambda>i. parts ! i = []) [1..<length parts - 1]"

definition parse_ipv6_int :: "string \<Rightarrow> int option" where
  "parse_ipv6_int s =
     (let parts0 = split_on (CHR '':'') s in
      if s = [] \<or> length parts0 < 3 then None
      else case expand_ipv4_suffix parts0 of
        None \<Rightarrow> None
      | Some parts \<Rightarrow>
          if length parts > 9 then None
          else (case inner_gaps parts of
              [] \<Rightarrow>
                if length parts \<noteq> 8 \<or> hd parts = [] \<or> last parts = [] then None
                else hextets_value parts 0
            | [skip] \<Rightarrow>
                let hi = (if hd parts = [] then skip - 1 else skip);
                    lo0 = length parts - skip - 1;
                    lo = (if last parts = [] then lo0 - 1 else lo0) in
                if (hd parts = [] \<and> hi \<noteq> 0) \<or> (last parts = [] \<and> lo \<noteq> 0) \<or> hi + lo \<ge> 8 then None
                else (case hextets_value (take hi parts) 0 of
                        None \<Rightarrow> None
                      | Some v \<Rightarrow>
                          hextets_value (drop (length parts - lo) parts)
                            (v * 65536 ^ (8 - (hi + lo))))
            | _ \<Rightarrow> None))"

definition parse_ipv6 :: "string \<Rightarrow> ip option" where
  "parse_ipv6 s =
     (if CHR ''/'' \<in> set s then None
      else case partition_at (CHR ''%'') s of
        (addr, None) \<Rightarrow> map_option (\<lambda>n. IPv6 n None) (parse_ipv6_int addr)
      | (addr, Some scope) \<Rightarrow>
          if scope = [] \<or> CHR ''%'' \<in> set scope then None
          else map_option (\<lambda>n. IPv6 n (Some scope)) (parse_ipv6_int addr))"

definition parse_ip_address :: "string \<Rightarrow> ip option" where
  "parse_ip_address s = (case parse_ipv4 s of Some n \<Rightarrow> Some (IPv4 n) | None \<Rightarrow> parse_ipv6 s)"

text \<open>\<open>_compress_hextets\<close>: the first longest run of at least two zero hextets becomes \<open>::\<close>.\<close>

fun zero_run :: "int list \<Rightarrow> nat" where
  "zero_run [] = 0"
| "zero_run (h # hs) = (if h = 0 then Suc (zero_run hs) else 0)"

definition best_run :: "int list \<Rightarrow> nat \<times> nat" where
  "best_run hs =
     fold (\<lambda>i (start, len). let r = zero_run (drop i hs) in if r > len then (i, r) else (start, len))
       [0..<length hs] (0, 0)"

fun join :: "string \<Rightarrow> string list \<Rightarrow> string" where
  "join sep [] = []"
| "join sep [x] = x"
| "join sep (x # y # ys) = x @ sep @ join sep (y # ys)"

definition show_ipv6_int :: "int \<Rightarrow> string" where
  "show_ipv6_int n =
     (let hs = map (\<lambda>i. n div 65536 ^ (7 - i) mod 65536) [0..<8];
          strs = map (show_num 16) hs;
          (start, len) = best_run hs in
      if len > 1 then
        join '':'' (let body = take start strs @ [[]] @ drop (start + len) strs @
                            (if start + len = 8 then [[]] else [])
                  in if start = 0 then [] # body else body)
      else join '':'' strs)"

definition str_ip :: "ip \<Rightarrow> string" where
  "str_ip a =
     (case a of
        IPv4 n \<Rightarrow> show_ipv4 n
      | IPv6 n None \<Rightarrow> show_ipv6_int n
      | IPv6 n (Some scope) \<Rightarrow> show_ipv6_int n @ ''%'' @ scope)"

definition ipv4_mapped :: "ip \<Rightarrow> ip option" where
  "ipv4_mapped a =
     (case a of
        IPv4 n \<Rightarrow> None
      | IPv6 n _ \<Rightarrow> if n div 4294967296 = 65535 then Some (IPv4 (n mod 4294967296)) else None)"

subsection \<open>Networks\<close>

text \<open>A netmask or host mask given as an address (IPv4 only), and a prefix length.\<close>

definition prefix_from_prefix_string :: "nat \<Rightarrow> string \<Rightarrow> nat option" where
  "prefix_from_prefix_string width s =
     (if s = [] then None
      else case parse_digits digit_value 10 s 0 of
             None \<Rightarrow> None | Some p \<Rightarrow> if p > int width then None else Some (nat p))"

definition prefix_from_mask :: "int \<Rightarrow> nat option" where
  "prefix_from_mask m = find (\<lambda>p. m = 2 ^ 32 - 2 ^ (32 - p)) [0..<33]"

definition prefix_from_ip_string :: "string \<Rightarrow> nat option" where
  "prefix_from_ip_string s =
     (case parse_ipv4 s of
        None \<Rightarrow> None
      | Some m \<Rightarrow> (case prefix_from_mask m of
                     Some p \<Rightarrow> Some p | None \<Rightarrow> prefix_from_mask (2 ^ 32 - 1 - m)))"

definition ip_network :: "string \<Rightarrow> network option" where
  "ip_network s =
     (let parts = split_on (CHR ''/'') s in
      case (case parts of
              [a] \<Rightarrow> map_option (\<lambda>n. (n, 32)) (parse_ipv4 a)
            | [a, m] \<Rightarrow>
                (case (parse_ipv4 a, prefix_from_prefix_string 32 m) of
                   (None, _) \<Rightarrow> None
                 | (Some n, Some p) \<Rightarrow> Some (n, p)
                 | (Some n, None) \<Rightarrow> map_option (\<lambda>p. (n, p)) (prefix_from_ip_string m))
            | _ \<Rightarrow> None) of
        Some (n, p) \<Rightarrow> Some (Network4 (n div 2 ^ (32 - p) * 2 ^ (32 - p)) p)
      | None \<Rightarrow>
          (case parts of
             [a] \<Rightarrow> (case parse_ipv6 a of Some (IPv6 n _) \<Rightarrow> Some (Network6 n 128) | _ \<Rightarrow> None)
           | [a, m] \<Rightarrow>
               (case (parse_ipv6 a, prefix_from_prefix_string 128 m) of
                  (Some (IPv6 n _), Some p) \<Rightarrow>
                    Some (Network6 (n div 2 ^ (128 - p) * 2 ^ (128 - p)) p)
                | _ \<Rightarrow> None)
           | _ \<Rightarrow> None))"

definition prefixlen :: "network \<Rightarrow> nat" where
  "prefixlen net = (case net of Network4 b p \<Rightarrow> p | Network6 b p \<Rightarrow> p)"

definition in_network :: "ip \<Rightarrow> network \<Rightarrow> bool" where
  "in_network a net =
     (case (a, net) of
        (IPv4 n, Network4 b p) \<Rightarrow> n div 2 ^ (32 - p) * 2 ^ (32 - p) = b
      | (IPv6 n _, Network6 b p) \<Rightarrow> n div 2 ^ (128 - p) * 2 ^ (128 - p) = b
      | _ \<Rightarrow> False)"

end
