(* ===== verification/Url.thy ===== *)
theory Url
  imports Ip_Address
begin

text \<open>
  \<open>urllib.parse.urlsplit\<close> and \<open>urlparse\<close> of Python 3.12 on code points below 256, where the
  NFKC check of the network location accepts everything. \<open>Inl\<close> is the \<open>ValueError\<close> of a
  malformed bracketed host. The program uses them to normalise redirect paths and to validate
  configured URLs.
\<close>

record url =
  url_scheme :: string
  url_netloc :: string
  url_path :: string
  url_params :: string
  url_query :: string
  url_fragment :: string

definition ascii_alpha :: "char \<Rightarrow> bool" where
  "ascii_alpha c = (let n = (of_char c :: nat) in (65 \<le> n \<and> n \<le> 90) \<or> (97 \<le> n \<and> n \<le> 122))"

definition ascii_digit :: "char \<Rightarrow> bool" where
  "ascii_digit c = (let n = (of_char c :: nat) in 48 \<le> n \<and> n \<le> 57)"

definition scheme_char :: "char \<Rightarrow> bool" where
  "scheme_char c = (ascii_alpha c \<or> ascii_digit c \<or> c \<in> {CHR ''+'', CHR ''-'', CHR ''.''})"

definition hex_char :: "char \<Rightarrow> bool" where
  "hex_char c = (ascii_digit c \<or> (let n = (of_char c :: nat) in (65 \<le> n \<and> n \<le> 70) \<or> (97 \<le> n \<and> n \<le> 102)))"

definition split_scheme :: "string \<Rightarrow> string \<times> string" where
  "split_scheme u =
     (case partition_at (CHR '':'') u of
        (pre, Some post) \<Rightarrow>
          if pre \<noteq> [] \<and> ascii_alpha (hd pre) \<and> list_all scheme_char pre then (lower pre, post) else ([], u)
      | (_, None) \<Rightarrow> ([], u))"

definition netloc_char :: "char \<Rightarrow> bool" where
  "netloc_char c = (c \<notin> {CHR ''/'', CHR ''?'', CHR ''#''})"

definition check_bracketed_host :: "string \<Rightarrow> bool" where
  "check_bracketed_host hostname =
     (if startswith hostname ''v'' then
        (case partition_at (CHR ''.'') (tl hostname) of
           (version, Some address) \<Rightarrow> version \<noteq> [] \<and> list_all hex_char version \<and> address \<noteq> []
             \<and> CHR 0x0A \<notin> set address
         | (_, None) \<Rightarrow> False)
      else (case parse_ip_address hostname of Some (IPv6 _ _) \<Rightarrow> True | _ \<Rightarrow> False))"

definition check_bracketed_netloc :: "string \<Rightarrow> bool" where
  "check_bracketed_netloc netloc =
     (let hostname_and_port = rev (takeWhile (\<lambda>c. c \<noteq> CHR ''@'') (rev netloc)) in
      case partition_at (CHR ''['') hostname_and_port of
        (before_bracket, Some bracketed) \<Rightarrow>
          before_bracket = [] \<and>
          (case partition_at (CHR '']'') bracketed of
             (hostname, None) \<Rightarrow> check_bracketed_host hostname
           | (hostname, Some port) \<Rightarrow> (port = [] \<or> startswith port '':'') \<and> check_bracketed_host hostname)
      | (_, None) \<Rightarrow> check_bracketed_host (fst (partition_at (CHR '':'') hostname_and_port)))"

text \<open>The network location is well formed: no brackets, or a matching bracketed host.\<close>

definition netloc_ok :: "string \<Rightarrow> bool" where
  "netloc_ok netloc =
     ((CHR ''['' \<in> set netloc \<longleftrightarrow> CHR '']'' \<in> set netloc) \<and>
      (CHR ''['' \<in> set netloc \<longrightarrow> check_bracketed_netloc netloc))"

definition split_netloc :: "string \<Rightarrow> string \<times> string" where
  "split_netloc u =
     (if startswith u ''//'' then (takeWhile netloc_char (drop 2 u), dropWhile netloc_char (drop 2 u)) else ([], u))"

definition split_at :: "char \<Rightarrow> string \<Rightarrow> string \<times> string" where
  "split_at c u = (case partition_at c u of (a, Some b) \<Rightarrow> (a, b) | (a, None) \<Rightarrow> (u, []))"

definition clean_url :: "string \<Rightarrow> string" where
  "clean_url u = filter (\<lambda>c. c \<notin> {CHR 0x09, CHR 0x0A, CHR 0x0D}) (lstrip_with (\<lambda>c. (of_char c :: nat) \<le> 32) u)"

definition urlsplit :: "string \<Rightarrow> string + url" where
  "urlsplit u0 =
     (let (scheme, u1) = split_scheme (clean_url u0);
          (netloc, u2) = split_netloc u1
      in if \<not> netloc_ok netloc then Inl ''Invalid IPv6 URL''
         else
           let (u3, fragment) = split_at (CHR ''#'') u2;
               (path, query) = split_at (CHR ''?'') u3
           in Inr \<lparr>url_scheme = scheme, url_netloc = netloc, url_path = path, url_params = [],
                   url_query = query, url_fragment = fragment\<rparr>)"

definition uses_params :: "string list" where
  "uses_params = ['''', ''ftp'', ''hdl'', ''prospero'', ''http'', ''imap'', ''https'', ''shttp'', ''rtsp'',
     ''rtsps'', ''rtspu'', ''sip'', ''sips'', ''mms'', ''sftp'', ''tel'']"

text \<open>\<open>_splitparams\<close>: the parameters follow the first semicolon of the last segment.\<close>

definition splitparams :: "string \<Rightarrow> string \<times> string" where
  "splitparams path =
     (let seg = rev (takeWhile (\<lambda>c. c \<noteq> CHR ''/'') (rev path));
          pre = rev (dropWhile (\<lambda>c. c \<noteq> CHR ''/'') (rev path))
      in case split_at (CHR '';'') seg of (a, params) \<Rightarrow> (pre @ a, params))"

definition urlparse :: "string \<Rightarrow> string + url" where
  "urlparse u =
     (case urlsplit u of
        Inl e \<Rightarrow> Inl e
      | Inr r \<Rightarrow>
          if url_scheme r \<in> set uses_params
          then let (path, params) = splitparams (url_path r) in Inr (r\<lparr>url_path := path, url_params := params\<rparr>)
          else Inr r)"

subsection \<open>Lemmas\<close>

lemma partition_at_before: "fst (partition_at c s) = takeWhile (\<lambda>x. x \<noteq> c) s"
  by (simp add: partition_at_def Let_def)

lemma partition_at_after: "snd (partition_at c s) = Some b \<Longrightarrow> s = takeWhile (\<lambda>x. x \<noteq> c) s @ c # b"
proof -
  assume "snd (partition_at c s) = Some b"
  then obtain x where x: "dropWhile (\<lambda>x. x \<noteq> c) s = x # b"
    by (auto simp: partition_at_def Let_def split: list.splits)
  then have "x = c" by (metis (full_types) hd_dropWhile list.sel(1) list.distinct(1))
  with x show ?thesis by (metis takeWhile_dropWhile_id)
qed

lemma partition_at_None: "snd (partition_at c s) = None \<longleftrightarrow> c \<notin> set s"
proof -
  have "snd (partition_at c s) = None \<longleftrightarrow> dropWhile (\<lambda>x. x \<noteq> c) s = []"
    by (cases "dropWhile (\<lambda>x. x \<noteq> c) s") (simp_all only: partition_at_def Let_def snd_conv, simp_all)
  then show ?thesis by (auto simp: dropWhile_eq_Nil_conv)
qed

lemma split_at_set:
  assumes "split_at c u = (a, b)"
  shows "set a \<subseteq> set u" "set b \<subseteq> set u" "length a + length b \<le> length u"
proof -
  obtain x y where p: "partition_at c u = (x, y)" by fastforce
  show "set a \<subseteq> set u" "set b \<subseteq> set u" "length a + length b \<le> length u"
  proof (atomize (full), cases y)
    case None
    with assms p show "set a \<subseteq> set u \<and> set b \<subseteq> set u \<and> length a + length b \<le> length u"
      by (auto simp: split_at_def)
  next
    case (Some z)
    with p partition_at_after [of c u z] have "u = x @ c # z"
      using partition_at_before [of c u] by simp
    with assms p Some show "set a \<subseteq> set u \<and> set b \<subseteq> set u \<and> length a + length b \<le> length u"
      by (auto simp: split_at_def)
  qed
qed

lemma split_at_take:
  assumes "split_at c u = (a, b)"
  shows "\<exists>z. u = a @ z \<and> (z = [] \<and> b = [] \<or> z = c # b)"
proof -
  obtain x y where p: "partition_at c u = (x, y)" by fastforce
  show ?thesis
  proof (cases y)
    case None
    with assms p show ?thesis by (simp add: split_at_def)
  next
    case (Some z)
    with p partition_at_after [of c u z] have "u = x @ c # z"
      using partition_at_before [of c u] by simp
    with assms p Some show ?thesis by (auto simp: split_at_def)
  qed
qed

end
