(* ===== verification/Client_Ip.thy ===== *)
theory Client_Ip
  imports Ip_Address
begin

text \<open>
  \<^verbatim>\<open>app/libraries/client_ip.py\<close>: the client address of a request behind trusted proxies, and
  \<open>InetString\<close> of \<^verbatim>\<open>app/libraries/sqlalchemy_types.py\<close>. A request carries what the program
  reads of Starlette's \<open>Request\<close>: method, path, peer address, headers and cookies, the last
  two as association lists in the order received.

  The lemmas state the resistance against forged \<open>X-Forwarded-For\<close> values: without a
  trusted peer the header is ignored, and with one only the part of the header after the
  last untrusted hop matters.
\<close>

record request =
  req_method :: string
  req_path :: string
  req_root_path :: string
  client_host :: "string option"
  req_headers :: "(string \<times> string) list"
  req_cookies :: "(string \<times> string) list"

definition headers_getlist :: "request \<Rightarrow> string \<Rightarrow> string list" where
  "headers_getlist r name = map snd (filter (\<lambda>h. lower (fst h) = name) (req_headers r))"

definition headers_get :: "request \<Rightarrow> string \<Rightarrow> string option" where
  "headers_get r name = (case headers_getlist r name of [] \<Rightarrow> None | v # _ \<Rightarrow> Some v)"

definition cookies_get :: "request \<Rightarrow> string \<Rightarrow> string option" where
  "cookies_get r name = map_of (rev (req_cookies r)) name"

subsection \<open>client\_ip.py\<close>

fun parse_networks :: "string list \<Rightarrow> network list option" where
  "parse_networks [] = Some []"
| "parse_networks (raw_value # rest) =
     (let value = strip raw_value in
      if value = [] then parse_networks rest
      else case ip_network value of
             None \<Rightarrow> None
           | Some net \<Rightarrow> map_option (\<lambda>nets. net # nets) (parse_networks rest))"

definition parse_trusted_proxy_networks :: "string \<Rightarrow> network list option" where
  "parse_trusted_proxy_networks trusted_proxy_ips =
     parse_networks (split_on (CHR '','') trusted_proxy_ips)"

definition normalize_ip_address :: "ip \<Rightarrow> ip" where
  "normalize_ip_address candidate =
     (case ipv4_mapped candidate of Some m \<Rightarrow> m | None \<Rightarrow> candidate)"

definition is_trusted :: "ip \<Rightarrow> network list \<Rightarrow> bool" where
  "is_trusted candidate trusted_networks = list_ex (in_network candidate) trusted_networks"

definition parse_direct_client_ip :: "request \<Rightarrow> ip option" where
  "parse_direct_client_ip r =
     (case client_host r of
        None \<Rightarrow> None
      | Some host \<Rightarrow> map_option normalize_ip_address (parse_ip_address host))"

text \<open>\<open>str.isdigit()\<close> below code point 256: the decimal digits and the superscripts.\<close>

definition isdigit :: "string \<Rightarrow> bool" where
  "isdigit s = (s \<noteq> [] \<and> list_all (\<lambda>c. let n = (of_char c :: nat) in
     (48 \<le> n \<and> n \<le> 57) \<or> n \<in> {178, 179, 185}) s)"

definition parse_forwarded_for_ip :: "string \<Rightarrow> ip option" where
  "parse_forwarded_for_ip value =
     (case parse_ip_address value of
        Some a \<Rightarrow> Some (normalize_ip_address a)
      | None \<Rightarrow>
          if startswith value ''['' \<and> CHR '']'' \<in> set value then
            map_option normalize_ip_address (parse_ip_address (takeWhile (\<lambda>c. c \<noteq> CHR '']'') (tl value)))
          else (case split_on (CHR '':'') value of
                  [host, port] \<Rightarrow>
                    if isdigit port then map_option normalize_ip_address (parse_ip_address host) else None
                | _ \<Rightarrow> None))"

fun scan_forwarded_for :: "network list \<Rightarrow> ip \<Rightarrow> ip \<Rightarrow> string list \<Rightarrow> ip" where
  "scan_forwarded_for nets direct_ip leftmost_candidate [] = leftmost_candidate"
| "scan_forwarded_for nets direct_ip leftmost_candidate (raw_value # rest) =
     (let value = strip raw_value in
      if value = [] then direct_ip
      else case parse_forwarded_for_ip value of
             None \<Rightarrow> direct_ip
           | Some candidate \<Rightarrow>
               if \<not> is_trusted candidate nets then candidate
               else scan_forwarded_for nets direct_ip candidate rest)"

definition resolve_forwarded_for_client_ip :: "string \<Rightarrow> network list \<Rightarrow> ip \<Rightarrow> ip" where
  "resolve_forwarded_for_client_ip forwarded_for trusted_networks direct_ip =
     scan_forwarded_for trusted_networks direct_ip direct_ip (rev (split_on (CHR '','') forwarded_for))"

text \<open>
  \<open>None\<close> is a \<open>ValueError\<close> of the trusted proxy setting, which \<open>AuthSettings\<close> rules out
  when the application starts; \<open>Some None\<close> is an unknown client address.
\<close>

definition resolve_client_ip :: "request \<Rightarrow> string \<Rightarrow> string option option" where
  "resolve_client_ip r trusted_proxy_ips =
     (case parse_direct_client_ip r of
        None \<Rightarrow> Some None
      | Some direct_ip \<Rightarrow>
          (case parse_trusted_proxy_networks trusted_proxy_ips of
             None \<Rightarrow> None
           | Some trusted_networks \<Rightarrow>
               if trusted_networks = [] \<or> \<not> is_trusted direct_ip trusted_networks
               then Some (Some (str_ip direct_ip))
               else
                 let forwarded_for = join '','' (headers_getlist r ''x-forwarded-for'') in
                 if forwarded_for = [] then Some (Some (str_ip direct_ip))
                 else Some (Some (str_ip
                        (resolve_forwarded_for_client_ip forwarded_for trusted_networks direct_ip)))))"

definition get_user_agent :: "request \<Rightarrow> string option" where
  "get_user_agent r =
     (case headers_get r ''user-agent'' of
        None \<Rightarrow> None
      | Some user_agent \<Rightarrow> if user_agent = [] then None else Some (take 512 user_agent))"

subsection \<open>InetString\<close>

definition inet_process_bind_param :: "string option \<Rightarrow> string option option" where
  "inet_process_bind_param value =
     (case value of
        None \<Rightarrow> Some None
      | Some v \<Rightarrow>
          (case parse_ip_address (fst (partition_at (CHR ''%'') v)) of
             None \<Rightarrow> None
           | Some a \<Rightarrow> Some (Some (str_ip a))))"

subsection \<open>Lemmas\<close>

lemma split_on_append:
  "split_on c (xs @ c # ys) = split_on c xs @ split_on c ys"
proof (induction xs)
  case (Cons x xs)
  then show ?case by (cases "split_on c xs") auto
qed simp

lemma scan_append_untrusted:
  assumes "\<exists>h \<in> set hops. \<exists>a. parse_forwarded_for_ip (strip h) = Some a \<and> \<not> is_trusted a nets"
  shows "scan_forwarded_for nets d l (hops @ rest) = scan_forwarded_for nets d l hops"
  using assms
proof (induction hops arbitrary: l)
  case (Cons h hops)
  then show ?case by (auto simp: Let_def split: option.splits)
qed simp

lemma normalize_not_mapped: "ipv4_mapped (normalize_ip_address a) = None"
  by (cases a) (auto simp: normalize_ip_address_def ipv4_mapped_def)

lemma normalize_idem [simp]: "normalize_ip_address (normalize_ip_address a) = normalize_ip_address a"
  by (simp add: normalize_ip_address_def [of "normalize_ip_address a"] normalize_not_mapped)

lemma resolve_untrusted_peer:
  assumes "parse_direct_client_ip r = Some d" "parse_trusted_proxy_networks t = Some nets"
    and "\<not> is_trusted d nets"
  shows "resolve_client_ip r t = Some (Some (str_ip d))"
  using assms by (simp add: resolve_client_ip_def)

definition octet_ok :: "int \<Rightarrow> bool" where
  "octet_ok k = (parse_octet (show_num 10 k) = Some k \<and> CHR ''.'' \<notin> set (show_num 10 k) \<and> CHR ''%'' \<notin> set (show_num 10 k))"

lemma octets_low: "list_all octet_ok [0..63]" "list_all octet_ok [64..127]"
  by code_simp+

lemma octets_high: "list_all octet_ok [128..191]" "list_all octet_ok [192..255]"
  by code_simp+

lemma octet_show: 
  assumes "0 \<le> k" "k < 256"
  shows "parse_octet (show_num 10 k) = Some k" "CHR ''.'' \<notin> set (show_num 10 k)"
    "CHR ''%'' \<notin> set (show_num 10 k)"
proof -
  have "k \<in> set [0..63] \<or> k \<in> set [64..127] \<or> k \<in> set [128..191] \<or> k \<in> set [192..255]"
    unfolding set_upto atLeastAtMost_iff using assms by presburger
  then have "octet_ok k" using octets_low octets_high unfolding list_all_iff by blast
  then show "parse_octet (show_num 10 k) = Some k" "CHR ''.'' \<notin> set (show_num 10 k)"
    "CHR ''%'' \<notin> set (show_num 10 k)"
    by (simp_all add: octet_ok_def)
qed

lemma split_on_absent: "c \<notin> set s \<Longrightarrow> split_on c s = [s]"
  by (induction s) auto

lemma split_dots: "CHR ''.'' \<notin> set a \<Longrightarrow> split_on (CHR ''.'') (a @ ''.'' @ s) = a # split_on (CHR ''.'') s"
  using split_on_append[of "CHR ''.''" a s] by (simp add: split_on_absent)

lemma parse_ipv4_join:
  assumes "CHR ''.'' \<notin> set a" "CHR ''.'' \<notin> set b" "CHR ''.'' \<notin> set c" "CHR ''.'' \<notin> set d"
    and "parse_octet a = Some w" "parse_octet b = Some x" "parse_octet c = Some y" "parse_octet d = Some z"
  shows "parse_ipv4 (a @ ''.'' @ b @ ''.'' @ c @ ''.'' @ d) = Some (((w * 256 + x) * 256 + y) * 256 + z)"
proof -
  have "split_on (CHR ''.'') (a @ ''.'' @ b @ ''.'' @ c @ ''.'' @ d) = [a, b, c, d]"
    by (simp only: split_dots [OF assms(1)] split_dots [OF assms(2)] split_dots [OF assms(3)]
        split_on_absent [OF assms(4)])
  then show ?thesis unfolding parse_ipv4_def by (simp add: assms(5-8))
qed

lemma ipv4_roundtrip:
  assumes "0 \<le> n" "n < 2 ^ 32"
  shows "parse_ipv4 (show_ipv4 n) = Some n"
proof -
  have o: "parse_octet (show_num 10 (m mod 256)) = Some (m mod 256)" "CHR ''.'' \<notin> set (show_num 10 (m mod 256))" for m :: int
    by (rule octet_show; simp)+
  have q: "n div 65536 = n div 256 div 256" "n div 16777216 = n div 256 div 256 div 256"
    by (simp_all add: zdiv_zmult2_eq [symmetric])
  have "0 \<le> n div 16777216" "n div 16777216 < 256" using assms by auto
  then have top: "n div 16777216 mod 256 = n div 16777216" by simp
  have "((n div 16777216 * 256 + n div 65536 mod 256) * 256 + n div 256 mod 256) * 256 + n mod 256 = n"
    unfolding q by (simp only: div_mult_mod_eq)
  then have "((n div 16777216 mod 256 * 256 + n div 65536 mod 256) * 256 + n div 256 mod 256) * 256 + n mod 256 = n"
    unfolding top .
  moreover have "parse_ipv4 (show_ipv4 n) = Some (((n div 16777216 mod 256 * 256 + n div 65536 mod 256) * 256
      + n div 256 mod 256) * 256 + n mod 256)"
    unfolding show_ipv4_def by (rule parse_ipv4_join) (rule o)+
  ultimately show ?thesis by (simp only:)
qed

lemma no_percent_ipv4: "CHR ''%'' \<notin> set (show_ipv4 n)"
proof -
  have "CHR ''%'' \<notin> set (show_num 10 (m mod 256))" for m :: int
    by (rule octet_show(3); simp)
  then show ?thesis by (simp add: show_ipv4_def)
qed

lemma partition_at_absent: "c \<notin> set s \<Longrightarrow> fst (partition_at c s) = s"
  unfolding partition_at_def by (auto simp: takeWhile_eq_all_conv)

lemma forwarded_prefix_irrelevant:
  assumes "\<exists>h \<in> set (split_on (CHR '','') appended).
             \<exists>a. parse_forwarded_for_ip (strip h) = Some a \<and> \<not> is_trusted a nets"
  shows "resolve_forwarded_for_client_ip (forged @ '','' @ appended) nets d =
         resolve_forwarded_for_client_ip appended nets d"
  using assms scan_append_untrusted [of "rev (split_on (CHR '','') appended)" nets d d]
  by (simp add: resolve_forwarded_for_client_ip_def split_on_append)

text \<open>
  C29: a client cannot choose the address it is known by. For a peer that is not a trusted proxy the resolved
  address is that of the peer, whatever the headers say. Behind a trusted proxy, if some hop that the proxies
  appended is a valid address that is not trusted, whatever the client put in front of it in the header makes no
  difference: the result is that of the appended part alone.
\<close>

theorem client_address_not_forged:
  assumes "parse_direct_client_ip r = Some d" "parse_trusted_proxy_networks t = Some nets"
  shows "(\<not> is_trusted d nets \<longrightarrow> resolve_client_ip (r\<lparr>req_headers := hs\<rparr>) t = Some (Some (str_ip d))) \<and>
    (is_trusted d nets \<and> join '','' (headers_getlist (r\<lparr>req_headers := hs\<rparr>) ''x-forwarded-for'') = forged @ '','' @ appended \<and>
      (\<exists>h \<in> set (split_on (CHR '','') appended). \<exists>a. parse_forwarded_for_ip (strip h) = Some a \<and> \<not> is_trusted a nets) \<longrightarrow>
     resolve_client_ip (r\<lparr>req_headers := hs\<rparr>) t = Some (Some (str_ip (resolve_forwarded_for_client_ip appended nets d))))"
proof -
  have d: "parse_direct_client_ip (r\<lparr>req_headers := hs\<rparr>) = Some d" using assms(1) by (simp add: parse_direct_client_ip_def)
  have trusted: "nets \<noteq> []" if "is_trusted d nets" using that by (auto simp: is_trusted_def)
  show ?thesis
    using resolve_untrusted_peer [OF d assms(2)] trusted forwarded_prefix_irrelevant [of appended nets forged d]
    by (auto simp: resolve_client_ip_def d assms(2))
qed

definition demo_request :: request where
  "demo_request = \<lparr>req_method = ''GET'', req_path = ''/api/auth/me'', req_root_path = [],
     client_host = Some ''203.0.113.7'',
     req_headers = [(''X-Forwarded-For'', ''8.8.8.8'')], req_cookies = []\<rparr>"

lemma client_address_not_forged_witness:
  "resolve_client_ip (demo_request\<lparr>req_headers := [(''X-Forwarded-For'', ''127.0.0.1'')]\<rparr>) ''10.0.0.0/8'' = Some (Some ''203.0.113.7'')
   \<and> resolve_client_ip (demo_request\<lparr>client_host := Some ''10.0.0.1'',
        req_headers := [(''x-forwarded-for'', ''1.1.1.1,203.0.113.7, 10.0.0.2'')]\<rparr>) ''10.0.0.0/8'' = Some (Some ''203.0.113.7'')"
    (is "?direct \<and> ?proxied")
proof
  have nets: "parse_trusted_proxy_networks ''10.0.0.0/8'' = Some [Network4 167772160 8]" by code_simp
  have s: "str_ip (IPv4 3405803783) = ''203.0.113.7''" by code_simp
  have u: "\<not> is_trusted (IPv4 3405803783) [Network4 167772160 8]" by code_simp
  have d: "parse_direct_client_ip demo_request = Some (IPv4 3405803783)" by code_simp
  show ?direct using client_address_not_forged [OF d nets] u s by simp
  have p: "parse_direct_client_ip (demo_request\<lparr>client_host := Some ''10.0.0.1''\<rparr>) = Some (IPv4 167772161)" by code_simp
  have hop: "''203.0.113.7'' \<in> set (split_on (CHR '','') ''203.0.113.7, 10.0.0.2'')"
    "parse_forwarded_for_ip (strip ''203.0.113.7'') = Some (IPv4 3405803783)" by code_simp+
  have "is_trusted (IPv4 167772161) [Network4 167772160 8]" by code_simp
  moreover have "join '','' (headers_getlist (demo_request\<lparr>client_host := Some ''10.0.0.1'',
      req_headers := [(''x-forwarded-for'', ''1.1.1.1,203.0.113.7, 10.0.0.2'')]\<rparr>) ''x-forwarded-for'')
      = ''1.1.1.1'' @ '','' @ ''203.0.113.7, 10.0.0.2''" by code_simp
  moreover have "resolve_forwarded_for_client_ip ''203.0.113.7, 10.0.0.2'' [Network4 167772160 8] (IPv4 167772161) = IPv4 3405803783"
    by code_simp
  ultimately show ?proxied
    using client_address_not_forged [OF p nets, of "[(''x-forwarded-for'', ''1.1.1.1,203.0.113.7, 10.0.0.2'')]" "''1.1.1.1''"
        "''203.0.113.7, 10.0.0.2''"] hop u s by auto
qed

text \<open>
  The address column accepts every IPv4 address the resolution of the client can return,
  and stores it unchanged.
\<close>

theorem inet_bind_keeps_ipv4:
  assumes "0 \<le> n" "n < 2 ^ 32"
  shows "inet_process_bind_param (Some (str_ip (IPv4 n))) = Some (Some (str_ip (IPv4 n)))"
  using ipv4_roundtrip [OF assms]
  by (simp add: inet_process_bind_param_def parse_ip_address_def str_ip_def partition_at_absent no_percent_ipv4)

lemma inet_bind_keeps_ipv4_witness:
  "inet_process_bind_param (Some (str_ip (IPv4 3405803783))) = Some (Some (str_ip (IPv4 3405803783)))"
  by (rule inet_bind_keeps_ipv4) simp_all

end
