(* ===== verification/Auth_Settings.thy ===== *)
theory Auth_Settings
  imports Client_Ip
begin

text \<open>
  \<^verbatim>\<open>app/config/auth.py\<close> with its validators, and the small libraries that read it: the session
  expiry of \<^verbatim>\<open>app/libraries/auth_session_issuer.py\<close>, the password policy of
  \<^verbatim>\<open>app/libraries/password_hasher.py\<close> and the cookie attributes of
  \<^verbatim>\<open>app/libraries/auth_cookies.py\<close>. The fields keep their names; floats are rationals.

  A validator returns \<open>None\<close> when it accepts the value and the message of its
  \<open>ValueError\<close> otherwise. Pydantic runs the field validators first, collects their
  errors, and runs the model validators, in order, only on settings without field errors.
\<close>

datatype rate_limit_backend = Memory | Redis

datatype unavailable_policy = Fail_closed | Fail_open

record auth_settings =
  AUTH_COOKIE_SECURE :: "bool option"
  AUTH_SESSION_COOKIE_PREFIX :: string
  AUTH_TRUSTED_PROXY_IPS :: string
  AUTH_SESSION_ABSOLUTE_TTL_SECONDS :: int
  AUTH_SESSION_IDLE_TTL_SECONDS :: int
  AUTH_SESSION_TOUCH_INTERVAL_SECONDS :: int
  AUTH_PASSWORD_HASH_CONCURRENCY :: int
  AUTH_RATE_LIMIT_WINDOW_SECONDS :: int
  AUTH_RATE_LIMIT_FAILURES_PER_EMAIL_IP :: int
  AUTH_RATE_LIMIT_FAILURES_PER_IP :: int
  AUTH_RATE_LIMIT_FAILURES_PER_EMAIL :: int
  AUTH_RATE_LIMIT_REGISTRATIONS_PER_IP :: int
  AUTH_RATE_LIMIT_REGISTRATION_WINDOW_SECONDS :: int
  AUTH_RATE_LIMIT_MAX_BUCKETS_PER_SCOPE :: int
  AUTH_RATE_LIMIT_BACKEND :: rate_limit_backend
  AUTH_RATE_LIMIT_REDIS_URL :: string
  AUTH_RATE_LIMIT_REDIS_KEY_PREFIX :: string
  AUTH_RATE_LIMIT_REDIS_UNAVAILABLE_POLICY :: unavailable_policy
  AUTH_RATE_LIMIT_REDIS_SOCKET_TIMEOUT_SECONDS :: rat
  AUTH_RATE_LIMIT_REDIS_SOCKET_CONNECT_TIMEOUT_SECONDS :: rat
  AUTH_RATE_LIMIT_REDIS_OPERATION_DEADLINE_SECONDS :: rat
  AUTH_RATE_LIMIT_REDIS_CIRCUIT_BREAKER_FAILURES :: int
  AUTH_RATE_LIMIT_REDIS_CIRCUIT_BREAKER_COOLDOWN_SECONDS :: int
  AUTH_RATE_LIMIT_REDIS_MAX_CONNECTIONS :: int
  AUTH_CSRF_EXEMPT_PATHS :: string

definition default_auth_settings :: auth_settings where
  "default_auth_settings = \<lparr>
     AUTH_COOKIE_SECURE = None,
     AUTH_SESSION_COOKIE_PREFIX = '''',
     AUTH_TRUSTED_PROXY_IPS = '''',
     AUTH_SESSION_ABSOLUTE_TTL_SECONDS = 604800,
     AUTH_SESSION_IDLE_TTL_SECONDS = 86400,
     AUTH_SESSION_TOUCH_INTERVAL_SECONDS = 300,
     AUTH_PASSWORD_HASH_CONCURRENCY = 4,
     AUTH_RATE_LIMIT_WINDOW_SECONDS = 900,
     AUTH_RATE_LIMIT_FAILURES_PER_EMAIL_IP = 5,
     AUTH_RATE_LIMIT_FAILURES_PER_IP = 20,
     AUTH_RATE_LIMIT_FAILURES_PER_EMAIL = 20,
     AUTH_RATE_LIMIT_REGISTRATIONS_PER_IP = 10,
     AUTH_RATE_LIMIT_REGISTRATION_WINDOW_SECONDS = 3600,
     AUTH_RATE_LIMIT_MAX_BUCKETS_PER_SCOPE = 10000,
     AUTH_RATE_LIMIT_BACKEND = Memory,
     AUTH_RATE_LIMIT_REDIS_URL = '''',
     AUTH_RATE_LIMIT_REDIS_KEY_PREFIX = ''auth:rate_limit'',
     AUTH_RATE_LIMIT_REDIS_UNAVAILABLE_POLICY = Fail_closed,
     AUTH_RATE_LIMIT_REDIS_SOCKET_TIMEOUT_SECONDS = 1 / 4,
     AUTH_RATE_LIMIT_REDIS_SOCKET_CONNECT_TIMEOUT_SECONDS = 1 / 4,
     AUTH_RATE_LIMIT_REDIS_OPERATION_DEADLINE_SECONDS = 4 / 5,
     AUTH_RATE_LIMIT_REDIS_CIRCUIT_BREAKER_FAILURES = 5,
     AUTH_RATE_LIMIT_REDIS_CIRCUIT_BREAKER_COOLDOWN_SECONDS = 10,
     AUTH_RATE_LIMIT_REDIS_MAX_CONNECTIONS = 100,
     AUTH_CSRF_EXEMPT_PATHS = ''''\<rparr>"

subsection \<open>Field validators\<close>

definition validate_positive_password_hash_concurrency :: "int \<Rightarrow> string option" where
  "validate_positive_password_hash_concurrency v =
     (if v < 1 then Some ''AUTH_PASSWORD_HASH_CONCURRENCY must be at least 1'' else None)"

definition validate_session_cookie_prefix :: "string \<Rightarrow> string option" where
  "validate_session_cookie_prefix v =
     (if v \<notin> {'''', ''__Host-''}
      then Some ''AUTH_SESSION_COOKIE_PREFIX must be empty or __Host-'' else None)"

definition validate_positive_int :: "int \<Rightarrow> string option" where
  "validate_positive_int v = (if v < 1 then Some ''value must be at least 1'' else None)"

definition validate_redis_timeout_minimum :: "rat \<Rightarrow> string option" where
  "validate_redis_timeout_minimum v = (if v < 1 / 20 then Some ''value must be at least 0.05'' else None)"

definition validate_redis_max_connections :: "int \<Rightarrow> string option" where
  "validate_redis_max_connections v =
     (if v < 1 then Some ''AUTH_RATE_LIMIT_REDIS_MAX_CONNECTIONS must be at least 1'' else None)"

definition validate_redis_key_prefix :: "string \<Rightarrow> string option" where
  "validate_redis_key_prefix v =
     (if strip v = [] \<or> strip_with (\<lambda>c. c = CHR '':'') v = []
         \<or> list_ex (\<lambda>c. c \<in> set v) [CHR ''*'', CHR ''?'', CHR ''['', CHR '']'']
         \<or> CHR 0x0A \<in> set v \<or> CHR 0x0D \<in> set v
      then Some (''AUTH_RATE_LIMIT_REDIS_KEY_PREFIX must not be empty or contain ''
                 @ ''glob characters, colon-only value, or newline'')
      else None)"

fun validate_proxy_entries :: "string list \<Rightarrow> string option" where
  "validate_proxy_entries [] = None"
| "validate_proxy_entries (raw_proxy_ip # rest) =
     (let proxy_ip = strip raw_proxy_ip in
      if proxy_ip = [] then validate_proxy_entries rest
      else case ip_network proxy_ip of
             None \<Rightarrow> Some ''AUTH_TRUSTED_PROXY_IPS must contain only IP addresses or CIDR networks''
           | Some network \<Rightarrow>
               if prefixlen network = 0
               then Some ''AUTH_TRUSTED_PROXY_IPS must not trust all addresses''
               else validate_proxy_entries rest)"

definition validate_trusted_proxy_ips :: "string \<Rightarrow> string option" where
  "validate_trusted_proxy_ips v = validate_proxy_entries (split_on (CHR '','') v)"

text \<open>The errors of the fields, in the order of the fields.\<close>

definition auth_field_errors :: "auth_settings \<Rightarrow> string list" where
  "auth_field_errors s = List.map_filter id [
     validate_session_cookie_prefix (AUTH_SESSION_COOKIE_PREFIX s),
     validate_trusted_proxy_ips (AUTH_TRUSTED_PROXY_IPS s),
     validate_positive_int (AUTH_SESSION_ABSOLUTE_TTL_SECONDS s),
     validate_positive_int (AUTH_SESSION_IDLE_TTL_SECONDS s),
     validate_positive_password_hash_concurrency (AUTH_PASSWORD_HASH_CONCURRENCY s),
     validate_positive_int (AUTH_RATE_LIMIT_WINDOW_SECONDS s),
     validate_positive_int (AUTH_RATE_LIMIT_FAILURES_PER_EMAIL_IP s),
     validate_positive_int (AUTH_RATE_LIMIT_FAILURES_PER_IP s),
     validate_positive_int (AUTH_RATE_LIMIT_FAILURES_PER_EMAIL s),
     validate_positive_int (AUTH_RATE_LIMIT_REGISTRATIONS_PER_IP s),
     validate_positive_int (AUTH_RATE_LIMIT_REGISTRATION_WINDOW_SECONDS s),
     validate_positive_int (AUTH_RATE_LIMIT_MAX_BUCKETS_PER_SCOPE s),
     validate_redis_key_prefix (AUTH_RATE_LIMIT_REDIS_KEY_PREFIX s),
     validate_redis_timeout_minimum (AUTH_RATE_LIMIT_REDIS_SOCKET_TIMEOUT_SECONDS s),
     validate_redis_timeout_minimum (AUTH_RATE_LIMIT_REDIS_SOCKET_CONNECT_TIMEOUT_SECONDS s),
     validate_redis_timeout_minimum (AUTH_RATE_LIMIT_REDIS_OPERATION_DEADLINE_SECONDS s),
     validate_positive_int (AUTH_RATE_LIMIT_REDIS_CIRCUIT_BREAKER_FAILURES s),
     validate_positive_int (AUTH_RATE_LIMIT_REDIS_CIRCUIT_BREAKER_COOLDOWN_SECONDS s),
     validate_redis_max_connections (AUTH_RATE_LIMIT_REDIS_MAX_CONNECTIONS s)]"

subsection \<open>Model validators\<close>

definition validate_host_prefixed_session_cookie_requires_secure :: "auth_settings \<Rightarrow> string option" where
  "validate_host_prefixed_session_cookie_requires_secure s =
     (if AUTH_SESSION_COOKIE_PREFIX s = ''__Host-'' \<and> AUTH_COOKIE_SECURE s = Some False
      then Some ''AUTH_SESSION_COOKIE_PREFIX=__Host- requires AUTH_COOKIE_SECURE=true'' else None)"

definition validate_redis_rate_limit_settings :: "auth_settings \<Rightarrow> string option" where
  "validate_redis_rate_limit_settings s =
     (if AUTH_RATE_LIMIT_BACKEND s = Redis \<and> AUTH_RATE_LIMIT_REDIS_URL s = []
      then Some ''AUTH_RATE_LIMIT_REDIS_URL is required when AUTH_RATE_LIMIT_BACKEND=redis''
      else
        let minimum_deadline = AUTH_RATE_LIMIT_REDIS_SOCKET_CONNECT_TIMEOUT_SECONDS s +
                               2 * AUTH_RATE_LIMIT_REDIS_SOCKET_TIMEOUT_SECONDS s in
        if minimum_deadline > AUTH_RATE_LIMIT_REDIS_OPERATION_DEADLINE_SECONDS s
        then Some (''AUTH_RATE_LIMIT_REDIS_OPERATION_DEADLINE_SECONDS must be at least ''
                   @ ''AUTH_RATE_LIMIT_REDIS_SOCKET_CONNECT_TIMEOUT_SECONDS + ''
                   @ ''2 * AUTH_RATE_LIMIT_REDIS_SOCKET_TIMEOUT_SECONDS'')
        else None)"

definition auth_settings_errors :: "auth_settings \<Rightarrow> string list" where
  "auth_settings_errors s =
     (let field_errors = auth_field_errors s in
      if field_errors \<noteq> [] then field_errors
      else case validate_host_prefixed_session_cookie_requires_secure s of
             Some e \<Rightarrow> [e]
           | None \<Rightarrow> (case validate_redis_rate_limit_settings s of Some e \<Rightarrow> [e] | None \<Rightarrow> []))"

abbreviation valid_settings :: "auth_settings \<Rightarrow> bool" where
  "valid_settings s \<equiv> auth_settings_errors s = []"

subsection \<open>Session lifetimes\<close>

definition effective_session_touch_interval_seconds :: "auth_settings \<Rightarrow> int" where
  "effective_session_touch_interval_seconds s =
     (let configured_interval = AUTH_SESSION_TOUCH_INTERVAL_SECONDS s in
      if configured_interval \<le> 0 then configured_interval
      else
        let max_interval = AUTH_SESSION_IDLE_TTL_SECONDS s div 2 in
        if configured_interval \<ge> max_interval then max_interval else configured_interval)"

definition calculate_session_expiry :: "auth_settings \<Rightarrow> datetime \<Rightarrow> datetime \<Rightarrow> datetime" where
  "calculate_session_expiry s issued_at last_seen_at =
     (let absolute_expires_at = issued_at + seconds (AUTH_SESSION_ABSOLUTE_TTL_SECONDS s);
          idle_expires_at = last_seen_at + seconds (AUTH_SESSION_IDLE_TTL_SECONDS s)
      in min absolute_expires_at idle_expires_at)"

subsection \<open>Password policy\<close>

definition validate_password_policy :: "string \<Rightarrow> bool \<times> string option" where
  "validate_password_policy raw_password =
     (if length raw_password < 12 then (False, Some ''Password must be at least 12 characters long'')
      else if length raw_password > 128 then (False, Some ''Password must be 128 characters or fewer'')
      else (True, None))"

subsection \<open>Cookies\<close>

text \<open>A \<open>Set-Cookie\<close> header as Starlette's \<open>Response.set_cookie\<close> receives it.\<close>

record set_cookie =
  ck_key :: string
  ck_value :: string
  ck_httponly :: bool
  ck_samesite :: string
  ck_secure :: bool
  ck_path :: string
  ck_max_age :: int

definition session_cookie_name :: "auth_settings \<Rightarrow> string" where
  "session_cookie_name s = AUTH_SESSION_COOKIE_PREFIX s @ ''session_token''"

definition csrf_cookie_name :: string where
  "csrf_cookie_name = ''csrf_token''"

definition validate_host_prefix :: "string \<Rightarrow> bool \<Rightarrow> string option" where
  "validate_host_prefix key secure =
     (if startswith key ''__Host-'' \<and> \<not> secure
      then Some ''__Host- cookies must use Secure=True, Path=/, and no Domain.'' else None)"

definition set_auth_cookie ::
    "string \<Rightarrow> string \<Rightarrow> bool \<Rightarrow> bool \<Rightarrow> int \<Rightarrow> set_cookie list \<Rightarrow> string + set_cookie list" where
  "set_auth_cookie key value httponly secure max_age_seconds response =
     (case validate_host_prefix key secure of
        Some e \<Rightarrow> Inl e
      | None \<Rightarrow> Inr (response @ [\<lparr>ck_key = key, ck_value = value, ck_httponly = httponly,
           ck_samesite = ''lax'', ck_secure = secure, ck_path = ''/'', ck_max_age = max_age_seconds\<rparr>]))"

definition clear_auth_cookie ::
    "string \<Rightarrow> bool \<Rightarrow> bool \<Rightarrow> set_cookie list \<Rightarrow> string + set_cookie list" where
  "clear_auth_cookie key httponly secure response =
     (case validate_host_prefix key secure of
        Some e \<Rightarrow> Inl e
      | None \<Rightarrow> Inr (response @ [\<lparr>ck_key = key, ck_value = '''', ck_httponly = httponly,
           ck_samesite = ''lax'', ck_secure = secure, ck_path = ''/'', ck_max_age = 0\<rparr>]))"

subsection \<open>Lemmas\<close>

lemma map_filter_id_Nil: "List.map_filter id xs = [] \<longleftrightarrow> (\<forall>x \<in> set xs. x = None)"
  by (induction xs) (auto simp: List.map_filter_simps split: option.splits)

lemma positive_int_None [simp]: "validate_positive_int v = None \<longleftrightarrow> 1 \<le> v"
  by (simp add: validate_positive_int_def)

lemma valid_settings_fields:
  assumes "valid_settings s"
  shows "1 \<le> AUTH_SESSION_ABSOLUTE_TTL_SECONDS s" "1 \<le> AUTH_SESSION_IDLE_TTL_SECONDS s"
    "1 \<le> AUTH_RATE_LIMIT_WINDOW_SECONDS s" "1 \<le> AUTH_RATE_LIMIT_FAILURES_PER_EMAIL_IP s"
    "1 \<le> AUTH_RATE_LIMIT_FAILURES_PER_IP s" "1 \<le> AUTH_RATE_LIMIT_FAILURES_PER_EMAIL s"
    "1 \<le> AUTH_RATE_LIMIT_MAX_BUCKETS_PER_SCOPE s"
    "validate_trusted_proxy_ips (AUTH_TRUSTED_PROXY_IPS s) = None"
    "validate_session_cookie_prefix (AUTH_SESSION_COOKIE_PREFIX s) = None"
proof -
  have "auth_field_errors s = []"
    using assms by (auto simp: auth_settings_errors_def Let_def split: if_splits)
  then show "1 \<le> AUTH_SESSION_ABSOLUTE_TTL_SECONDS s" "1 \<le> AUTH_SESSION_IDLE_TTL_SECONDS s"
    "1 \<le> AUTH_RATE_LIMIT_WINDOW_SECONDS s" "1 \<le> AUTH_RATE_LIMIT_FAILURES_PER_EMAIL_IP s"
    "1 \<le> AUTH_RATE_LIMIT_FAILURES_PER_IP s" "1 \<le> AUTH_RATE_LIMIT_FAILURES_PER_EMAIL s"
    "1 \<le> AUTH_RATE_LIMIT_MAX_BUCKETS_PER_SCOPE s"
    "validate_trusted_proxy_ips (AUTH_TRUSTED_PROXY_IPS s) = None"
    "validate_session_cookie_prefix (AUTH_SESSION_COOKIE_PREFIX s) = None"
    unfolding auth_field_errors_def map_filter_id_Nil by simp_all
qed

lemma validated_entries_parse:
  "validate_proxy_entries xs = None \<Longrightarrow> \<exists>nets. parse_networks xs = Some nets \<and> (\<forall>n \<in> set nets. prefixlen n \<noteq> 0)"
  by (induction xs) (auto simp: Let_def split: if_splits option.splits)

lemma policy_accepts_iff:
  "fst (validate_password_policy p) \<longleftrightarrow> 12 \<le> length p \<and> length p \<le> 128"
  by (auto simp: validate_password_policy_def)

lemma session_expiry_bounds:
  "calculate_session_expiry s i l \<le> i + seconds (AUTH_SESSION_ABSOLUTE_TTL_SECONDS s)"
  "calculate_session_expiry s i l \<le> l + seconds (AUTH_SESSION_IDLE_TTL_SECONDS s)"
  by (simp_all add: calculate_session_expiry_def)

text \<open>
  Settings that pass validation never make the resolution of a client address fail,
  and trust no network of prefix length zero.
\<close>

theorem valid_settings_resolve:
  assumes "valid_settings s"
  shows "resolve_client_ip r (AUTH_TRUSTED_PROXY_IPS s) \<noteq> None
         \<and> (\<forall>nets. parse_trusted_proxy_networks (AUTH_TRUSTED_PROXY_IPS s) = Some nets \<longrightarrow>
              (\<forall>n \<in> set nets. prefixlen n \<noteq> 0))"
proof -
  from validated_entries_parse valid_settings_fields(8) [OF assms]
  obtain nets where "parse_trusted_proxy_networks (AUTH_TRUSTED_PROXY_IPS s) = Some nets"
    "\<forall>n \<in> set nets. prefixlen n \<noteq> 0"
    unfolding validate_trusted_proxy_ips_def parse_trusted_proxy_networks_def by blast
  then show ?thesis by (auto simp: resolve_client_ip_def Let_def split: option.splits)
qed

lemma default_settings_valid: "valid_settings default_auth_settings"
  by code_simp

lemma valid_settings_resolve_witness:
  "resolve_client_ip demo_request (AUTH_TRUSTED_PROXY_IPS default_auth_settings) \<noteq> None"
  using valid_settings_resolve [OF default_settings_valid, of demo_request] by simp

text \<open>
  The touch interval in effect is safe. A positive configured interval is never
  exceeded and is reduced to at most half the idle time, so a session used at least once
  per interval is refreshed before its idle time runs out; for an idle time of at least two
  seconds the effective interval stays positive.
\<close>

theorem touch_interval_safe:
  assumes "valid_settings s" and "0 < AUTH_SESSION_TOUCH_INTERVAL_SECONDS s"
  shows "effective_session_touch_interval_seconds s \<le> AUTH_SESSION_TOUCH_INTERVAL_SECONDS s
         \<and> 2 * effective_session_touch_interval_seconds s \<le> AUTH_SESSION_IDLE_TTL_SECONDS s
         \<and> (effective_session_touch_interval_seconds s \<le> 0 \<longleftrightarrow> AUTH_SESSION_IDLE_TTL_SECONDS s = 1)"
proof -
  have "1 \<le> AUTH_SESSION_IDLE_TTL_SECONDS s" by (rule valid_settings_fields(2) [OF assms(1)])
  then have "AUTH_SESSION_IDLE_TTL_SECONDS s div 2 \<le> 0 \<longleftrightarrow> AUTH_SESSION_IDLE_TTL_SECONDS s = 1" by linarith
  with assms(2) show ?thesis
    by (auto simp: effective_session_touch_interval_seconds_def Let_def)
qed

lemma touch_interval_safe_witness:
  "effective_session_touch_interval_seconds default_auth_settings \<le> 300"
proof -
  have "0 < AUTH_SESSION_TOUCH_INTERVAL_SECONDS default_auth_settings"
    by (simp add: default_auth_settings_def)
  from touch_interval_safe [OF default_settings_valid this] show ?thesis
    by (simp add: default_auth_settings_def)
qed

end
