(* ===== verification/Oidc_Settings.thy ===== *)
theory Oidc_Settings
  imports Url Auth_Settings
begin

text \<open>
  \<^verbatim>\<open>app/config/oidc.py\<close>: the OpenID Connect providers and their settings, read from an
  environment given as a map. \<open>Inl\<close> is the message of the \<open>ValueError\<close> that stops the
  application; of the errors pydantic collects for one provider the first is reported.
  \<open>str.upper\<close> is modelled on ASCII letters, which is what the provider pattern lets through.
\<close>

datatype auto_provision_mode = Provision_enabled | Link_only

datatype link_mode = Link_auto | Link_manual | Link_disabled

record oidc_provider =
  op_provider_id :: string
  op_display_name :: string
  op_issuer :: string
  op_client_id :: string
  op_client_secret :: string
  op_scope :: "string list"
  op_trust_verified_email :: bool
  op_auto_provision :: auto_provision_mode
  op_link_mode :: link_mode
  op_callback_path :: string
  op_claims_allowlist :: "string list"

record oidc_settings =
  os_providers :: "oidc_provider list"
  AUTH_OIDC_REDIRECT_BASE_URL :: "string option"
  AUTH_OIDC_REAUTH_FRESHNESS_SECONDS :: int
  AUTH_OIDC_AUTHORIZATION_STARTS_PER_IP :: int
  AUTH_OIDC_STATE_TTL_SECONDS :: int
  AUTH_OIDC_AUTH_TIME_FUTURE_LEEWAY_SECONDS :: int

subsection \<open>Validators\<close>

definition provider_id_start :: "char \<Rightarrow> bool" where
  "provider_id_start c = (ascii_digit c \<or> (let n = (of_char c :: nat) in 97 \<le> n \<and> n \<le> 122))"

definition provider_id_pattern :: "string \<Rightarrow> bool" where
  "provider_id_pattern s =
     (case s of [] \<Rightarrow> False
      | c # cs \<Rightarrow> provider_id_start c \<and>
          list_all (\<lambda>d. provider_id_start d \<or> d = CHR ''_'' \<or> d = CHR ''-'') cs)"

definition validate_absolute_url :: "string \<Rightarrow> string \<Rightarrow> string option" where
  "validate_absolute_url value label =
     (case urlparse value of
        Inl e \<Rightarrow> Some e
      | Inr parsed \<Rightarrow>
          if url_scheme parsed \<notin> {''https'', ''http''} \<or> url_netloc parsed = []
          then Some (label @ '' must be an absolute URL'') else None)"

definition rstrip_slash :: "string \<Rightarrow> string" where
  "rstrip_slash s = rstrip_with (\<lambda>c. c = CHR ''/'') s"

definition validate_non_empty :: "string \<Rightarrow> string option" where
  "validate_non_empty v = (if strip v = [] then Some ''value must not be empty'' else None)"

definition validate_callback_path :: "string \<Rightarrow> string option" where
  "validate_callback_path v =
     (if \<not> startswith v ''/'' then Some ''callback_path must be an absolute path'' else None)"

definition first_error :: "string option list \<Rightarrow> string option" where
  "first_error es = (case List.map_filter id es of [] \<Rightarrow> None | e # _ \<Rightarrow> Some e)"

definition mk_oidc_provider :: "oidc_provider \<Rightarrow> string + oidc_provider" where
  "mk_oidc_provider p =
     (case first_error [
        (if provider_id_pattern (op_provider_id p) then None
         else Some ''provider_id must be lowercase alphanumeric, dash, or underscore''),
        validate_non_empty (op_display_name p),
        validate_absolute_url (op_issuer p) ''issuer'',
        validate_non_empty (op_client_id p),
        validate_non_empty (op_client_secret p),
        validate_callback_path (op_callback_path p)] of
        Some e \<Rightarrow> Inl e
      | None \<Rightarrow> Inr (p\<lparr>op_issuer := rstrip_slash (op_issuer p)\<rparr>))"

definition allows_auto_provision :: "oidc_provider \<Rightarrow> bool" where
  "allows_auto_provision p = (op_trust_verified_email p \<and> op_auto_provision p = Provision_enabled)"

definition allows_auto_link :: "oidc_provider \<Rightarrow> bool" where
  "allows_auto_link p = (op_trust_verified_email p \<and> op_link_mode p = Link_auto)"

definition validate_redirect_base_url :: "string option \<Rightarrow> string + string option" where
  "validate_redirect_base_url value =
     (case value of
        None \<Rightarrow> Inr None
      | Some v \<Rightarrow> (case validate_absolute_url v ''AUTH_OIDC_REDIRECT_BASE_URL'' of
                     Some e \<Rightarrow> Inl e | None \<Rightarrow> Inr (Some (rstrip_slash v))))"

definition mk_oidc_settings :: "oidc_settings \<Rightarrow> string + oidc_settings" where
  "mk_oidc_settings s =
     (case validate_redirect_base_url (AUTH_OIDC_REDIRECT_BASE_URL s) of
        Inl e \<Rightarrow> Inl e
      | Inr base \<Rightarrow>
          (case first_error [
             validate_positive_int (AUTH_OIDC_REAUTH_FRESHNESS_SECONDS s),
             validate_positive_int (AUTH_OIDC_AUTHORIZATION_STARTS_PER_IP s),
             validate_positive_int (AUTH_OIDC_STATE_TTL_SECONDS s),
             validate_positive_int (AUTH_OIDC_AUTH_TIME_FUTURE_LEEWAY_SECONDS s)] of
             Some e \<Rightarrow> Inl e
           | None \<Rightarrow>
               if os_providers s \<noteq> [] \<and> base = None
               then Inl ''AUTH_OIDC_REDIRECT_BASE_URL is required when OIDC providers are enabled''
               else Inr (s\<lparr>AUTH_OIDC_REDIRECT_BASE_URL := base\<rparr>)))"

text \<open>\<open>None\<close> is the \<open>KeyError\<close>.\<close>

definition get_provider :: "oidc_settings \<Rightarrow> string \<Rightarrow> oidc_provider option" where
  "get_provider s provider_id = List.find (\<lambda>p. op_provider_id p = provider_id) (os_providers s)"

subsection \<open>Reading the environment\<close>

type_synonym environ = "string \<rightharpoonup> string"

definition env_get :: "environ \<Rightarrow> string \<Rightarrow> string \<Rightarrow> string" where
  "env_get env key fallback = (case env key of None \<Rightarrow> fallback | Some v \<Rightarrow> v)"

definition split_csv :: "string \<Rightarrow> string list" where
  "split_csv value = filter (\<lambda>p. p \<noteq> []) (map strip (split_on (CHR '','') value))"

text \<open>\<open>str.split()\<close> without separator.\<close>

function split_space :: "string \<Rightarrow> string list" where
  "split_space s =
     (case dropWhile is_space s of
        [] \<Rightarrow> []
      | c # cs \<Rightarrow> takeWhile (\<lambda>x. \<not> is_space x) (c # cs) # split_space (dropWhile (\<lambda>x. \<not> is_space x) (c # cs)))"
  by auto
termination
proof (relation "measure length")
  fix s c cs
  assume d: "dropWhile is_space s = c # cs"
  then have c: "\<not> is_space c" by (metis hd_dropWhile list.sel(1) list.distinct(1))
  have "length (c # cs) \<le> length s" by (metis d length_dropWhile_le)
  then show "(dropWhile (\<lambda>x. \<not> is_space x) (c # cs), s) \<in> measure length"
    using c length_dropWhile_le [of "\<lambda>x. \<not> is_space x" cs] by simp
qed simp

definition split_csv_or_space :: "string \<Rightarrow> string list" where
  "split_csv_or_space value =
     (if CHR '','' \<in> set value then split_csv value
      else filter (\<lambda>p. p \<noteq> []) (map strip (split_space value)))"

fun validate_unique_from :: "string set \<Rightarrow> string list \<Rightarrow> bool" where
  "validate_unique_from seen [] = True"
| "validate_unique_from seen (v # vs) = (v \<notin> seen \<and> validate_unique_from (insert v seen) vs)"

definition validate_unique :: "string list \<Rightarrow> string \<Rightarrow> string option" where
  "validate_unique values label =
     (if validate_unique_from {} values then None else Some (label @ '' contains duplicates''))"

definition upper_char :: "char \<Rightarrow> char" where
  "upper_char c = (let n = (of_char c :: nat) in if 97 \<le> n \<and> n \<le> 122 then char_of (n - 32) else c)"

definition provider_env_suffix :: "string \<Rightarrow> string" where
  "provider_env_suffix provider_id =
     map upper_char (map (\<lambda>c. if c = CHR ''-'' then CHR ''_'' else c) provider_id)"

definition required :: "environ \<Rightarrow> string \<Rightarrow> string + string" where
  "required env key =
     (case env key of
        None \<Rightarrow> Inl (key @ '' is required'')
      | Some v \<Rightarrow> if strip v = [] then Inl (key @ '' is required'') else Inr v)"

definition read_bool :: "string \<Rightarrow> string + bool" where
  "read_bool value =
     (let normalized = lower (strip value) in
      if normalized \<in> {''true'', ''1'', ''yes''} then Inr True
      else if normalized \<in> {''false'', ''0'', ''no''} then Inr False
      else Inl ''boolean value must be true or false'')"

text \<open>\<open>int(s)\<close>: an optional sign and decimal digits, single underscores between digits.\<close>

fun digits_value :: "int \<Rightarrow> bool \<Rightarrow> string \<Rightarrow> int option" where
  "digits_value acc after_digit [] = (if after_digit then Some acc else None)"
| "digits_value acc after_digit (c # cs) =
     (if ascii_digit c then digits_value (acc * 10 + (int (of_char c) - 48)) True cs
      else if c = CHR ''_'' \<and> after_digit then digits_value acc False cs
      else None)"

definition py_int :: "string \<Rightarrow> int option" where
  "py_int s =
     (case strip s of
        [] \<Rightarrow> None
      | c # cs \<Rightarrow>
          if c = CHR ''-'' then map_option uminus (digits_value 0 False cs)
          else if c = CHR ''+'' then digits_value 0 False cs
          else digits_value 0 False (c # cs))"

definition read_int :: "environ \<Rightarrow> string \<Rightarrow> int \<Rightarrow> string + int" where
  "read_int env key fallback =
     (case env key of
        None \<Rightarrow> Inr fallback
      | Some raw_value \<Rightarrow>
          if raw_value = [] then Inr fallback
          else (case py_int raw_value of None \<Rightarrow> Inl ''invalid literal for int()'' | Some n \<Rightarrow> Inr n))"

definition read_auto_provision :: "string \<Rightarrow> string \<Rightarrow> string + auto_provision_mode" where
  "read_auto_provision value key =
     (if value = ''enabled'' then Inr Provision_enabled
      else if value = ''link-only'' then Inr Link_only
      else Inl (key @ '' must be one of: enabled, link-only''))"

definition read_link_mode :: "string \<Rightarrow> string \<Rightarrow> string + link_mode" where
  "read_link_mode value key =
     (if value = ''auto'' then Inr Link_auto
      else if value = ''manual'' then Inr Link_manual
      else if value = ''disabled'' then Inr Link_disabled
      else Inl (key @ '' must be one of: auto, disabled, manual''))"

definition empty_to_none :: "string option \<Rightarrow> string option" where
  "empty_to_none value = (case value of None \<Rightarrow> None | Some v \<Rightarrow> if v = [] then None else Some v)"

text \<open>Sequencing of sums, for the readers that may raise.\<close>

definition sum_bind :: "'e + 'a \<Rightarrow> ('a \<Rightarrow> 'e + 'b) \<Rightarrow> 'e + 'b" where
  "sum_bind r f = (case r of Inl e \<Rightarrow> Inl e | Inr x \<Rightarrow> f x)"

definition read_provider :: "environ \<Rightarrow> string \<Rightarrow> string + oidc_provider" where
  "read_provider env provider_id =
     (if \<not> provider_id_pattern provider_id
      then Inl ''AUTH_OIDC_ENABLED_PROVIDERS must contain lowercase provider ids''
      else
        let prefix = ''AUTH_OIDC_PROVIDER_'' @ provider_env_suffix provider_id;
            callback_path = env_get env (prefix @ ''_CALLBACK_PATH'') (''/api/auth/oidc/'' @ provider_id @ ''/callback'')
        in sum_bind (required env (prefix @ ''_DISPLAY_NAME'')) (\<lambda>display_name.
           sum_bind (required env (prefix @ ''_ISSUER'')) (\<lambda>issuer.
           sum_bind (required env (prefix @ ''_CLIENT_ID'')) (\<lambda>client_id.
           sum_bind (required env (prefix @ ''_CLIENT_SECRET'')) (\<lambda>client_secret.
           sum_bind (read_bool (env_get env (prefix @ ''_TRUST_VERIFIED_EMAIL'') ''false'')) (\<lambda>trust.
           sum_bind (read_auto_provision (env_get env (prefix @ ''_AUTO_PROVISION'') ''link-only'')
                       (prefix @ ''_AUTO_PROVISION'')) (\<lambda>auto.
           sum_bind (read_link_mode (env_get env (prefix @ ''_LINK_MODE'') ''manual'') (prefix @ ''_LINK_MODE'')) (\<lambda>mode.
             mk_oidc_provider \<lparr>
               op_provider_id = provider_id, op_display_name = display_name, op_issuer = issuer,
               op_client_id = client_id, op_client_secret = client_secret,
               op_scope = split_csv_or_space (env_get env (prefix @ ''_SCOPE'') ''openid email profile''),
               op_trust_verified_email = trust, op_auto_provision = auto, op_link_mode = mode,
               op_callback_path = callback_path,
               op_claims_allowlist = split_csv (env_get env (prefix @ ''_CLAIMS_ALLOWLIST'') '''')\<rparr>))))))))"

fun read_providers :: "environ \<Rightarrow> string list \<Rightarrow> string + oidc_provider list" where
  "read_providers env [] = Inr []"
| "read_providers env (i # is) =
     sum_bind (read_provider env i) (\<lambda>p. sum_bind (read_providers env is) (\<lambda>ps. Inr (p # ps)))"

definition get_oidc_settings :: "environ \<Rightarrow> string + oidc_settings" where
  "get_oidc_settings env =
     (let provider_ids = split_csv (env_get env ''AUTH_OIDC_ENABLED_PROVIDERS'' '''') in
      case validate_unique provider_ids ''AUTH_OIDC_ENABLED_PROVIDERS'' of
        Some e \<Rightarrow> Inl e
      | None \<Rightarrow>
      case validate_unique (map provider_env_suffix provider_ids) ''AUTH_OIDC_ENABLED_PROVIDERS env suffix'' of
        Some e \<Rightarrow> Inl e
      | None \<Rightarrow>
          sum_bind (read_providers env provider_ids) (\<lambda>providers.
          sum_bind (read_int env ''AUTH_OIDC_REAUTH_FRESHNESS_SECONDS'' 300) (\<lambda>freshness.
          sum_bind (read_int env ''AUTH_OIDC_AUTHORIZATION_STARTS_PER_IP'' 20) (\<lambda>starts.
          sum_bind (read_int env ''AUTH_OIDC_STATE_TTL_SECONDS'' 300) (\<lambda>ttl.
            mk_oidc_settings \<lparr>os_providers = providers,
              AUTH_OIDC_REDIRECT_BASE_URL = empty_to_none (env ''AUTH_OIDC_REDIRECT_BASE_URL''),
              AUTH_OIDC_REAUTH_FRESHNESS_SECONDS = freshness,
              AUTH_OIDC_AUTHORIZATION_STARTS_PER_IP = starts,
              AUTH_OIDC_STATE_TTL_SECONDS = ttl,
              AUTH_OIDC_AUTH_TIME_FUTURE_LEEWAY_SECONDS = 60\<rparr>)))))"

subsection \<open>Lemmas\<close>

lemma map_sum_Inr: "map_sum f g s = Inr y \<longleftrightarrow> (\<exists>x. s = Inr x \<and> g x = y)"
  by (cases s) auto

lemma sum_bind_Inr: "sum_bind r f = Inr y \<longleftrightarrow> (\<exists>x. r = Inr x \<and> f x = Inr y)"
  by (cases r) (auto simp: sum_bind_def)

lemma first_error_None: "first_error es = None \<longleftrightarrow> (\<forall>e \<in> set es. e = None)"
  by (auto simp: first_error_def map_filter_id_Nil [symmetric] split: list.splits)

lemma validate_unique_distinct: "validate_unique_from seen vs \<longleftrightarrow> distinct vs \<and> set vs \<inter> seen = {}"
  by (induction seen vs rule: validate_unique_from.induct) auto

lemma mk_oidc_provider_Inr:
  assumes "mk_oidc_provider p = Inr q"
  shows "op_provider_id q = op_provider_id p" "provider_id_pattern (op_provider_id q)"
    "startswith (op_callback_path q) ''/''"
  using assms
  by (auto simp: mk_oidc_provider_def first_error_None validate_callback_path_def
      split: option.splits if_splits)

lemma read_provider_Inr:
  assumes "read_provider env i = Inr p"
  shows "op_provider_id p = i" "provider_id_pattern (op_provider_id p)" "startswith (op_callback_path p) ''/''"
  using assms
  by (auto simp: read_provider_def Let_def sum_bind_Inr dest: mk_oidc_provider_Inr split: if_splits)

lemma read_providers_Inr:
  "read_providers env is = Inr ps \<Longrightarrow> map op_provider_id ps = is
     \<and> (\<forall>p \<in> set ps. provider_id_pattern (op_provider_id p))
     \<and> (\<forall>p \<in> set ps. startswith (op_callback_path p) ''/'')"
  by (induction "is" arbitrary: ps) (auto simp: sum_bind_Inr dest: read_provider_Inr)

lemma mk_oidc_settings_Inr:
  assumes "mk_oidc_settings s = Inr t"
  shows "os_providers t = os_providers s" "1 \<le> AUTH_OIDC_REAUTH_FRESHNESS_SECONDS t"
    "1 \<le> AUTH_OIDC_STATE_TTL_SECONDS t" "1 \<le> AUTH_OIDC_AUTHORIZATION_STARTS_PER_IP t"
    "os_providers t = [] \<or> AUTH_OIDC_REDIRECT_BASE_URL t \<noteq> None"
  using assms
  by (auto simp: mk_oidc_settings_def first_error_None split: sum.splits option.splits if_splits)

text \<open>
  Settings read from the environment are consistent. Provider ids are distinct and match
  the provider pattern, so a provider is found by its id exactly; callbacks are absolute paths;
  the lifetimes are positive; and enabled providers come with a redirect base URL.
\<close>

theorem oidc_settings_consistent:
  assumes "get_oidc_settings env = Inr s"
  shows "distinct (map op_provider_id (os_providers s))
         \<and> (\<forall>p \<in> set (os_providers s). provider_id_pattern (op_provider_id p)
              \<and> startswith (op_callback_path p) ''/'' \<and> get_provider s (op_provider_id p) = Some p)
         \<and> 1 \<le> AUTH_OIDC_STATE_TTL_SECONDS s \<and> 1 \<le> AUTH_OIDC_REAUTH_FRESHNESS_SECONDS s
         \<and> (os_providers s = [] \<or> AUTH_OIDC_REDIRECT_BASE_URL s \<noteq> None)"
proof -
  let ?ids = "split_csv (env_get env ''AUTH_OIDC_ENABLED_PROVIDERS'' '''')"
  obtain ps fr st ttl where ps: "read_providers env ?ids = Inr ps" and d: "distinct ?ids"
    and mk: "mk_oidc_settings \<lparr>os_providers = ps,
      AUTH_OIDC_REDIRECT_BASE_URL = empty_to_none (env ''AUTH_OIDC_REDIRECT_BASE_URL''),
      AUTH_OIDC_REAUTH_FRESHNESS_SECONDS = fr, AUTH_OIDC_AUTHORIZATION_STARTS_PER_IP = st,
      AUTH_OIDC_STATE_TTL_SECONDS = ttl, AUTH_OIDC_AUTH_TIME_FUTURE_LEEWAY_SECONDS = 60\<rparr> = Inr s"
    using assms
    by (auto simp: get_oidc_settings_def Let_def sum_bind_Inr validate_unique_def validate_unique_distinct
        split: option.splits if_splits)
  note read = read_providers_Inr [OF ps]
  have prov: "os_providers s = ps" using mk_oidc_settings_Inr(1) [OF mk] by simp
  with read d have ids: "distinct (map op_provider_id (os_providers s))" by simp
  have "get_provider s (op_provider_id p) = Some p" if "p \<in> set (os_providers s)" for p
  proof -
    have "List.find (\<lambda>x. op_provider_id x = op_provider_id p) (os_providers s) \<noteq> None"
      using that unfolding find_None_iff by blast
    then obtain q where q: "List.find (\<lambda>x. op_provider_id x = op_provider_id p) (os_providers s) = Some q"
      by blast
    then have "q \<in> set (os_providers s)" "op_provider_id q = op_provider_id p"
      by (auto simp: find_Some_iff)
    with that ids have "q = p" by (meson distinct_map inj_onD)
    with q show ?thesis by (simp add: get_provider_def)
  qed
  moreover have "provider_id_pattern (op_provider_id p)" "startswith (op_callback_path p) ''/''"
    if "p \<in> set (os_providers s)" for p
    using that read prov by auto
  ultimately show ?thesis using ids mk_oidc_settings_Inr [OF mk] by blast
qed

definition demo_environ :: environ where
  "demo_environ = map_of [(''AUTH_OIDC_ENABLED_PROVIDERS'', ''idp''),
     (''AUTH_OIDC_PROVIDER_IDP_DISPLAY_NAME'', ''IdP''),
     (''AUTH_OIDC_PROVIDER_IDP_ISSUER'', ''https://idp.example/''),
     (''AUTH_OIDC_PROVIDER_IDP_CLIENT_ID'', ''c''),
     (''AUTH_OIDC_PROVIDER_IDP_CLIENT_SECRET'', ''s''),
     (''AUTH_OIDC_REDIRECT_BASE_URL'', ''https://app.example'')]"

lemma oidc_settings_consistent_witness:
  "\<exists>s. get_oidc_settings demo_environ = Inr s \<and> map op_provider_id (os_providers s) = [''idp'']
       \<and> distinct (map op_provider_id (os_providers s)) \<and> 1 \<le> AUTH_OIDC_STATE_TTL_SECONDS s"
proof -
  have "case get_oidc_settings demo_environ of Inl e \<Rightarrow> False
      | Inr s \<Rightarrow> map op_provider_id (os_providers s) = [''idp'']" by code_simp
  then obtain s where s: "get_oidc_settings demo_environ = Inr s"
    "map op_provider_id (os_providers s) = [''idp'']" by (auto split: sum.splits)
  with oidc_settings_consistent [OF s(1)] show ?thesis by auto
qed

end
