(* ===== verification/Authorization_Catalog.thy ===== *)
theory Authorization_Catalog
  imports Auth_Settings
begin

text \<open>
  \<^verbatim>\<open>app/config/authorization.py\<close> and the value classes of \<^verbatim>\<open>app/models/authorization.py\<close>: the
  catalog of roles and permissions, its consistency check, and the permissions a list of role
  codes stands for. A \<open>dict\<close> by code is an association list in insertion order; a
  \<open>frozenset\<close> is a set. The functions that the source gives a default catalog are defined
  over an arbitrary one (suffix \<open>_in\<close> where the source has no such parameter) and then at the
  default.
\<close>

record role_definition =
  rd_code :: string
  rd_display_name :: string
  rd_description :: "string option"
  rd_permission_codes :: "string list"

record permission_definition =
  pd_code :: string
  pd_display_name :: string
  pd_description :: "string option"

record user_authorization =
  ua_user_id :: uuid
  ua_roles :: "string set"
  ua_permissions :: "string set"

record role_with_permissions =
  rp_code :: string
  rp_display_name :: string
  rp_description :: "string option"
  rp_permissions :: "string list"

definition DEFAULT_AUTHORIZATION_PERMISSIONS :: "permission_definition list" where
  "DEFAULT_AUTHORIZATION_PERMISSIONS = [\<lparr>pd_code = ''admin:access'', pd_display_name = ''Admin access'',
     pd_description = Some ''Access administrative endpoints.''\<rparr>]"

definition DEFAULT_AUTHORIZATION_DEFINITIONS :: "role_definition list" where
  "DEFAULT_AUTHORIZATION_DEFINITIONS = [\<lparr>rd_code = ''admin'', rd_display_name = ''Admin'',
     rd_description = Some ''Full administrative access for this template.'',
     rd_permission_codes = [''admin:access'']\<rparr>]"

subsection \<open>Catalogs\<close>

text \<open>\<open>{key(x): x for x in xs}\<close>\<close>

definition dict_by :: "('a \<Rightarrow> string) \<Rightarrow> 'a list \<Rightarrow> (string \<times> 'a) list" where
  "dict_by key xs = fold (\<lambda>x. AList.update (key x) x) xs []"

definition permission_catalog_by_code :: "permission_definition list \<Rightarrow> (string \<times> permission_definition) list" where
  "permission_catalog_by_code permissions = dict_by pd_code permissions"

definition role_catalog_by_code :: "role_definition list \<Rightarrow> (string \<times> role_definition) list" where
  "role_catalog_by_code roles = dict_by rd_code roles"

abbreviation default_role_catalog :: "(string \<times> role_definition) list" where
  "default_role_catalog \<equiv> role_catalog_by_code DEFAULT_AUTHORIZATION_DEFINITIONS"

definition sorted_codes :: "(string \<Rightarrow> bool) \<Rightarrow> string list \<Rightarrow> string list" where
  "sorted_codes P codes = sorted_strings (set (filter P codes))"

definition authorization_config_errors :: "permission_definition list \<Rightarrow> role_definition list \<Rightarrow> string list" where
  "authorization_config_errors permissions roles =
     (let permission_counts = map pd_code permissions;
          role_counts = map rd_code roles;
          duplicate_permissions = sorted_codes (\<lambda>c. count_list permission_counts c > 1) permission_counts;
          duplicate_roles = sorted_codes (\<lambda>c. count_list role_counts c > 1) role_counts;
          empty_permissions = sorted_codes (\<lambda>c. c = []) permission_counts;
          empty_roles = sorted_codes (\<lambda>c. c = []) role_counts;
          oversized_permissions = sorted_codes (\<lambda>c. c \<noteq> [] \<and> length c > 120) permission_counts;
          oversized_roles = sorted_codes (\<lambda>c. c \<noteq> [] \<and> length c > 64) role_counts
      in (if duplicate_permissions \<noteq> []
          then [''Duplicate permission codes: '' @ join '', '' duplicate_permissions] else [])
       @ (if duplicate_roles \<noteq> [] then [''Duplicate role codes: '' @ join '', '' duplicate_roles] else [])
       @ (if permissions = [] then [''Permission catalog must not be empty.''] else [])
       @ (if roles = [] then [''Role catalog must not be empty.''] else [])
       @ (if empty_permissions \<noteq> [] then [''Permission code must not be empty.''] else [])
       @ (if empty_roles \<noteq> [] then [''Role code must not be empty.''] else [])
       @ map (\<lambda>code. ''Permission code exceeds 120 characters: '' @ code) oversized_permissions
       @ map (\<lambda>code. ''Role code exceeds 64 characters: '' @ code) oversized_roles
       @ concat (map (\<lambda>role.
           let missing_permissions = sorted_codes (\<lambda>c. c \<notin> set permission_counts) (rd_permission_codes role) in
           if missing_permissions \<noteq> []
           then [''Role '' @ rd_code role @ '' references unknown permissions: '' @ join '', '' missing_permissions]
           else []) roles))"

subsection \<open>From role codes to permissions\<close>

definition unknown_role_codes_in :: "role_definition list \<Rightarrow> string list \<Rightarrow> string set" where
  "unknown_role_codes_in defs role_codes =
     set (filter (\<lambda>c. map_of (role_catalog_by_code defs) c = None) role_codes)"

fun permissions_update :: "(string \<times> role_definition) list \<Rightarrow> string list \<Rightarrow> string set \<Rightarrow> string set" where
  "permissions_update roles [] permissions = permissions"
| "permissions_update roles (role_code # role_codes) permissions =
     (case map_of roles role_code of
        None \<Rightarrow> permissions_update roles role_codes permissions
      | Some role \<Rightarrow> permissions_update roles role_codes (permissions \<union> set (rd_permission_codes role)))"

definition permissions_for_role_codes_in :: "role_definition list \<Rightarrow> string list \<Rightarrow> string set" where
  "permissions_for_role_codes_in defs role_codes = permissions_update (role_catalog_by_code defs) role_codes {}"

definition user_authorization_from_role_codes_in ::
    "role_definition list \<Rightarrow> uuid \<Rightarrow> string list \<Rightarrow> user_authorization" where
  "user_authorization_from_role_codes_in defs user_id role_codes =
     (let normalized_role_codes = fromkeys role_codes;
          known_role_codes = filter (\<lambda>c. map_of (role_catalog_by_code defs) c \<noteq> None) normalized_role_codes
      in \<lparr>ua_user_id = user_id, ua_roles = set known_role_codes,
          ua_permissions = permissions_for_role_codes_in defs known_role_codes\<rparr>)"

text \<open>The second component is the warning that is logged, with its arguments.\<close>

definition resolve_user_authorization_in ::
    "role_definition list \<Rightarrow> uuid \<Rightarrow> string list \<Rightarrow> user_authorization \<times> (uuid \<times> string list) option" where
  "resolve_user_authorization_in defs user_id role_codes =
     (let normalized_role_codes = fromkeys role_codes;
          unknown_codes = unknown_role_codes_in defs normalized_role_codes
      in (user_authorization_from_role_codes_in defs user_id normalized_role_codes,
          if unknown_codes \<noteq> {} then Some (user_id, sorted_strings unknown_codes) else None))"

abbreviation resolve_user_authorization :: "uuid \<Rightarrow> string list \<Rightarrow> user_authorization \<times> (uuid \<times> string list) option" where
  "resolve_user_authorization \<equiv> resolve_user_authorization_in DEFAULT_AUTHORIZATION_DEFINITIONS"

definition roles_with_permissions_in :: "role_definition list \<Rightarrow> role_with_permissions list" where
  "roles_with_permissions_in defs =
     map (\<lambda>role. \<lparr>rp_code = rd_code role, rp_display_name = rd_display_name role,
                  rp_description = rd_description role,
                  rp_permissions = sort (fromkeys (rd_permission_codes role))\<rparr>)
       (sort_key rd_code defs)"

subsection \<open>Lemmas\<close>

lemma map_of_fold_update:
  "map_of (fold (\<lambda>x. AList.update (key x) x) xs al) k =
     (case map_of (rev (map (\<lambda>x. (key x, x)) xs)) k of None \<Rightarrow> map_of al k | Some v \<Rightarrow> Some v)"
proof (induction xs arbitrary: al)
  case (Cons x xs)
  have "map_of (fold (\<lambda>x. AList.update (key x) x) (x # xs) al) k =
    (case map_of (rev (map (\<lambda>x. (key x, x)) xs)) k of
       None \<Rightarrow> ((map_of al)(key x \<mapsto> x)) k | Some v \<Rightarrow> Some v)"
    by (simp add: Cons.IH update_conv' split: option.splits)
  then show ?case by (auto simp: map_add_def split: option.splits)
qed simp

lemma dict_by_Some: "map_of (dict_by key xs) k = Some x \<Longrightarrow> x \<in> set xs \<and> key x = k"
  by (auto simp: dict_by_def map_of_fold_update split: option.splits dest: map_of_SomeD)

lemma dict_by_None_iff: "map_of (dict_by key xs) k = None \<longleftrightarrow> k \<notin> key ` set xs"
proof -
  have "map_of (dict_by key xs) k = None \<longleftrightarrow> map_of (rev (map (\<lambda>x. (key x, x)) xs)) k = None"
    by (simp add: dict_by_def map_of_fold_update split: option.splits)
  also have "\<dots> \<longleftrightarrow> k \<notin> fst ` (\<lambda>x. (key x, x)) ` set xs" by (simp add: map_of_eq_None_iff)
  finally show ?thesis by (simp add: image_image)
qed

lemma dict_by_distinct:
  assumes "distinct (map key xs)" "x \<in> set xs"
  shows "map_of (dict_by key xs) (key x) = Some x"
proof -
  from assms have "map_of (dict_by key xs) (key x) \<noteq> None" by (auto simp: dict_by_None_iff)
  then obtain y where y: "map_of (dict_by key xs) (key x) = Some y" by blast
  from dict_by_Some [OF this] assms have "y = x" by (meson distinct_map inj_onD)
  with y show ?thesis by simp
qed

lemma sorted_codes_Nil [simp]: "sorted_codes P codes = [] \<longleftrightarrow> (\<forall>c \<in> set codes. \<not> P c)"
  by (auto simp: sorted_codes_def filter_empty_conv)

lemma permissions_update_iff:
  "p \<in> permissions_update roles codes acc \<longleftrightarrow>
     p \<in> acc \<or> (\<exists>c \<in> set codes. \<exists>role. map_of roles c = Some role \<and> p \<in> set (rd_permission_codes role))"
  by (induction roles codes acc rule: permissions_update.induct) (auto split: option.splits)

lemma permissions_in_iff:
  "p \<in> permissions_for_role_codes_in defs codes \<longleftrightarrow>
     (\<exists>c \<in> set codes. \<exists>role. map_of (role_catalog_by_code defs) c = Some role \<and> p \<in> set (rd_permission_codes role))"
  by (simp add: permissions_for_role_codes_in_def permissions_update_iff)

lemma resolve_roles:
  "ua_roles (fst (resolve_user_authorization_in defs uid codes)) = set codes \<inter> rd_code ` set defs"
  by (auto simp: resolve_user_authorization_in_def user_authorization_from_role_codes_in_def Let_def
      role_catalog_by_code_def dict_by_None_iff)

lemma resolve_permissions:
  "p \<in> ua_permissions (fst (resolve_user_authorization_in defs uid codes)) \<longleftrightarrow>
     (\<exists>c \<in> set codes. \<exists>role. map_of (role_catalog_by_code defs) c = Some role \<and> p \<in> set (rd_permission_codes role))"
  by (auto simp: resolve_user_authorization_in_def user_authorization_from_role_codes_in_def Let_def
      permissions_in_iff)

lemma resolve_user [simp]: "ua_user_id (fst (resolve_user_authorization_in defs uid codes)) = uid"
  by (simp add: resolve_user_authorization_in_def user_authorization_from_role_codes_in_def Let_def)

lemma if_Nil_iff: "(if b then [x] else []) = [] \<longleftrightarrow> \<not> b"
  by simp

lemma count_le_one_distinct: "(\<forall>c \<in> set xs. \<not> count_list xs c > 1) \<longleftrightarrow> distinct xs"
proof (induction xs)
  case (Cons x xs)
  have "count_list xs x = 0 \<longleftrightarrow> x \<notin> set xs" by (simp add: count_list_0_iff)
  then show ?case using Cons by auto
qed simp

text \<open>
  The catalog check is sound and complete. It reports no error exactly when both
  catalogs are non-empty, all codes are distinct, non-empty and within the column widths, and
  every role refers to permissions of the catalog only.
\<close>

theorem config_errors_iff:
  "authorization_config_errors permissions roles = [] \<longleftrightarrow>
     permissions \<noteq> [] \<and> roles \<noteq> [] \<and> distinct (map pd_code permissions) \<and> distinct (map rd_code roles)
     \<and> (\<forall>c \<in> set (map pd_code permissions). c \<noteq> [] \<and> length c \<le> 120)
     \<and> (\<forall>c \<in> set (map rd_code roles). c \<noteq> [] \<and> length c \<le> 64)
     \<and> (\<forall>r \<in> set roles. \<forall>c \<in> set (rd_permission_codes r). c \<in> set (map pd_code permissions))"
  unfolding authorization_config_errors_def Let_def count_le_one_distinct [symmetric]
    append_is_Nil_conv map_is_Nil_conv sorted_codes_Nil concat_eq_Nil_conv if_Nil_iff set_map
    Ball_image_comp comp_def not_not not_less
  by (simp add: not_less) blast

lemma config_errors_iff_witness:
  "distinct (map rd_code DEFAULT_AUTHORIZATION_DEFINITIONS)"
proof -
  have "authorization_config_errors DEFAULT_AUTHORIZATION_PERMISSIONS DEFAULT_AUTHORIZATION_DEFINITIONS = []"
    by code_simp
  then show ?thesis using config_errors_iff by blast
qed

text \<open>
  Role codes outside the catalog grant nothing and are reported. The resolved roles are
  the assigned ones that the catalog knows, a permission is held exactly when one of them
  carries it, and a warning naming the unknown codes in order is logged exactly when there
  are any.
\<close>

theorem resolve_grants_catalog_only:
  "ua_roles (fst (resolve_user_authorization_in defs uid codes)) = set codes \<inter> rd_code ` set defs
   \<and> (distinct (map rd_code defs) \<longrightarrow>
        ua_permissions (fst (resolve_user_authorization_in defs uid codes)) =
        \<Union> ((\<lambda>r. set (rd_permission_codes r)) ` {r \<in> set defs. rd_code r \<in> set codes}))
   \<and> snd (resolve_user_authorization_in defs uid codes) =
       (if set codes \<subseteq> rd_code ` set defs then None
        else Some (uid, sorted_strings (set codes - rd_code ` set defs)))"
proof (intro conjI impI)
  assume d: "distinct (map rd_code defs)"
  show "ua_permissions (fst (resolve_user_authorization_in defs uid codes)) =
      \<Union> ((\<lambda>r. set (rd_permission_codes r)) ` {r \<in> set defs. rd_code r \<in> set codes})"
  proof (rule set_eqI)
    fix p
    show "p \<in> ua_permissions (fst (resolve_user_authorization_in defs uid codes)) \<longleftrightarrow>
        p \<in> \<Union> ((\<lambda>r. set (rd_permission_codes r)) ` {r \<in> set defs. rd_code r \<in> set codes})"
      unfolding resolve_permissions role_catalog_by_code_def
      using dict_by_distinct [OF d] by (auto dest: dict_by_Some)
  qed
next
  have u: "unknown_role_codes_in defs (fromkeys codes) = set codes - rd_code ` set defs"
    by (auto simp: unknown_role_codes_in_def role_catalog_by_code_def dict_by_None_iff)
  show "snd (resolve_user_authorization_in defs uid codes) =
       (if set codes \<subseteq> rd_code ` set defs then None
        else Some (uid, sorted_strings (set codes - rd_code ` set defs)))"
    unfolding resolve_user_authorization_in_def Let_def u by auto
qed (rule resolve_roles)

lemma resolve_grants_catalog_only_witness:
  "ua_permissions (fst (resolve_user_authorization 7 [''ghost'', ''admin''])) = {''admin:access''}"
proof -
  have d: "distinct (map rd_code DEFAULT_AUTHORIZATION_DEFINITIONS)" by code_simp
  show ?thesis
    using resolve_grants_catalog_only [of DEFAULT_AUTHORIZATION_DEFINITIONS 7 "[''ghost'', ''admin'']"] d
    by (simp add: DEFAULT_AUTHORIZATION_DEFINITIONS_def)
qed

end
