(* ===== verification/Data_Model.thy ===== *)
theory Data_Model
  imports Rate_Limiter_Interface Oidc_Settings Authorization_Catalog
begin

text \<open>
  The rows of the database (\<^verbatim>\<open>app/models\<close>), the exceptions of the program, and the state of
  the running application.

  Every table class is a record with a prefix for its columns. The columns \<open>created_at\<close> and
  \<open>updated_at\<close>, which no code of the program reads, are left out. A \<open>JSONB\<close> value is a
  \<open>json\<close>, and the details of an audit event, always a \<open>dict\<close>, an association list. Instants are stored through \<open>UnixTimestampMillis\<close>, which keeps milliseconds.

  The state \<open>world\<close> holds the database, the rate limiter and the provider client (both of an
  abstract type), whether a transaction is open in the current context, the warnings logged,
  and the sources of the values that the program draws from outside: the successive readings of
  the clock, random tokens, UUIDs and password salts, and the answers to the attempts at an
  advisory lock, each a function of the number of values already drawn.
\<close>

subsection \<open>Values\<close>

datatype json =
    JNull
  | JBool bool
  | JInt int
  | JFloat rat
  | JStr string
  | JList "json list"
  | JObj "(string \<times> json) list"

text \<open>\<open>str(uuid)\<close>\<close>

definition hex_padded :: "nat \<Rightarrow> nat \<Rightarrow> string" where
  "hex_padded width n = (let s = show_num 16 (int n) in replicate (width - length s) (CHR ''0'') @ s)"

definition str_uuid :: "uuid \<Rightarrow> string" where
  "str_uuid u = (let s = hex_padded 32 u in
     take 8 s @ ''-'' @ take 4 (drop 8 s) @ ''-'' @ take 4 (drop 12 s) @ ''-'' @ take 4 (drop 16 s)
       @ ''-'' @ drop 20 s)"

definition str_uuid_option :: "uuid option \<Rightarrow> json" where
  "str_uuid_option u = (case u of None \<Rightarrow> JNull | Some v \<Rightarrow> JStr (str_uuid v))"

text \<open>
  \<open>datetime.isoformat()\<close> of an instant in UTC. The civil date of a day number is computed in
  the proleptic Gregorian calendar, with years that start in March.
\<close>

definition civil_from_days :: "int \<Rightarrow> int \<times> int \<times> int" where
  "civil_from_days days =
     (let z = days + 719468;
          era = z div 146097;
          doe = z mod 146097;
          yoe = (doe - doe div 1460 + doe div 36524 - doe div 146096) div 365;
          doy = doe - (365 * yoe + yoe div 4 - yoe div 100);
          mp = (5 * doy + 2) div 153;
          d = doy - (153 * mp + 2) div 5 + 1;
          m = (if mp < 10 then mp + 3 else mp - 9);
          y = yoe + era * 400 + (if m \<le> 2 then 1 else 0)
      in (y, m, d))"

definition dec_padded :: "nat \<Rightarrow> int \<Rightarrow> string" where
  "dec_padded width n = (let s = show_num 10 n in replicate (width - length s) (CHR ''0'') @ s)"

definition isoformat :: "datetime \<Rightarrow> string" where
  "isoformat t =
     (let us = t mod 1000000; secs = t div 1000000;
          (y, m, d) = civil_from_days (secs div 86400);
          sod = secs mod 86400
      in dec_padded 4 y @ ''-'' @ dec_padded 2 m @ ''-'' @ dec_padded 2 d @ ''T''
         @ dec_padded 2 (sod div 3600) @ '':'' @ dec_padded 2 (sod div 60 mod 60) @ '':''
         @ dec_padded 2 (sod mod 60)
         @ (if us = 0 then [] else ''.'' @ dec_padded 6 us) @ ''+00:00'')"

subsection \<open>UnixTimestampMillis\<close>

definition unix_ms_bind_param :: "datetime \<Rightarrow> int" where
  "unix_ms_bind_param v = v div 1000"

definition unix_ms_result_value :: "int \<Rightarrow> datetime" where
  "unix_ms_result_value v = v * 1000"

text \<open>What a stored instant reads as; a bound parameter is compared after the same rounding.\<close>

definition trunc_ms :: "datetime \<Rightarrow> datetime" where
  "trunc_ms v = unix_ms_result_value (unix_ms_bind_param v)"

subsection \<open>Languages and events\<close>

definition SUPPORTED_LANGUAGE_CODES :: "string list" where
  "SUPPORTED_LANGUAGE_CODES = [''en'', ''ja'']"

definition DEFAULT_LANGUAGE_CODE :: string where
  "DEFAULT_LANGUAGE_CODE = ''ja''"

definition is_supported_language_code :: "string \<Rightarrow> bool" where
  "is_supported_language_code v = (v \<in> set SUPPORTED_LANGUAGE_CODES)"

datatype auth_event_type =
    REGISTER_SUCCESS | REGISTER_FAILED | LOGIN_SUCCESS | LOGIN_FAILED | LOGOUT | SESSION_REJECTED
  | USER_MARKED_DELETED | ACCOUNT_DELETION_REAUTH_FAILED | SESSION_REVOKED_DELETED_USER
  | SESSION_REVOKED_INACTIVE_USER | OIDC_LOGIN_SUCCESS | OIDC_LOGIN_FAILED | OIDC_IDENTITY_LINKED
  | OIDC_USER_PROVISIONED | OIDC_REAUTH_SUCCESS | OIDC_REAUTH_FAILED | ROLE_GRANTED | ROLE_REVOKED
  | USER_CREATED_BY_ADMIN | USER_UPDATED_BY_ADMIN | USER_DELETED_BY_ADMIN

subsection \<open>Tables\<close>

record user =
  u_id :: uuid
  u_email :: string
  u_password_hash :: "string option"
  u_is_active :: bool
  u_language_code :: string
  u_registered_at :: datetime
  u_modified_at :: datetime
  u_last_logged_in_at :: "datetime option"
  u_deleted_at :: "datetime option"

record auth_session =
  s_id :: uuid
  s_user_id :: uuid
  s_session_token_hash :: string
  s_csrf_token_hash :: string
  s_issued_at :: datetime
  s_last_seen_at :: datetime
  s_expires_at :: datetime
  s_revoked_at :: "datetime option"
  s_last_oidc_authenticated_at :: "datetime option"
  s_ip_address :: "string option"
  s_user_agent :: "string option"

record auth_identity =
  i_id :: uuid
  i_user_id :: uuid
  i_provider_id :: string
  i_provider_subject :: string
  i_email :: "string option"
  i_is_email_verified :: bool
  i_claims_json :: json
  i_linked_at :: datetime
  i_last_logged_in_at :: "datetime option"

datatype oidc_purpose = Login | Account_deletion_reauth

record auth_oidc_state =
  o_id :: uuid
  o_state_hash :: string
  o_browser_binding_hash :: string
  o_nonce_hash :: string
  o_pkce_verifier :: string
  o_provider_id :: string
  o_purpose :: oidc_purpose
  o_expected_user_id :: "uuid option"
  o_expected_session_id :: "uuid option"
  o_redirect_path :: string
  o_login_hint :: "string option"
  o_language_code :: "string option"
  o_expires_at :: datetime
  o_consumed_at :: "datetime option"

record auth_audit_log =
  a_id :: uuid
  a_user_id :: "uuid option"
  a_session_id :: "uuid option"
  a_event_type :: auth_event_type
  a_ip_address :: "string option"
  a_user_agent :: "string option"
  a_detail_json :: "(string \<times> json) list option"
  a_occurred_at :: datetime

record user_role =
  r_id :: uuid
  r_user_id :: uuid
  r_role_code :: string
  r_assigned_at :: datetime
  r_assigned_by_user_id :: "uuid option"

record sample_item =
  m_id :: uuid
  m_owner_user_id :: uuid
  m_title :: string
  m_description :: "string option"
  m_is_completed :: bool
  m_registered_at :: datetime
  m_modified_at :: datetime

record database =
  users :: "user list"
  auth_sessions :: "auth_session list"
  auth_identities :: "auth_identity list"
  oidc_states :: "auth_oidc_state list"
  auth_audit_logs :: "auth_audit_log list"
  user_roles :: "user_role list"
  sample_items :: "sample_item list"

subsection \<open>Values passed between the layers\<close>

record session_context =
  cx_user :: user
  cx_session :: auth_session
  cx_roles :: "string set"
  cx_permissions :: "string set"

record issued_session =
  is_user :: user
  is_session :: auth_session
  is_session_token :: string
  is_csrf_token :: string
  is_roles :: "string set"
  is_permissions :: "string set"

datatype session_csrf_status = Csrf_valid | Csrf_mismatch | Csrf_no_session

datatype consume_status =
  Consumed | State_mismatch | Expired | Already_consumed | Browser_binding_mismatch

record role_replacement =
  rr_user_id :: uuid
  rr_granted_role_codes :: "string list"
  rr_revoked_role_codes :: "string list"
  rr_current_role_codes :: "string list"

record oidc_verified_claims =
  vc_provider_id :: string
  vc_issuer :: string
  vc_audience :: string
  vc_subject :: string
  vc_email :: "string option"
  vc_email_verified :: bool
  vc_issued_at :: datetime
  vc_expires_at :: datetime
  vc_auth_time :: "datetime option"
  vc_claims_json :: json

subsection \<open>Exceptions\<close>

datatype exn =
    EmailAlreadyRegisteredError
  | InvalidCredentialsError
  | RateLimitExceededError int
  | AccountDeletionConfirmationMismatchError
  | AccountDeletionReauthRequiredError
  | AccountDeletionInvalidPasswordError
  | AccountDeletionOidcReauthRequiredError "(string \<times> string) list"
  | WeakPasswordError string
  | UserNotFoundError uuid
  | AuthSessionNotFoundError uuid
  | RoleNotFoundError "string set"
  | AuthorizationUserNotFoundError uuid
  | OidcProviderNotConfiguredError string
  | OidcProviderUnavailableError
  | OidcProviderMetadataError
  | OidcStateMismatchError
  | OidcBrowserBindingMismatchError
  | OidcTokenExchangeError
  | OidcProviderAccessDeniedError
  | OidcClaimsValidationError
  | OidcEmailNotVerifiedError
  | OidcProvisioningDisabledError
  | OidcIdentityLinkRequiredError
  | OidcIdentityLinkDisabledError
  | OidcIdentityUnavailableError
  | OidcAuthorizationRateLimitedError
  | OidcReauthSubjectMismatchError
  | OidcReauthAuthenticationRequiredError
  | OidcReauthAuthTimeRequiredError
  | OidcReauthStaleError
  | OidcCallbackFlowError exn oidc_purpose string
  | SampleItemNotFoundError
  | InvalidSampleItemCursorError
  | IntegrityError
  | StaleDataError
  | StatementError
  | MultipleResultsFound
  | ValueError string
  | AttributeError
  | Exit int

subsection \<open>The application\<close>

datatype warning =
    Unknown_roles_ignored uuid "string list"
  | Touch_interval_exceeds_idle_ratio int int
  | Printed bool string

record ('l, 'c) world =
  w_db :: database
  w_lim :: 'l
  w_client :: 'c
  w_in_tx :: bool
  w_log :: "warning list"
  w_clock :: "nat \<Rightarrow> datetime"
  w_clock_n :: nat
  w_tokens :: "nat \<Rightarrow> string"
  w_token_n :: nat
  w_uuids :: "nat \<Rightarrow> uuid"
  w_uuid_n :: nat
  w_salt_n :: nat
  w_locks :: "nat \<Rightarrow> bool"
  w_lock_n :: nat

type_synonym ('l, 'c, 'a) prog = "(('l, 'c) world, exn, 'a) comp"

text \<open>
  The injected collaborators: settings, the digest of \<open>hashlib.sha256\<close> as a hexadecimal string,
  the password hashing of \<open>pwdlib\<close> (given a salt number), the PKCE code challenge, the rate
  limiter, and the OpenID Connect provider client of \<open>OidcProviderClientInterface\<close>.
\<close>

record 'c oidc_client_ops =
  build_authorization_url :: "string \<Rightarrow> string \<Rightarrow> string \<Rightarrow> string \<Rightarrow> string option \<Rightarrow> int option
      \<Rightarrow> string option \<Rightarrow> 'c \<Rightarrow> (exn + string) \<times> 'c"
  exchange_code :: "string \<Rightarrow> string \<Rightarrow> string \<Rightarrow> 'c \<Rightarrow> (exn + string) \<times> 'c"
  validate_id_token :: "string \<Rightarrow> string \<Rightarrow> string \<Rightarrow> bool \<Rightarrow> 'c \<Rightarrow> (exn + oidc_verified_claims) \<times> 'c"

record ('l, 'c) app =
  auth_settings_of :: auth_settings
  oidc_settings_of :: oidc_settings
  sha256_hex :: "string \<Rightarrow> string"
  hash_password_with :: "nat \<Rightarrow> string \<Rightarrow> string"
  verify_password :: "string \<Rightarrow> string \<Rightarrow> bool"
  s256_code_challenge :: "string \<Rightarrow> string"
  auth_rate_limiter :: "'l limiter_ops"
  oidc_provider_client :: "'c oidc_client_ops"

definition hash_token :: "('l, 'c) app \<Rightarrow> string \<Rightarrow> string" where
  "hash_token app raw_token = sha256_hex app raw_token"

subsection \<open>Lemmas\<close>

lemma trunc_ms_le: "trunc_ms v \<le> v"
  by (simp add: trunc_ms_def unix_ms_bind_param_def unix_ms_result_value_def mult.commute) 

lemma trunc_ms_close: "v < trunc_ms v + 1000"
  unfolding trunc_ms_def unix_ms_bind_param_def unix_ms_result_value_def by linarith

lemma trunc_ms_mono: "v \<le> w \<Longrightarrow> trunc_ms v \<le> trunc_ms w"
  by (simp add: trunc_ms_def unix_ms_bind_param_def unix_ms_result_value_def zdiv_mono1)

lemma trunc_ms_idem [simp]: "trunc_ms (trunc_ms v) = trunc_ms v"
  by (simp add: trunc_ms_def unix_ms_bind_param_def unix_ms_result_value_def)

lemma trunc_ms_seconds [simp]: "trunc_ms (v + seconds n) = trunc_ms v + seconds n"
proof -
  have "(v + 1000000 * n) div 1000 = v div 1000 + 1000 * n" by linarith
  then show ?thesis
    by (simp add: trunc_ms_def unix_ms_bind_param_def unix_ms_result_value_def algebra_simps)
qed

lemma unix_ms_roundtrip: "unix_ms_bind_param (unix_ms_result_value n) = n"
  by (simp add: unix_ms_bind_param_def unix_ms_result_value_def)

end
