(* ===== verification/Problem_Details.thy ===== *)
theory Problem_Details
  imports Data_Model
begin

text \<open>
  Error responses: the catalogue of problem types (\<^verbatim>\<open>app/models/problem_types.py\<close>) and the
  exception handlers that turn every exception of a request into an
  \<^verbatim>\<open>application/problem+json\<close> response (\<^verbatim>\<open>app/bootstrap/error_handlers.py\<close>).

  An exception that reaches the framework is an \<open>HTTPException\<close> made by \<open>api_error\<close> (status, code,
  message, headers, error items and extension members; no call of the program passes an extension
  named \<open>code\<close>, \<open>detail\<close> or \<open>errors\<close>), an \<open>HTTPException\<close> of the framework with a string, a failed
  validation of the request, or any other exception.
\<close>

record problem_type =
  pt_code :: string
  pt_type :: string
  pt_title :: string
  pt_status :: int

definition mk_problem_type :: "string \<Rightarrow> string \<Rightarrow> int \<Rightarrow> problem_type" where
  "mk_problem_type code title status =
     \<lparr>pt_code = code, pt_type = ''/problems/'' @ code, pt_title = title, pt_status = status\<rparr>"

definition PROBLEM_TYPES :: "(string \<times> problem_type) list" where
  "PROBLEM_TYPES = map (\<lambda>(code, title, status). (code, mk_problem_type code title status))
     [(''bad_request'', ''Bad request'', 400),
      (''unauthorized'', ''Unauthorized'', 401),
      (''forbidden'', ''Forbidden'', 403),
      (''permission_denied'', ''Permission denied'', 403),
      (''not_found'', ''Not found'', 404),
      (''method_not_allowed'', ''Method not allowed'', 405),
      (''not_acceptable'', ''Not acceptable'', 406),
      (''conflict'', ''Conflict'', 409),
      (''unsupported_media_type'', ''Unsupported media type'', 415),
      (''validation_error'', ''Validation error'', 422),
      (''rate_limited'', ''Rate limited'', 429),
      (''internal_server_error'', ''Internal server error'', 500),
      (''csrf_validation_failed'', ''CSRF validation failed'', 403),
      (''invalid_admin_user_query'', ''Invalid admin user query'', 422),
      (''email_already_registered'', ''Email already registered'', 409),
      (''weak_password'', ''Weak password'', 422),
      (''role_not_found'', ''Role not found'', 422),
      (''user_not_found'', ''User not found'', 404),
      (''sample_item_invalid_cursor'', ''Invalid sample item cursor'', 400),
      (''sample_item_not_found'', ''Sample item not found'', 404),
      (''account_deletion_confirmation_mismatch'', ''Account deletion confirmation mismatch'', 400),
      (''account_deletion_reauth_required'', ''Account deletion reauthentication required'', 400),
      (''account_deletion_invalid_password'', ''Account deletion invalid password'', 400),
      (''account_deletion_oidc_reauth_required'', ''Account deletion OIDC reauthentication required'', 400),
      (''account_deletion_reauth_rate_limited'', ''Account deletion reauthentication rate limited'', 429),
      (''invalid_credentials'', ''Invalid credentials'', 401),
      (''register_rate_limited'', ''Register rate limited'', 429),
      (''login_rate_limited'', ''Login rate limited'', 429)]"

definition STATUS_DEFAULT_CODES :: "(int \<times> string) list" where
  "STATUS_DEFAULT_CODES =
     [(400, ''bad_request''), (401, ''unauthorized''), (403, ''forbidden''), (404, ''not_found''),
      (405, ''method_not_allowed''), (406, ''not_acceptable''), (409, ''conflict''),
      (415, ''unsupported_media_type''), (422, ''validation_error''), (429, ''rate_limited''),
      (500, ''internal_server_error'')]"

definition normalize_problem_code :: "string \<Rightarrow> string" where
  "normalize_problem_code code = lower code"

text \<open>Every default code is in the catalogue, so the subscript never fails (lemma below).\<close>

definition problem_type_for_status :: "int \<Rightarrow> problem_type" where
  "problem_type_for_status status_code =
     (case Option.bind (map_of STATUS_DEFAULT_CODES status_code) (map_of PROBLEM_TYPES) of
        Some t \<Rightarrow> t
      | None \<Rightarrow> \<lparr>pt_code = ''http_error'', pt_type = ''/problems/http_error'', pt_title = ''HTTP error'', pt_status = status_code\<rparr>)"

definition problem_type_for_code :: "string \<Rightarrow> int \<Rightarrow> problem_type" where
  "problem_type_for_code code fallback_status =
     (case map_of PROBLEM_TYPES (normalize_problem_code code) of
        Some t \<Rightarrow> t
      | None \<Rightarrow> problem_type_for_status fallback_status)"

subsection \<open>Responses\<close>

text \<open>A response: status, headers in order, cookies set, and the JSON content if any.\<close>

record response =
  rs_status :: int
  rs_headers :: "(string \<times> string) list"
  rs_cookies :: "set_cookie list"
  rs_body :: "json option"

record problem_error =
  pe_location :: "string option"
  pe_pointer :: "string option"
  pe_parameter :: "string option"
  pe_detail :: string
  pe_code :: "string option"

definition json_member :: "string \<Rightarrow> string option \<Rightarrow> (string \<times> json) list" where
  "json_member key v = (case v of None \<Rightarrow> [] | Some s \<Rightarrow> [(key, JStr s)])"

text \<open>\<open>model_dump(mode="json", exclude_none=True)\<close> of an error item.\<close>

definition dump_error :: "problem_error \<Rightarrow> json" where
  "dump_error e = JObj (json_member ''location'' (pe_location e) @ json_member ''pointer'' (pe_pointer e)
     @ json_member ''parameter'' (pe_parameter e) @ [(''detail'', JStr (pe_detail e))] @ json_member ''code'' (pe_code e))"

definition RESERVED_PROBLEM_DETAILS_MEMBERS :: "string list" where
  "RESERVED_PROBLEM_DETAILS_MEMBERS = [''type'', ''title'', ''status'', ''detail'', ''instance'', ''code'', ''errors'']"

definition safe_problem_extensions :: "(string \<times> json) list \<Rightarrow> (string \<times> json) list" where
  "safe_problem_extensions extensions =
     filter (\<lambda>(key, _). key \<notin> set RESERVED_PROBLEM_DETAILS_MEMBERS) extensions"

definition problem_response ::
    "int \<Rightarrow> string \<Rightarrow> string \<Rightarrow> problem_error list \<Rightarrow> (string \<times> json) list \<Rightarrow> string \<Rightarrow> (string \<times> string) list \<Rightarrow> response" where
  "problem_response status_code code detail errors extensions request_path headers =
     (let response_headers = (if status_code = 401 \<and> map_of headers ''Cache-Control'' = None
            then headers @ [(''Cache-Control'', ''no-store'')] else headers);
          problem_type = problem_type_for_code code status_code
      in \<lparr>rs_status = status_code, rs_headers = response_headers, rs_cookies = [],
          rs_body = Some (JObj (
            [(''type'', JStr (pt_type problem_type)), (''title'', JStr (pt_title problem_type)),
             (''status'', JInt status_code), (''detail'', JStr detail), (''instance'', JStr request_path),
             (''code'', JStr (pt_code problem_type))]
            @ (if errors = [] then [] else [(''errors'', JList (map dump_error errors))])
            @ filter (\<lambda>(_, v). v \<noteq> JNull) (safe_problem_extensions extensions)))\<rparr>)"

subsection \<open>Exceptions of a request\<close>

datatype loc_part = Loc_str string | Loc_int int

record validation_error =
  ve_loc :: "loc_part list"
  ve_msg :: "string option"
  ve_type :: "string option"

datatype http_error =
    HTTPException int string string "(string \<times> string) list" "problem_error list" "(string \<times> json) list"
  | Framework_HTTPException int string "(string \<times> string) list"
  | RequestValidationError "validation_error list"
  | Unhandled exn

definition api_error :: "int \<Rightarrow> string \<Rightarrow> string \<Rightarrow> http_error" where
  "api_error status_code code message = HTTPException status_code code message [] [] []"

definition default_detail :: "int \<Rightarrow> string" where
  "default_detail status_code = (if status_code = 500 then ''Internal server error'' else ''HTTP error'')"

text \<open>\<open>str(part)\<close>\<close>

definition str_loc :: "loc_part \<Rightarrow> string" where
  "str_loc p = (case p of Loc_str s \<Rightarrow> s | Loc_int n \<Rightarrow> if n < 0 then ''-'' @ show_num 10 (- n) else show_num 10 n)"

definition replace_with :: "char \<Rightarrow> string \<Rightarrow> string \<Rightarrow> string" where
  "replace_with c r s = concat (map (\<lambda>x. if x = c then r else [x]) s)"

definition json_pointer :: "loc_part list \<Rightarrow> string" where
  "json_pointer parts =
     ''#/'' @ join ''/'' (map (\<lambda>p. replace_with (CHR ''/'') ''~1'' (replace_with (CHR ''~'') ''~0'' (str_loc p))) parts)"

definition validation_error_item :: "validation_error \<Rightarrow> problem_error" where
  "validation_error_item error =
     (let location = (case ve_loc error of [] \<Rightarrow> None | p # _ \<Rightarrow> Some (str_loc p));
          field_path = tl (ve_loc error)
      in \<lparr>pe_location = location,
          pe_pointer = (if location = Some ''body'' \<and> field_path \<noteq> [] then Some (json_pointer field_path) else None),
          pe_parameter = (if location \<in> {Some ''query'', Some ''path'', Some ''header'', Some ''cookie''} \<and> field_path \<noteq> []
                          then Some (str_loc (hd field_path)) else None),
          pe_detail = (case ve_msg error of None \<Rightarrow> ''Invalid input'' | Some m \<Rightarrow> m),
          pe_code = Some (case ve_type error of None \<Rightarrow> ''value_error'' | Some t \<Rightarrow> t)\<rparr>)"

definition unhandled_exception_handler :: "string \<Rightarrow> response" where
  "unhandled_exception_handler path = problem_response 500 ''internal_server_error'' ''Internal server error'' [] [] path []"

definition validation_exception_handler :: "string \<Rightarrow> validation_error list \<Rightarrow> response" where
  "validation_exception_handler path errors =
     problem_response 422 ''validation_error'' ''Request validation failed.'' (map validation_error_item errors) [] path []"

text \<open>\<open>_error_parts\<close>: empty codes and messages fall back to the status.\<close>

definition error_parts :: "http_error \<Rightarrow> int \<Rightarrow> string \<times> string \<times> problem_error list \<times> (string \<times> json) list" where
  "error_parts exc status_code =
     (case exc of
        HTTPException _ code message _ errors extensions \<Rightarrow>
          (if code = [] then pt_code (problem_type_for_status status_code) else code,
           if message = [] then default_detail status_code else message, errors, extensions)
      | Framework_HTTPException _ message _ \<Rightarrow> (pt_code (problem_type_for_status status_code), message, [], [])
      | _ \<Rightarrow> (pt_code (problem_type_for_status status_code), default_detail status_code, [], []))"

text \<open>The handler that is registered for the class of the exception.\<close>

definition http_exception_handler :: "string \<Rightarrow> http_error \<Rightarrow> response" where
  "http_exception_handler path exc =
     (case exc of
        HTTPException status _ _ headers _ _ \<Rightarrow>
          (case error_parts exc status of (code, message, errors, extensions) \<Rightarrow>
             problem_response status code message errors extensions path headers)
      | Framework_HTTPException status _ headers \<Rightarrow>
          (case error_parts exc status of (code, message, errors, extensions) \<Rightarrow>
             problem_response status code message errors extensions path headers)
      | RequestValidationError errors \<Rightarrow> validation_exception_handler path errors
      | Unhandled _ \<Rightarrow> unhandled_exception_handler path)"

end
