(* ===== verification/Database.thy ===== *)
theory Database
  imports Data_Model "HOL-Library.Product_Lexorder"
begin

text \<open>
  The primitives the repositories and use cases are written in: drawing from the clock, the
  random sources and the logger, the transactions of \<^verbatim>\<open>app/services/unit_of_work.py\<close>, and the
  statements on the tables with the constraints of \<^verbatim>\<open>app/models\<close> (the same as those of the
  migration \<^verbatim>\<open>alembic/versions/20260810_0001_initial_schema.py\<close>).

  A statement that violates a constraint raises \<open>IntegrityError\<close> and changes nothing.
  PostgreSQL checks foreign keys at the end of the statement. The address columns convert their
  parameter with \<open>InetString\<close>; SQLAlchemy wraps the \<open>ValueError\<close> of a malformed address in a
  \<open>StatementError\<close>. \<open>one_or_none\<close> raises \<open>MultipleResultsFound\<close> on two or more rows.

  \<open>db_ok\<close> is the conjunction of the constraints: primary keys, unique indexes, foreign
  keys and checks. The lemmas show that every statement keeps it, and that queries by a unique
  key never raise.
\<close>

subsection \<open>Sources of values\<close>

definition utcnow :: "('l, 'c, datetime) prog" where
  "utcnow = (\<lambda>s. (Inr (w_clock s (w_clock_n s)), s\<lparr>w_clock_n := Suc (w_clock_n s)\<rparr>))"

definition generate_token :: "('l, 'c, string) prog" where
  "generate_token = (\<lambda>s. (Inr (w_tokens s (w_token_n s)), s\<lparr>w_token_n := Suc (w_token_n s)\<rparr>))"

definition uuid4 :: "('l, 'c, uuid) prog" where
  "uuid4 = (\<lambda>s. (Inr (w_uuids s (w_uuid_n s)), s\<lparr>w_uuid_n := Suc (w_uuid_n s)\<rparr>))"

definition hash_password :: "('l, 'c) app \<Rightarrow> string \<Rightarrow> ('l, 'c, string) prog" where
  "hash_password app raw = (\<lambda>s. (Inr (hash_password_with app (w_salt_n s) raw), s\<lparr>w_salt_n := Suc (w_salt_n s)\<rparr>))"

definition try_advisory_lock :: "('l, 'c, bool) prog" where
  "try_advisory_lock = (\<lambda>s. (Inr (w_locks s (w_lock_n s)), s\<lparr>w_lock_n := Suc (w_lock_n s)\<rparr>))"

definition log_warning :: "warning \<Rightarrow> ('l, 'c, unit) prog" where
  "log_warning w = modify (\<lambda>s. s\<lparr>w_log := w_log s @ [w]\<rparr>)"

text \<open>A call of the rate limiter: a question, or a notification.\<close>

definition ask_limiter :: "('l \<Rightarrow> bool \<times> 'l) \<Rightarrow> ('l, 'c, bool) prog" where
  "ask_limiter f = (\<lambda>s. (Inr (fst (f (w_lim s))), s\<lparr>w_lim := snd (f (w_lim s))\<rparr>))"

definition tell_limiter :: "('l \<Rightarrow> 'l) \<Rightarrow> ('l, 'c, unit) prog" where
  "tell_limiter f = modify (\<lambda>s. s\<lparr>w_lim := f (w_lim s)\<rparr>)"

definition call_client :: "('c \<Rightarrow> (exn + 'a) \<times> 'c) \<Rightarrow> ('l, 'c, 'a) prog" where
  "call_client f = (\<lambda>s. (fst (f (w_client s)), s\<lparr>w_client := snd (f (w_client s))\<rparr>))"

subsection \<open>Unit of work\<close>

text \<open>
  \<open>transaction()\<close>: a nested call joins the open transaction; the outermost one commits when its
  body returns, and restores the database when it raises. \<open>session_scope()\<close> outside a transaction
  opens a session of its own, whose uncommitted changes are lost when the body raises.
\<close>

definition transaction :: "('l, 'c, 'a) prog \<Rightarrow> ('l, 'c, 'a) prog" where
  "transaction m = (\<lambda>s.
     if w_in_tx s then m s
     else case m (s\<lparr>w_in_tx := True\<rparr>) of
            (Inr x, s') \<Rightarrow> (Inr x, s'\<lparr>w_in_tx := False\<rparr>)
          | (Inl e, s') \<Rightarrow> (Inl e, s'\<lparr>w_in_tx := False, w_db := w_db s\<rparr>))"

definition session_scope :: "('l, 'c, 'a) prog \<Rightarrow> ('l, 'c, 'a) prog" where
  "session_scope m = (\<lambda>s.
     if w_in_tx s then m s
     else case m s of
            (Inr x, s') \<Rightarrow> (Inr x, s')
          | (Inl e, s') \<Rightarrow> (Inl e, s'\<lparr>w_db := w_db s\<rparr>))"

subsection \<open>Constraints\<close>

definition active_emails :: "database \<Rightarrow> string list" where
  "active_emails d = map (\<lambda>u. lower (u_email u)) (filter (\<lambda>u. u_deleted_at u = None) (users d))"

definition opt_in :: "'a option \<Rightarrow> 'a set \<Rightarrow> bool" where
  "opt_in v A = (case v of None \<Rightarrow> True | Some x \<Rightarrow> x \<in> A)"

abbreviation user_ids :: "database \<Rightarrow> uuid set" where
  "user_ids d \<equiv> u_id ` set (users d)"

abbreviation session_ids :: "database \<Rightarrow> uuid set" where
  "session_ids d \<equiv> s_id ` set (auth_sessions d)"

definition users_ok :: "database \<Rightarrow> bool" where
  "users_ok d = (distinct (map u_id (users d)) \<and> distinct (active_emails d) \<and>
     (\<forall>u \<in> set (users d). is_supported_language_code (u_language_code u)))"

definition sessions_ok :: "database \<Rightarrow> bool" where
  "sessions_ok d = (distinct (map s_id (auth_sessions d)) \<and>
     distinct (map s_session_token_hash (auth_sessions d)) \<and>
     s_user_id ` set (auth_sessions d) \<subseteq> user_ids d)"

definition identities_ok :: "database \<Rightarrow> bool" where
  "identities_ok d = (distinct (map i_id (auth_identities d)) \<and>
     distinct (map (\<lambda>i. (i_provider_id i, i_provider_subject i)) (auth_identities d)) \<and>
     i_user_id ` set (auth_identities d) \<subseteq> user_ids d)"

definition oidc_states_ok :: "database \<Rightarrow> bool" where
  "oidc_states_ok d = (distinct (map o_id (oidc_states d)) \<and> distinct (map o_state_hash (oidc_states d)) \<and>
     (\<forall>o' \<in> set (oidc_states d). case o_language_code o' of None \<Rightarrow> True | Some c \<Rightarrow> is_supported_language_code c))"

definition audit_logs_ok :: "database \<Rightarrow> bool" where
  "audit_logs_ok d = (distinct (map a_id (auth_audit_logs d)) \<and>
     (\<forall>a \<in> set (auth_audit_logs d). opt_in (a_user_id a) (user_ids d) \<and> opt_in (a_session_id a) (session_ids d)))"

definition user_roles_ok :: "database \<Rightarrow> bool" where
  "user_roles_ok d = (distinct (map r_id (user_roles d)) \<and>
     distinct (map (\<lambda>r. (r_user_id r, r_role_code r)) (user_roles d)) \<and>
     (\<forall>r \<in> set (user_roles d). r_user_id r \<in> user_ids d \<and> opt_in (r_assigned_by_user_id r) (user_ids d)))"

definition sample_items_ok :: "database \<Rightarrow> bool" where
  "sample_items_ok d = (distinct (map m_id (sample_items d)) \<and> m_owner_user_id ` set (sample_items d) \<subseteq> user_ids d)"

definition db_ok :: "database \<Rightarrow> bool" where
  "db_ok d = (users_ok d \<and> sessions_ok d \<and> identities_ok d \<and> oidc_states_ok d \<and> audit_logs_ok d
     \<and> user_roles_ok d \<and> sample_items_ok d)"

definition empty_database :: database where
  "empty_database = \<lparr>users = [], auth_sessions = [], auth_identities = [], oidc_states = [],
     auth_audit_logs = [], user_roles = [], sample_items = []\<rparr>"

subsection \<open>Statements\<close>

text \<open>A change of the database that is made when its result satisfies the constraints.\<close>

definition statement :: "(database \<Rightarrow> database) \<Rightarrow> (database \<Rightarrow> bool) \<Rightarrow> ('l, 'c, unit) prog" where
  "statement f ok_after = (\<lambda>s.
     let d' = f (w_db s) in
     if ok_after d' then (Inr (), s\<lparr>w_db := d'\<rparr>) else (Inl IntegrityError, s))"

text \<open>A statement that cannot violate a constraint, such as a deletion.\<close>

definition modify_db :: "(database \<Rightarrow> database) \<Rightarrow> ('l, 'c, unit) prog" where
  "modify_db f = modify (\<lambda>s. s\<lparr>w_db := f (w_db s)\<rparr>)"

text \<open>\<open>except IntegrityError: raise e\<close>\<close>

definition on_integrity_error :: "('l, 'c, 'a) prog \<Rightarrow> exn \<Rightarrow> ('l, 'c, 'a) prog" where
  "on_integrity_error m e' = catch m (\<lambda>e. if e = IntegrityError then raise e' else raise e)"

text \<open>\<open>result.one_or_none()\<close> on the rows of a query.\<close>

definition one_or_none :: "'a list \<Rightarrow> ('l, 'c, 'a option) prog" where
  "one_or_none rows =
     (case rows of [] \<Rightarrow> ok None | [x] \<Rightarrow> ok (Some x) | _ \<Rightarrow> raise MultipleResultsFound)"

definition query :: "(database \<Rightarrow> 'a) \<Rightarrow> ('l, 'c, 'a) prog" where
  "query f = gets (\<lambda>s. f (w_db s))"

definition query_one :: "(database \<Rightarrow> 'a list) \<Rightarrow> ('l, 'c, 'a option) prog" where
  "query_one f = bind (query f) one_or_none"

text \<open>\<open>session.get(User, id)\<close> and \<open>session.get(AuthSession, id)\<close>\<close>

definition get_user_row :: "uuid \<Rightarrow> ('l, 'c, user option) prog" where
  "get_user_row i = query (\<lambda>d. List.find (\<lambda>u. u_id u = i) (users d))"

definition get_session_row :: "uuid \<Rightarrow> ('l, 'c, auth_session option) prog" where
  "get_session_row i = query (\<lambda>d. List.find (\<lambda>s. s_id s = i) (auth_sessions d))"

definition update_rows :: "('r \<Rightarrow> bool) \<Rightarrow> ('r \<Rightarrow> 'r) \<Rightarrow> 'r list \<Rightarrow> 'r list" where
  "update_rows P g rows = map (\<lambda>r. if P r then g r else r) rows"

definition insert_user :: "user \<Rightarrow> ('l, 'c, unit) prog" where
  "insert_user u = statement (\<lambda>d. d\<lparr>users := users d @ [u]\<rparr>) users_ok"

definition update_users :: "(user \<Rightarrow> bool) \<Rightarrow> (user \<Rightarrow> user) \<Rightarrow> ('l, 'c, unit) prog" where
  "update_users P g = statement (\<lambda>d. d\<lparr>users := update_rows P g (users d)\<rparr>) users_ok"

definition insert_session :: "auth_session \<Rightarrow> ('l, 'c, auth_session) prog" where
  "insert_session s =
     (case inet_process_bind_param (s_ip_address s) of
        None \<Rightarrow> raise StatementError
      | Some addr \<Rightarrow>
          let s' = s\<lparr>s_ip_address := addr\<rparr> in
          seq (statement (\<lambda>d. d\<lparr>auth_sessions := auth_sessions d @ [s']\<rparr>) sessions_ok) (ok s'))"

definition update_sessions :: "(auth_session \<Rightarrow> bool) \<Rightarrow> (auth_session \<Rightarrow> auth_session) \<Rightarrow> ('l, 'c, unit) prog" where
  "update_sessions P g =
     statement (\<lambda>d. d\<lparr>auth_sessions := update_rows P g (auth_sessions d)\<rparr>) sessions_ok"

text \<open>Deleting sessions sets the references of the audit log to them to \<open>NULL\<close>.\<close>

definition delete_sessions :: "(auth_session \<Rightarrow> bool) \<Rightarrow> database \<Rightarrow> database" where
  "delete_sessions P d =
     (let gone = s_id ` set (filter P (auth_sessions d)) in
      d\<lparr>auth_sessions := filter (\<lambda>s. \<not> P s) (auth_sessions d),
        auth_audit_logs := update_rows (\<lambda>a. case a_session_id a of None \<Rightarrow> False | Some i \<Rightarrow> i \<in> gone)
          (\<lambda>a. a\<lparr>a_session_id := None\<rparr>) (auth_audit_logs d)\<rparr>)"

definition insert_identity :: "auth_identity \<Rightarrow> ('l, 'c, unit) prog" where
  "insert_identity i =
     statement (\<lambda>d. d\<lparr>auth_identities := auth_identities d @ [i]\<rparr>) identities_ok"

definition insert_oidc_state :: "auth_oidc_state \<Rightarrow> ('l, 'c, unit) prog" where
  "insert_oidc_state x = statement (\<lambda>d. d\<lparr>oidc_states := oidc_states d @ [x]\<rparr>) oidc_states_ok"

definition insert_audit_log :: "auth_audit_log \<Rightarrow> ('l, 'c, unit) prog" where
  "insert_audit_log a =
     (case inet_process_bind_param (a_ip_address a) of
        None \<Rightarrow> raise StatementError
      | Some addr \<Rightarrow>
          statement (\<lambda>d. d\<lparr>auth_audit_logs := auth_audit_logs d @ [a\<lparr>a_ip_address := addr\<rparr>]\<rparr>) audit_logs_ok)"

definition insert_user_role :: "user_role \<Rightarrow> ('l, 'c, unit) prog" where
  "insert_user_role r = statement (\<lambda>d. d\<lparr>user_roles := user_roles d @ [r]\<rparr>) user_roles_ok"

definition insert_sample_item :: "sample_item \<Rightarrow> ('l, 'c, unit) prog" where
  "insert_sample_item m = statement (\<lambda>d. d\<lparr>sample_items := sample_items d @ [m]\<rparr>) sample_items_ok"

subsection \<open>Weakest preconditions of the primitives\<close>

lemma wp_utcnow [wp_simps]:
  "wp utcnow Q E s = Q (w_clock s (w_clock_n s)) (s\<lparr>w_clock_n := Suc (w_clock_n s)\<rparr>)"
  by (simp add: wp_def utcnow_def)

lemma wp_generate_token [wp_simps]:
  "wp generate_token Q E s = Q (w_tokens s (w_token_n s)) (s\<lparr>w_token_n := Suc (w_token_n s)\<rparr>)"
  by (simp add: wp_def generate_token_def)

lemma wp_uuid4 [wp_simps]:
  "wp uuid4 Q E s = Q (w_uuids s (w_uuid_n s)) (s\<lparr>w_uuid_n := Suc (w_uuid_n s)\<rparr>)"
  by (simp add: wp_def uuid4_def)

lemma wp_hash_password [wp_simps]:
  "wp (hash_password app raw) Q E s =
     Q (hash_password_with app (w_salt_n s) raw) (s\<lparr>w_salt_n := Suc (w_salt_n s)\<rparr>)"
  by (simp add: wp_def hash_password_def)

lemma wp_try_advisory_lock [wp_simps]:
  "wp try_advisory_lock Q E s = Q (w_locks s (w_lock_n s)) (s\<lparr>w_lock_n := Suc (w_lock_n s)\<rparr>)"
  by (simp add: wp_def try_advisory_lock_def)

lemma wp_log_warning [wp_simps]: "wp (log_warning w) Q E s = Q () (s\<lparr>w_log := w_log s @ [w]\<rparr>)"
  by (simp add: log_warning_def wp_modify)

lemma wp_ask_limiter [wp_simps]:
  "wp (ask_limiter f) Q E s = Q (fst (f (w_lim s))) (s\<lparr>w_lim := snd (f (w_lim s))\<rparr>)"
  by (simp add: wp_def ask_limiter_def)

lemma wp_tell_limiter [wp_simps]: "wp (tell_limiter f) Q E s = Q () (s\<lparr>w_lim := f (w_lim s)\<rparr>)"
  by (simp add: tell_limiter_def wp_modify)

lemma wp_call_client [wp_simps]:
  "wp (call_client f) Q E s =
     (case f (w_client s) of (r, c) \<Rightarrow>
        (case r of Inl e \<Rightarrow> E e (s\<lparr>w_client := c\<rparr>) | Inr x \<Rightarrow> Q x (s\<lparr>w_client := c\<rparr>)))"
  by (simp add: wp_def call_client_def split: prod.splits sum.splits)

lemma wp_transaction:
  "wp (transaction m) Q E s =
     (if w_in_tx s then wp m Q E s
      else wp m (\<lambda>x t. Q x (t\<lparr>w_in_tx := False\<rparr>)) (\<lambda>e t. E e (t\<lparr>w_in_tx := False, w_db := w_db s\<rparr>))
             (s\<lparr>w_in_tx := True\<rparr>))"
  by (simp add: wp_def transaction_def split: prod.splits sum.splits)

text \<open>A postcondition on the value alone does not see whether a transaction was opened.\<close>

lemma wp_transaction_value:
  "wp (transaction m) (\<lambda>r _. P r) (\<lambda>_ _. B) s = wp m (\<lambda>r _. P r) (\<lambda>_ _. B) (s\<lparr>w_in_tx := True\<rparr>)"
proof (cases "w_in_tx s")
  case True
  then have "s\<lparr>w_in_tx := True\<rparr> = s" by simp
  with True show ?thesis by (simp only: wp_transaction if_True)
qed (simp add: wp_transaction)

lemma wp_transactionI:
  assumes m: "\<And>b. wp m R (\<lambda>_ _. B) (s\<lparr>w_in_tx := b\<rparr>)"
    and Q: "\<And>v t b. R v t \<Longrightarrow> Q v (t\<lparr>w_in_tx := b\<rparr>)" "\<And>v t. R v t \<Longrightarrow> Q v t"
  shows "wp (transaction m) Q (\<lambda>_ _. B) s"
proof (cases "w_in_tx s")
  case True
  then have "s\<lparr>w_in_tx := True\<rparr> = s" by simp
  with wp_mono [OF m [of True]] Q(2) have "wp m Q (\<lambda>_ _. B) s" by metis
  with True show ?thesis by (simp only: wp_transaction if_True)
next
  case False
  with wp_mono [OF m [of True]] Q(1) show ?thesis by (simp add: wp_transaction)
qed

lemma wp_session_scope:
  "wp (session_scope m) Q E s =
     (if w_in_tx s then wp m Q E s else wp m Q (\<lambda>e t. E e (t\<lparr>w_db := w_db s\<rparr>)) s)"
  by (simp add: wp_def session_scope_def split: prod.splits sum.splits)

lemma wp_statement [wp_simps]:
  "wp (statement f q) Q E s =
     (if q (f (w_db s)) then Q () (s\<lparr>w_db := f (w_db s)\<rparr>) else E IntegrityError s)"
  by (simp add: wp_def statement_def Let_def)

lemma wp_modify_db [wp_simps]: "wp (modify_db f) Q E s = Q () (s\<lparr>w_db := f (w_db s)\<rparr>)"
  by (simp add: modify_db_def wp_modify)

lemma wp_on_integrity_error [wp_simps]:
  "wp (on_integrity_error m e') Q E s = wp m Q (\<lambda>e. E (if e = IntegrityError then e' else e)) s"
proof -
  have "(\<lambda>e. wp (if e = IntegrityError then raise e' else raise e) Q E) =
      (\<lambda>e. E (if e = IntegrityError then e' else e))"
    by (rule ext) (simp add: wp_def raise_def fun_eq_iff)
  then show ?thesis by (simp add: on_integrity_error_def wp_catch)
qed

lemma wp_one_or_none [wp_simps]:
  "wp (one_or_none rows) Q E s =
     (case rows of [] \<Rightarrow> Q None s | [x] \<Rightarrow> Q (Some x) s | _ \<Rightarrow> E MultipleResultsFound s)"
  by (simp add: one_or_none_def wp_ok wp_raise split: list.splits)

lemma wp_query [wp_simps]: "wp (query f) Q E s = Q (f (w_db s)) s"
  by (simp add: query_def wp_gets)

lemma wp_query_one [wp_simps]:
  "wp (query_one f) Q E s =
     (case f (w_db s) of [] \<Rightarrow> Q None s | [x] \<Rightarrow> Q (Some x) s | _ \<Rightarrow> E MultipleResultsFound s)"
  by (simp add: query_one_def wp_simps)

lemma wp_get_user_row [wp_simps]:
  "wp (get_user_row i) Q E s = Q (List.find (\<lambda>u. u_id u = i) (users (w_db s))) s"
  by (simp add: get_user_row_def wp_query)

lemma wp_get_session_row [wp_simps]:
  "wp (get_session_row i) Q E s = Q (List.find (\<lambda>x. s_id x = i) (auth_sessions (w_db s))) s"
  by (simp add: get_session_row_def wp_query)

subsection \<open>Invariants of the database and the limiter\<close>

text \<open>
  A predicate \<open>P\<close> of the database together with one \<open>L\<close> of the limiter. The primitives that
  do not write to the database keep every such invariant, and so do transactions, whose rollback
  restores a database that satisfied it.
\<close>

definition winv :: "(database \<Rightarrow> bool) \<Rightarrow> ('l \<Rightarrow> bool) \<Rightarrow> ('l, 'c) world \<Rightarrow> bool" where
  "winv P L s = (P (w_db s) \<and> L (w_lim s))"

lemma winv_update [simp]:
  "winv P L (s\<lparr>w_clock_n := n\<rparr>) = winv P L s" "winv P L (s\<lparr>w_token_n := n\<rparr>) = winv P L s"
  "winv P L (s\<lparr>w_uuid_n := n\<rparr>) = winv P L s" "winv P L (s\<lparr>w_salt_n := n\<rparr>) = winv P L s"
  "winv P L (s\<lparr>w_lock_n := n\<rparr>) = winv P L s" "winv P L (s\<lparr>w_log := ws\<rparr>) = winv P L s"
  "winv P L (s\<lparr>w_in_tx := b\<rparr>) = winv P L s" "winv P L (s\<lparr>w_client := c\<rparr>) = winv P L s"
  "winv P L (s\<lparr>w_db := d\<rparr>) \<longleftrightarrow> P d \<and> L (w_lim s)" "winv P L (s\<lparr>w_lim := l\<rparr>) \<longleftrightarrow> P (w_db s) \<and> L l"
  by (simp_all add: winv_def)

lemma winvD: "winv P L s \<Longrightarrow> P (w_db s)" "winv P L s \<Longrightarrow> L (w_lim s)"
  by (simp_all add: winv_def)

lemma keeps_sources [keeps_intros]:
  "keeps (winv P L) utcnow" "keeps (winv P L) generate_token" "keeps (winv P L) uuid4"
  "keeps (winv P L) (hash_password app raw)" "keeps (winv P L) try_advisory_lock"
  "keeps (winv P L) (log_warning w)" "keeps (winv P L) (query f)" "keeps (winv P L) (query_one g)"
  "keeps (winv P L) (one_or_none rows)" "keeps (winv P L) (get_user_row i)" "keeps (winv P L) (get_session_row i)"
  by (simp_all add: keeps_wp_iff wp_simps split: list.splits)

lemma keeps_call_client [keeps_intros]: "keeps (winv P L) (call_client f)"
  by (simp add: keeps_wp_iff wp_simps split: prod.splits sum.splits)

lemma keeps_ask_limiter [keeps_intros]:
  "(\<And>l. L l \<Longrightarrow> L (snd (f l))) \<Longrightarrow> keeps (winv P L) (ask_limiter f)"
  by (simp add: keeps_wp_iff wp_simps winv_def)

lemma keeps_tell_limiter [keeps_intros]: "(\<And>l. L l \<Longrightarrow> L (f l)) \<Longrightarrow> keeps (winv P L) (tell_limiter f)"
  by (simp add: keeps_wp_iff wp_simps winv_def)

lemma keeps_statement:
  "(\<And>d. P d \<Longrightarrow> q (f d) \<Longrightarrow> P (f d)) \<Longrightarrow> keeps (winv P L) (statement f q)"
  by (simp add: keeps_wp_iff wp_simps winv_def)

lemma keeps_modify_db: "(\<And>d. P d \<Longrightarrow> P (f d)) \<Longrightarrow> keeps (winv P L) (modify_db f)"
  by (simp add: keeps_wp_iff wp_simps winv_def)

lemma keeps_on_integrity_error [keeps_intros]: "keeps I m \<Longrightarrow> keeps I (on_integrity_error m e)"
  unfolding on_integrity_error_def by (intro keeps_intros)

lemma keeps_transaction [keeps_intros]:
  assumes "keeps (winv P L) m"
  shows "keeps (winv P L) (transaction m)"
proof -
  have "wp (transaction m) (\<lambda>_. winv P L) (\<lambda>_. winv P L) s" if "winv P L s" for s
    using keeps_wp [OF assms, of s] keeps_wp [OF assms, of "s\<lparr>w_in_tx := True\<rparr>"] that
    by (auto simp: wp_transaction winv_def elim!: wp_mono)
  then show ?thesis by (simp add: keeps_wp_iff)
qed

lemma keeps_session_scope [keeps_intros]:
  assumes "keeps (winv P L) m"
  shows "keeps (winv P L) (session_scope m)"
proof -
  have "wp (session_scope m) (\<lambda>_. winv P L) (\<lambda>_. winv P L) s" if "winv P L s" for s
    using keeps_wp [OF assms, of s] that
    by (auto simp: wp_session_scope winv_def elim!: wp_mono)
  then show ?thesis by (simp add: keeps_wp_iff)
qed

subsection \<open>The constraints are kept by the statements\<close>

lemma set_update_rows: "set (update_rows P g rows) = (\<lambda>r. if P r then g r else r) ` set rows"
  by (simp add: update_rows_def)

lemma ball_update_rowsI:
  assumes "\<And>x. x \<in> set rows \<Longrightarrow> R (if P x then g x else x)"
  shows "\<forall>y \<in> set (update_rows P g rows). R y"
  using assms by (auto simp only: set_update_rows)

lemma map_update_rows [simp]:
  "(\<And>r. f (g r) = f r) \<Longrightarrow> map f (update_rows P g rows) = map f rows"
  by (induction rows) (auto simp: update_rows_def)

lemma image_update_rows [simp]:
  "(\<And>r. f (g r) = f r) \<Longrightarrow> f ` set (update_rows P g rows) = f ` set rows"
  by (metis list.set_map map_update_rows)

lemma opt_in_simps [simp]: "opt_in None A" "opt_in (Some x) A \<longleftrightarrow> x \<in> A"
  by (simp_all add: opt_in_def)

lemma opt_in_mono: "opt_in v A \<Longrightarrow> A \<subseteq> B \<Longrightarrow> opt_in v B"
  by (cases v) auto

lemmas ok_defs = users_ok_def sessions_ok_def identities_ok_def oidc_states_ok_def audit_logs_ok_def
  user_roles_ok_def sample_items_ok_def active_emails_def

text \<open>Constraints that look at one table only, or at the identifiers of another.\<close>

lemma db_ok_users_grow:
  assumes "db_ok d" "users_ok (d\<lparr>users := us\<rparr>)" "u_id ` set (users d) \<subseteq> u_id ` set us"
  shows "db_ok (d\<lparr>users := us\<rparr>)"
proof -
  have m: "opt_in v (u_id ` set (users d)) \<Longrightarrow> opt_in v (u_id ` set us)" for v
    using assms(3) by (rule opt_in_mono [rotated])
  then show ?thesis using assms
    by (simp add: db_ok_def sessions_ok_def identities_ok_def oidc_states_ok_def audit_logs_ok_def
        user_roles_ok_def sample_items_ok_def) (meson subset_iff order_trans)
qed

lemma db_ok_sessions:
  assumes "db_ok d" "sessions_ok (d\<lparr>auth_sessions := ss\<rparr>)" "s_id ` set (auth_sessions d) \<subseteq> s_id ` set ss"
  shows "db_ok (d\<lparr>auth_sessions := ss\<rparr>)"
proof -
  have m: "opt_in v (s_id ` set (auth_sessions d)) \<Longrightarrow> opt_in v (s_id ` set ss)" for v
    using assms(3) by (rule opt_in_mono [rotated])
  then show ?thesis using assms
    by (simp add: db_ok_def users_ok_def active_emails_def identities_ok_def oidc_states_ok_def audit_logs_ok_def
        user_roles_ok_def sample_items_ok_def)
qed

lemma db_ok_identities:
  "db_ok d \<Longrightarrow> identities_ok (d\<lparr>auth_identities := x\<rparr>) \<Longrightarrow> db_ok (d\<lparr>auth_identities := x\<rparr>)"
  by (simp add: db_ok_def ok_defs)

lemma db_ok_oidc_states:
  "db_ok d \<Longrightarrow> oidc_states_ok (d\<lparr>oidc_states := x\<rparr>) \<Longrightarrow> db_ok (d\<lparr>oidc_states := x\<rparr>)"
  by (simp add: db_ok_def ok_defs)

lemma db_ok_audit_logs:
  "db_ok d \<Longrightarrow> audit_logs_ok (d\<lparr>auth_audit_logs := x\<rparr>) \<Longrightarrow> db_ok (d\<lparr>auth_audit_logs := x\<rparr>)"
  by (simp add: db_ok_def ok_defs)

lemma db_ok_user_roles:
  "db_ok d \<Longrightarrow> user_roles_ok (d\<lparr>user_roles := x\<rparr>) \<Longrightarrow> db_ok (d\<lparr>user_roles := x\<rparr>)"
  by (simp add: db_ok_def ok_defs)

lemma db_ok_sample_items:
  "db_ok d \<Longrightarrow> sample_items_ok (d\<lparr>sample_items := x\<rparr>) \<Longrightarrow> db_ok (d\<lparr>sample_items := x\<rparr>)"
  by (simp add: db_ok_def ok_defs)

lemma db_ok_empty: "db_ok empty_database"
  by (simp add: db_ok_def ok_defs empty_database_def)

end
