(* ===== verification/Invariants.thy ===== *)
theory Invariants
  imports Database
begin

text \<open>
  The invariant that the repositories and use cases keep, beyond the constraints of the schema:

  \<^item> lifetimes: no session outlives its absolute or its idle time;
  \<^item> tombstones: a deleted account has no session in force, no role and no linked identity.

  \<open>app_inv S X\<close> adds that the users of \<open>X\<close> are present and not deleted, which is what the
  operations that attach something to a user rely on; \<open>app_inv S {}\<close> is the invariant itself.
  For every kind of statement a lemma says when it keeps \<open>app_inv S X\<close>.
\<close>

definition live_ids :: "database \<Rightarrow> uuid set" where
  "live_ids d = u_id ` {u \<in> set (users d). u_deleted_at u = None}"

definition dead_ids :: "database \<Rightarrow> uuid set" where
  "dead_ids d = u_id ` {u \<in> set (users d). u_deleted_at u \<noteq> None}"

definition lifetime_ok :: "auth_settings \<Rightarrow> auth_session \<Rightarrow> bool" where
  "lifetime_ok S s =
     (s_expires_at s \<le> s_issued_at s + seconds (AUTH_SESSION_ABSOLUTE_TTL_SECONDS S) \<and>
      s_expires_at s \<le> s_last_seen_at s + seconds (AUTH_SESSION_IDLE_TTL_SECONDS S))"

definition tombstones_ok :: "database \<Rightarrow> bool" where
  "tombstones_ok d =
     ((\<forall>s \<in> set (auth_sessions d). s_user_id s \<in> dead_ids d \<longrightarrow> s_revoked_at s \<noteq> None) \<and>
      (\<forall>r \<in> set (user_roles d). r_user_id r \<notin> dead_ids d) \<and>
      (\<forall>i \<in> set (auth_identities d). i_user_id i \<notin> dead_ids d))"

definition app_inv :: "auth_settings \<Rightarrow> uuid set \<Rightarrow> database \<Rightarrow> bool" where
  "app_inv S X d = (db_ok d \<and> (\<forall>s \<in> set (auth_sessions d). lifetime_ok S s) \<and> tombstones_ok d \<and> X \<subseteq> live_ids d)"

lemma app_invD:
  assumes "app_inv S X d"
  shows "db_ok d" "tombstones_ok d" "X \<subseteq> live_ids d" "s \<in> set (auth_sessions d) \<Longrightarrow> lifetime_ok S s"
  using assms by (simp_all add: app_inv_def)

lemma app_inv_subset: "app_inv S X d \<Longrightarrow> Y \<subseteq> X \<Longrightarrow> app_inv S Y d"
  by (auto simp: app_inv_def)

lemma app_inv_empty: "app_inv S {} empty_database"
  by (simp add: app_inv_def db_ok_empty tombstones_ok_def) (simp add: empty_database_def)

lemma winv_subset: "winv (app_inv S X) L s \<Longrightarrow> Y \<subseteq> X \<Longrightarrow> winv (app_inv S Y) L s"
  by (auto simp: winv_def intro: app_inv_subset)

lemma live_idsI: "u \<in> set (users d) \<Longrightarrow> u_deleted_at u = None \<Longrightarrow> u_id u \<in> live_ids d"
  by (simp add: live_ids_def)

lemma live_not_dead: "db_ok d \<Longrightarrow> i \<in> live_ids d \<Longrightarrow> i \<notin> dead_ids d"
proof
  assume ok: "db_ok d" and l: "i \<in> live_ids d" and k: "i \<in> dead_ids d"
  then obtain u v where "u \<in> set (users d)" "v \<in> set (users d)" "u_id u = u_id v"
    "u_deleted_at u = None" "u_deleted_at v \<noteq> None" by (auto simp: live_ids_def dead_ids_def)
  moreover have "distinct (map u_id (users d))" using ok by (simp add: db_ok_def users_ok_def)
  ultimately show False by (metis distinct_map inj_onD)
qed

lemma live_or_dead: "live_ids d \<union> dead_ids d = user_ids d"
proof -
  have "set (users d) = {u \<in> set (users d). u_deleted_at u = None} \<union> {u \<in> set (users d). u_deleted_at u \<noteq> None}" by blast
  then show ?thesis unfolding live_ids_def dead_ids_def by (metis image_Un)
qed

lemma live_ids_users: "live_ids d \<subseteq> user_ids d"
  using live_or_dead by blast

subsection \<open>Rows by unique keys\<close>

lemma filter_key_le_one:
  assumes "distinct (map f xs)" "\<And>x. P x \<Longrightarrow> f x = k"
  shows "filter P xs = [] \<or> (\<exists>x. filter P xs = [x])"
  using assms(1)
proof (induction xs)
  case (Cons x xs)
  show ?case
  proof (cases "P x")
    case True
    then have "filter P xs = []" using Cons.prems assms(2) by (auto simp: filter_empty_conv)
    with True show ?thesis by simp
  next
    case False
    with Cons show ?thesis by auto
  qed
qed simp

lemma filter_one_iff: "filter P xs = [x] \<Longrightarrow> x \<in> set xs \<and> P x"
proof -
  assume "filter P xs = [x]"
  then have "x \<in> set (filter P xs)" by simp
  then show ?thesis by simp
qed

text \<open>A query whose filter fixes a unique key never raises and finds the row, if there is one.\<close>

lemma wp_query_one_unique:
  assumes "distinct (map f (rows (w_db s)))" "\<And>x. P x \<Longrightarrow> f x = k"
  shows "wp (query_one (\<lambda>d. filter P (rows d))) Q E s \<longleftrightarrow>
         (if \<exists>x \<in> set (rows (w_db s)). P x then \<exists>x \<in> set (rows (w_db s)). P x \<and> Q (Some x) s
          else Q None s)"
proof -
  from filter_key_le_one [OF assms] show ?thesis
  proof
    assume n: "filter P (rows (w_db s)) = []"
    then show ?thesis by (auto simp: wp_query_one filter_empty_conv)
  next
    assume "\<exists>x. filter P (rows (w_db s)) = [x]"
    then obtain x where x: "filter P (rows (w_db s)) = [x]" by blast
    have "y = x" if "y \<in> set (rows (w_db s))" "P y" for y
    proof -
      from that have "y \<in> set (filter P (rows (w_db s)))" by simp
      with x show ?thesis by simp
    qed
    with filter_one_iff [OF x] x show ?thesis by (auto simp: wp_query_one)
  qed
qed

lemma wp_scoped_query_unique:
  assumes "distinct (map f (rows (w_db s)))" "\<And>x. P x \<Longrightarrow> f x = k"
  shows "wp (session_scope (query_one (\<lambda>d. filter P (rows d)))) Q E s \<longleftrightarrow>
         (if \<exists>x \<in> set (rows (w_db s)). P x then \<exists>x \<in> set (rows (w_db s)). P x \<and> Q (Some x) s
          else Q None s)"
proof -
  have "wp (query_one (\<lambda>d. filter P (rows d))) Q E' s \<longleftrightarrow>
      (if \<exists>x \<in> set (rows (w_db s)). P x then \<exists>x \<in> set (rows (w_db s)). P x \<and> Q (Some x) s else Q None s)" for E'
    by (rule wp_query_one_unique [where rows = rows and f = f and k = k]) (use assms in auto)
  then show ?thesis by (simp only: wp_session_scope if_cancel)
qed

lemma find_id_Some:
  "List.find (\<lambda>x. f x = k) xs = Some x \<Longrightarrow> x \<in> set xs \<and> f x = k"
  by (auto simp: find_Some_iff)

lemma find_id_None: "List.find (\<lambda>x. f x = k) xs = None \<longleftrightarrow> k \<notin> f ` set xs"
  by (auto simp: find_None_iff)

lemma find_id_unique:
  assumes "distinct (map f xs)" "x \<in> set xs" "f x = k"
  shows "List.find (\<lambda>x. f x = k) xs = Some x"
proof -
  from assms(2,3) have "List.find (\<lambda>x. f x = k) xs \<noteq> None" unfolding find_id_None by auto
  then obtain y where y: "List.find (\<lambda>x. f x = k) xs = Some y" by blast
  with find_id_Some [OF y] assms have "y = x" by (metis distinct_map inj_onD)
  with y show ?thesis by simp
qed

lemma db_ok_distinct:
  assumes "db_ok d"
  shows "distinct (map u_id (users d))" "distinct (active_emails d)" "distinct (map s_id (auth_sessions d))"
    "distinct (map s_session_token_hash (auth_sessions d))"
    "distinct (map (\<lambda>i. (i_provider_id i, i_provider_subject i)) (auth_identities d))"
    "distinct (map o_state_hash (oidc_states d))" "distinct (map o_id (oidc_states d))"
    "distinct (map (\<lambda>r. (r_user_id r, r_role_code r)) (user_roles d))"
    "distinct (map m_id (sample_items d))" "distinct (map i_id (auth_identities d))"
  using assms by (simp_all add: db_ok_def ok_defs)

subsection \<open>Statements that keep the invariant\<close>

lemma live_dead_update:
  assumes "\<And>u. u_id (g u) = u_id u" "\<And>u. u_deleted_at (g u) = u_deleted_at u"
  shows "live_ids (d\<lparr>users := update_rows P g (users d)\<rparr>) = live_ids d"
    and "dead_ids (d\<lparr>users := update_rows P g (users d)\<rparr>) = dead_ids d"
proof -
  have e: "u_id ` {u \<in> set (update_rows P g (users d)). Q (u_deleted_at u)} = u_id ` {u \<in> set (users d). Q (u_deleted_at u)}" for Q
  proof (rule set_eqI, rule iffI)
    fix i assume "i \<in> u_id ` {u \<in> set (update_rows P g (users d)). Q (u_deleted_at u)}"
    then show "i \<in> u_id ` {u \<in> set (users d). Q (u_deleted_at u)}"
      by (auto simp: set_update_rows assms split: if_splits)
  next
    fix i assume "i \<in> u_id ` {u \<in> set (users d). Q (u_deleted_at u)}"
    then obtain u where u: "u \<in> set (users d)" "Q (u_deleted_at u)" "i = u_id u" by blast
    let ?v = "if P u then g u else u"
    have "?v \<in> set (update_rows P g (users d))" using u(1) unfolding set_update_rows by blast
    moreover have "Q (u_deleted_at ?v)" "u_id ?v = i" using u by (auto simp: assms)
    ultimately show "i \<in> u_id ` {u \<in> set (update_rows P g (users d)). Q (u_deleted_at u)}" by blast
  qed
  show "live_ids (d\<lparr>users := update_rows P g (users d)\<rparr>) = live_ids d"
    using e [of "\<lambda>x. x = None"] by (simp add: live_ids_def)
  show "dead_ids (d\<lparr>users := update_rows P g (users d)\<rparr>) = dead_ids d"
    using e [of "\<lambda>x. x \<noteq> None"] by (simp add: dead_ids_def)
qed

lemma keeps_update_users:
  assumes "\<And>u. u_id (g u) = u_id u" "\<And>u. u_deleted_at (g u) = u_deleted_at u"
  shows "keeps (winv (app_inv S X) L) (update_users P g)"
  unfolding update_users_def
proof (rule keeps_statement)
  fix d assume inv: "app_inv S X d" and ok: "users_ok (d\<lparr>users := update_rows P g (users d)\<rparr>)"
  have "db_ok (d\<lparr>users := update_rows P g (users d)\<rparr>)"
    using db_ok_users_grow [OF app_invD(1) [OF inv] ok] by (simp add: assms)
  with inv show "app_inv S X (d\<lparr>users := update_rows P g (users d)\<rparr>)"
    by (simp add: app_inv_def tombstones_ok_def live_dead_update [OF assms])
qed

lemma app_inv_insert_user:
  assumes inv: "app_inv S X d" and ok: "users_ok (d\<lparr>users := users d @ [u]\<rparr>)" and live: "u_deleted_at u = None"
  shows "app_inv S (insert (u_id u) X) (d\<lparr>users := users d @ [u]\<rparr>)"
proof -
  have "db_ok (d\<lparr>users := users d @ [u]\<rparr>)"
    using db_ok_users_grow [OF app_invD(1) [OF inv] ok] by auto
  moreover have "dead_ids (d\<lparr>users := users d @ [u]\<rparr>) = dead_ids d" using live by (auto simp: dead_ids_def)
  moreover have "live_ids (d\<lparr>users := users d @ [u]\<rparr>) = insert (u_id u) (live_ids d)"
    using live by (auto simp: live_ids_def)
  ultimately show ?thesis using inv by (auto simp: app_inv_def tombstones_ok_def)
qed

lemma live_ids_other [simp]:
  "live_ids (d\<lparr>auth_sessions := a\<rparr>) = live_ids d" "dead_ids (d\<lparr>auth_sessions := a\<rparr>) = dead_ids d"
  "live_ids (d\<lparr>auth_identities := b\<rparr>) = live_ids d" "dead_ids (d\<lparr>auth_identities := b\<rparr>) = dead_ids d"
  "live_ids (d\<lparr>oidc_states := c\<rparr>) = live_ids d" "dead_ids (d\<lparr>oidc_states := c\<rparr>) = dead_ids d"
  "live_ids (d\<lparr>auth_audit_logs := e\<rparr>) = live_ids d" "dead_ids (d\<lparr>auth_audit_logs := e\<rparr>) = dead_ids d"
  "live_ids (d\<lparr>user_roles := f\<rparr>) = live_ids d" "dead_ids (d\<lparr>user_roles := f\<rparr>) = dead_ids d"
  "live_ids (d\<lparr>sample_items := g\<rparr>) = live_ids d" "dead_ids (d\<lparr>sample_items := g\<rparr>) = dead_ids d"
  by (simp_all add: live_ids_def dead_ids_def)

lemma app_inv_update_sessions:
  assumes inv: "app_inv S X d" and ok: "sessions_ok (d\<lparr>auth_sessions := update_rows P g (auth_sessions d)\<rparr>)"
    and id: "\<And>s. s_id (g s) = s_id s" and user: "\<And>s. s_user_id (g s) = s_user_id s"
    and rev: "\<And>s. s_revoked_at s \<noteq> None \<Longrightarrow> s_revoked_at (g s) \<noteq> None"
    and life: "\<And>s. s \<in> set (auth_sessions d) \<Longrightarrow> lifetime_ok S s \<Longrightarrow> P s \<Longrightarrow> lifetime_ok S (g s)"
  shows "app_inv S X (d\<lparr>auth_sessions := update_rows P g (auth_sessions d)\<rparr>)"
proof -
  have "db_ok (d\<lparr>auth_sessions := update_rows P g (auth_sessions d)\<rparr>)"
    using db_ok_sessions [OF app_invD(1) [OF inv] ok] by (simp add: id)
  with inv rev life user show ?thesis
    by (auto simp: app_inv_def tombstones_ok_def set_update_rows)
qed

lemma keeps_update_sessions:
  assumes "\<And>s. s_id (g s) = s_id s" "\<And>s. s_user_id (g s) = s_user_id s"
    and "\<And>s. s_revoked_at s \<noteq> None \<Longrightarrow> s_revoked_at (g s) \<noteq> None"
    and "\<And>s. lifetime_ok S s \<Longrightarrow> P s \<Longrightarrow> lifetime_ok S (g s)"
  shows "keeps (winv (app_inv S X) L) (update_sessions P g)"
  unfolding update_sessions_def
  by (rule keeps_statement, rule app_inv_update_sessions) (use assms in auto)

lemma keeps_insert_session:
  assumes "s_user_id s \<in> X" "lifetime_ok S s"
  shows "keeps (winv (app_inv S X) L) (insert_session s)"
proof -
  have step: "app_inv S X (d\<lparr>auth_sessions := auth_sessions d @ [t]\<rparr>)"
    if inv: "app_inv S X d" and ok: "sessions_ok (d\<lparr>auth_sessions := auth_sessions d @ [t]\<rparr>)"
      and t: "s_user_id t = s_user_id s" "lifetime_ok S t" for d t
  proof -
    have "db_ok (d\<lparr>auth_sessions := auth_sessions d @ [t]\<rparr>)"
      by (rule db_ok_sessions [OF app_invD(1) [OF inv] ok]) auto
    moreover have "s_user_id t \<notin> dead_ids d"
      using assms(1) t(1) app_invD [OF inv] live_not_dead by auto
    ultimately show ?thesis using inv t by (auto simp: app_inv_def tombstones_ok_def)
  qed
  show ?thesis
    unfolding insert_session_def Let_def
    by (intro keeps_intros keeps_statement step) (use assms(2) in \<open>auto simp: lifetime_ok_def\<close>)
qed

lemma app_inv_delete_sessions:
  assumes "app_inv S X d"
  shows "app_inv S X (delete_sessions P d)"
proof -
  let ?keep = "filter (\<lambda>s. \<not> P s) (auth_sessions d)"
  let ?gone = "s_id ` {s \<in> set (auth_sessions d). P s}"
  let ?Q = "\<lambda>a. case a_session_id a of None \<Rightarrow> False | Some i \<Rightarrow> i \<in> ?gone"
  let ?logs = "update_rows ?Q (\<lambda>a. a\<lparr>a_session_id := None\<rparr>) (auth_audit_logs d)"
  have d': "delete_sessions P d = d\<lparr>auth_sessions := ?keep, auth_audit_logs := ?logs\<rparr>"
    by (simp add: delete_sessions_def Let_def)
  have "opt_in (a_session_id a) (s_id ` set ?keep)" if "a \<in> set ?logs" for a
  proof -
    from that obtain b where b: "b \<in> set (auth_audit_logs d)"
      and a: "a = (if ?Q b then b\<lparr>a_session_id := None\<rparr> else b)" by (auto simp: set_update_rows)
    have "opt_in (a_session_id b) (s_id ` set (auth_sessions d))"
      using b app_invD(1) [OF assms] by (auto simp: db_ok_def audit_logs_ok_def)
    then show ?thesis unfolding a by (cases "a_session_id b") auto
  qed
  moreover have "opt_in (a_user_id a) (user_ids d)" if "a \<in> set ?logs" for a
    using that app_invD(1) [OF assms] by (auto simp: db_ok_def audit_logs_ok_def set_update_rows)
  ultimately have "db_ok (delete_sessions P d)"
    using app_invD(1) [OF assms] unfolding d'
    by (auto simp: db_ok_def users_ok_def active_emails_def sessions_ok_def identities_ok_def
        oidc_states_ok_def audit_logs_ok_def user_roles_ok_def sample_items_ok_def distinct_map_filter)
  then show ?thesis using assms unfolding d' by (auto simp: app_inv_def tombstones_ok_def)
qed

lemma app_inv_identities:
  assumes "app_inv S X d" "identities_ok (d\<lparr>auth_identities := is\<rparr>)" "\<forall>i \<in> set is. i_user_id i \<notin> dead_ids d"
  shows "app_inv S X (d\<lparr>auth_identities := is\<rparr>)"
  using assms db_ok_identities [of d "is"] by (auto simp: app_inv_def tombstones_ok_def)

lemma app_inv_oidc_states:
  assumes "app_inv S X d" "oidc_states_ok (d\<lparr>oidc_states := xs\<rparr>)"
  shows "app_inv S X (d\<lparr>oidc_states := xs\<rparr>)"
  using assms db_ok_oidc_states [of d xs] by (auto simp: app_inv_def tombstones_ok_def)

lemma app_inv_audit_logs:
  assumes "app_inv S X d" "audit_logs_ok (d\<lparr>auth_audit_logs := xs\<rparr>)"
  shows "app_inv S X (d\<lparr>auth_audit_logs := xs\<rparr>)"
  using assms db_ok_audit_logs [of d xs] by (auto simp: app_inv_def tombstones_ok_def)

lemma app_inv_user_roles:
  assumes "app_inv S X d" "user_roles_ok (d\<lparr>user_roles := rs\<rparr>)" "\<forall>r \<in> set rs. r_user_id r \<notin> dead_ids d"
  shows "app_inv S X (d\<lparr>user_roles := rs\<rparr>)"
  using assms db_ok_user_roles [of d rs] by (auto simp: app_inv_def tombstones_ok_def)

lemma app_inv_sample_items:
  assumes "app_inv S X d" "sample_items_ok (d\<lparr>sample_items := xs\<rparr>)"
  shows "app_inv S X (d\<lparr>sample_items := xs\<rparr>)"
  using assms db_ok_sample_items [of d xs] by (auto simp: app_inv_def tombstones_ok_def)

lemma keeps_insert_audit_log [keeps_intros]: "keeps (winv (app_inv S X) L) (insert_audit_log a)"
  unfolding insert_audit_log_def
  by (intro keeps_intros keeps_statement) (rule app_inv_audit_logs)

lemma keeps_insert_oidc_state [keeps_intros]: "keeps (winv (app_inv S X) L) (insert_oidc_state x)"
  unfolding insert_oidc_state_def
  by (intro keeps_statement) (rule app_inv_oidc_states)

lemma keeps_insert_sample_item [keeps_intros]: "keeps (winv (app_inv S X) L) (insert_sample_item m)"
  unfolding insert_sample_item_def
  by (intro keeps_statement) (rule app_inv_sample_items)

lemma keeps_insert_identity:
  assumes "i_user_id i \<in> X"
  shows "keeps (winv (app_inv S X) L) (insert_identity i)"
  unfolding insert_identity_def
proof (rule keeps_statement, rule app_inv_identities, assumption, assumption)
  fix d assume "app_inv S X d"
  then show "\<forall>x \<in> set (auth_identities d @ [i]). i_user_id x \<notin> dead_ids d"
    using assms live_not_dead by (auto simp: app_inv_def tombstones_ok_def)
qed

lemma keeps_insert_user_role:
  assumes "r_user_id r \<in> X"
  shows "keeps (winv (app_inv S X) L) (insert_user_role r)"
  unfolding insert_user_role_def
proof (rule keeps_statement, rule app_inv_user_roles, assumption, assumption)
  fix d assume "app_inv S X d"
  then show "\<forall>x \<in> set (user_roles d @ [r]). r_user_id x \<notin> dead_ids d"
    using assms live_not_dead by (auto simp: app_inv_def tombstones_ok_def)
qed

subsection \<open>Learning that a user is live\<close>

text \<open>A step that, when it returns, has shown the users of \<open>Y x\<close> to be live, and what follows it.\<close>

lemma keeps_bind_live:
  assumes "\<And>s. winv (app_inv S X) L s \<Longrightarrow> wp m (\<lambda>x. winv (app_inv S (Y x)) L) (\<lambda>_. winv (app_inv S X) L) s"
    and "\<And>x. keeps (winv (app_inv S (Y x)) L) (f x)" and "\<And>x. X \<subseteq> Y x"
  shows "keeps (winv (app_inv S X) L) (bind m f)"
proof -
  have "wp (f x) (\<lambda>_. winv (app_inv S X) L) (\<lambda>_. winv (app_inv S X) L) t"
    if "winv (app_inv S (Y x)) L t" for x t
    using keeps_wp [OF assms(2) that] by (rule wp_mono) (erule winv_subset [OF _ assms(3)])+
  then show ?thesis
    unfolding keeps_wp_iff wp_bind
    by (auto elim: wp_mono [OF assms(1)])
qed

text \<open>Running under a larger set of live users.\<close>

lemma keeps_wp_subset:
  assumes "keeps (winv (app_inv S Y) L) m" "winv (app_inv S Y) L s" "X \<subseteq> Y"
  shows "wp m (\<lambda>_. winv (app_inv S X) L) (\<lambda>_. winv (app_inv S X) L) s"
  using keeps_wp [OF assms(1,2)] by (rule wp_mono) (erule winv_subset [OF _ assms(3)])+

subsection \<open>A small state for examples\<close>

definition demo_user :: "uuid \<Rightarrow> string \<Rightarrow> user" where
  "demo_user i email = \<lparr>u_id = i, u_email = email, u_password_hash = Some ''hash:correct horse battery'',
     u_is_active = True, u_language_code = ''en'', u_registered_at = 1000 * int i, u_modified_at = 1000 * int i,
     u_last_logged_in_at = None, u_deleted_at = None\<rparr>"

definition demo_session :: "uuid \<Rightarrow> uuid \<Rightarrow> string \<Rightarrow> auth_session" where
  "demo_session i uid token_hash = \<lparr>s_id = i, s_user_id = uid, s_session_token_hash = token_hash,
     s_csrf_token_hash = ''csrf'', s_issued_at = 0, s_last_seen_at = 0, s_expires_at = seconds 86400,
     s_revoked_at = None, s_last_oidc_authenticated_at = None, s_ip_address = None, s_user_agent = None\<rparr>"

definition demo_database :: database where
  "demo_database = empty_database\<lparr>users := [demo_user 1 ''ann@example.com'', demo_user 2 ''bob@example.com''],
     auth_sessions := [demo_session 5 1 ''h:tok'']\<rparr>"

definition demo_world :: "'l \<Rightarrow> 'c \<Rightarrow> ('l, 'c) world" where
  "demo_world l c = \<lparr>w_db = demo_database, w_lim = l, w_client = c, w_in_tx = False, w_log = [],
     w_clock = (\<lambda>n. seconds (60 + int n)), w_clock_n = 0,
     w_tokens = (\<lambda>n. ''token'' @ show_num 10 (int n)), w_token_n = 0,
     w_uuids = (\<lambda>n. 100 + n), w_uuid_n = 0, w_salt_n = 0, w_locks = (\<lambda>_. True), w_lock_n = 0\<rparr>"

lemma demo_database_inv: "app_inv default_auth_settings {1, 2} demo_database"
  unfolding app_inv_def db_ok_def by code_simp

end
