(* ===== verification/Auth_Repository.thy ===== *)
theory Auth_Repository
  imports Invariants
begin

text \<open>
  \<open>AuthRepository\<close> (\<^verbatim>\<open>app/services/auth_repository.py\<close>): users, sessions, identities, OpenID Connect
  states and the audit log. One definition per method, with its queries, guards and exceptions;
  every method works in a \<open>session_scope\<close>.

  Where the source refreshes the object after the write, the result is the stored row; where it
  does not (\<open>touch_session\<close>), the result keeps the instants as they were passed. A row object that
  the caller constructs draws its identifier from \<open>uuid4\<close> before the call.

  The lemmas: every method keeps the constraints of the database; the aggregation of rejected
  session replays keeps its counters consistent and its list of addresses bounded.
\<close>

subsection \<open>Users\<close>

definition create_user :: "string \<Rightarrow> string option \<Rightarrow> string \<Rightarrow> ('l, 'c, user) prog" where
  "create_user email password_hash language_code =
     session_scope (
       bind uuid4 (\<lambda>i. bind utcnow (\<lambda>registered_at. bind utcnow (\<lambda>modified_at.
       let u = \<lparr>u_id = i, u_email = email, u_password_hash = password_hash, u_is_active = True,
                u_language_code = language_code, u_registered_at = trunc_ms registered_at,
                u_modified_at = trunc_ms modified_at, u_last_logged_in_at = None, u_deleted_at = None\<rparr> in
       seq (on_integrity_error (insert_user u) EmailAlreadyRegisteredError) (ok u)))))"

definition update_user_language :: "uuid \<Rightarrow> string \<Rightarrow> datetime \<Rightarrow> ('l, 'c, user) prog" where
  "update_user_language user_id language_code modified_at =
     session_scope (
       bind (get_user_row user_id) (\<lambda>user. case user of
         None \<Rightarrow> raise (UserNotFoundError user_id)
       | Some u \<Rightarrow>
           if u_deleted_at u \<noteq> None then raise (UserNotFoundError user_id)
           else
             let g = (\<lambda>x. x\<lparr>u_language_code := language_code, u_modified_at := trunc_ms modified_at\<rparr>) in
             seq (update_users (\<lambda>x. u_id x = user_id) g) (ok (g u))))"

definition find_user_by_email :: "string \<Rightarrow> ('l, 'c, user option) prog" where
  "find_user_by_email normalized_email =
     session_scope (query_one (\<lambda>d.
       filter (\<lambda>u. lower (u_email u) = normalized_email \<and> u_deleted_at u = None) (users d)))"

definition find_user_by_verified_email_for_oidc_link :: "string \<Rightarrow> ('l, 'c, user option) prog" where
  "find_user_by_verified_email_for_oidc_link email =
     (let normalized_email = normalize_email email in
      session_scope (query_one (\<lambda>d.
        filter (\<lambda>u. lower (u_email u) = normalized_email \<and> u_deleted_at u = None \<and> u_is_active u) (users d))))"

definition find_user_by_email_for_oidc_collision :: "string \<Rightarrow> ('l, 'c, user option) prog" where
  "find_user_by_email_for_oidc_collision email =
     (let normalized_email = normalize_email email in
      session_scope (query_one (\<lambda>d.
        filter (\<lambda>u. lower (u_email u) = normalized_email \<and> u_deleted_at u = None) (users d))))"

definition find_user_by_id_for_authentication :: "uuid \<Rightarrow> ('l, 'c, user option) prog" where
  "find_user_by_id_for_authentication user_id =
     session_scope (query_one (\<lambda>d. filter (\<lambda>u. u_id u = user_id) (users d)))"

subsection \<open>Identities\<close>

definition find_identity_by_provider_subject :: "string \<Rightarrow> string \<Rightarrow> ('l, 'c, auth_identity option) prog" where
  "find_identity_by_provider_subject provider_id provider_subject =
     session_scope (query_one (\<lambda>d.
       filter (\<lambda>i. i_provider_id i = provider_id \<and> i_provider_subject i = provider_subject) (auth_identities d)))"

definition find_identities_by_user_id :: "uuid \<Rightarrow> ('l, 'c, auth_identity list) prog" where
  "find_identities_by_user_id user_id =
     session_scope (query (\<lambda>d.
       sort_key (\<lambda>i. (i_linked_at i, i_id i))
         (concat (map (\<lambda>i. map (\<lambda>_. i) (filter (\<lambda>u. i_user_id i = u_id u \<and> u_deleted_at u = None) (users d)))
            (filter (\<lambda>i. i_user_id i = user_id) (auth_identities d))))))"

text \<open>The instant of linking is the default of its column, set when the row is written.\<close>

definition create_auth_identity :: "auth_identity \<Rightarrow> ('l, 'c, auth_identity) prog" where
  "create_auth_identity identity =
     session_scope (
       bind utcnow (\<lambda>linked_at.
       let i = identity\<lparr>i_linked_at := trunc_ms linked_at\<rparr> in
       seq (insert_identity i) (ok i)))"

definition delete_auth_identities_for_user :: "uuid \<Rightarrow> ('l, 'c, nat) prog" where
  "delete_auth_identities_for_user user_id =
     session_scope (
       bind (query (\<lambda>d. length (filter (\<lambda>i. i_user_id i = user_id) (auth_identities d)))) (\<lambda>n.
       seq (modify_db (\<lambda>d. d\<lparr>auth_identities := filter (\<lambda>i. i_user_id i \<noteq> user_id) (auth_identities d)\<rparr>))
         (ok n)))"

subsection \<open>Sessions\<close>

definition create_session ::
    "uuid \<Rightarrow> string \<Rightarrow> string \<Rightarrow> datetime \<Rightarrow> datetime \<Rightarrow> datetime \<Rightarrow> string option \<Rightarrow> string option
      \<Rightarrow> ('l, 'c, auth_session) prog" where
  "create_session user_id session_token_hash csrf_token_hash issued_at last_seen_at expires_at ip_address user_agent =
     session_scope (
       bind uuid4 (\<lambda>i.
       insert_session \<lparr>s_id = i, s_user_id = user_id, s_session_token_hash = session_token_hash,
         s_csrf_token_hash = csrf_token_hash, s_issued_at = trunc_ms issued_at,
         s_last_seen_at = trunc_ms last_seen_at, s_expires_at = trunc_ms expires_at, s_revoked_at = None,
         s_last_oidc_authenticated_at = None, s_ip_address = ip_address, s_user_agent = user_agent\<rparr>))"

definition find_active_session_by_token_hash :: "string \<Rightarrow> ('l, 'c, auth_session option) prog" where
  "find_active_session_by_token_hash token_hash =
     bind utcnow (\<lambda>now.
     session_scope (query_one (\<lambda>d.
       filter (\<lambda>s. s_session_token_hash s = token_hash \<and> s_revoked_at s = None
                   \<and> s_expires_at s > trunc_ms now) (auth_sessions d))))"

definition find_session_by_token_hash :: "string \<Rightarrow> ('l, 'c, auth_session option) prog" where
  "find_session_by_token_hash token_hash =
     session_scope (query_one (\<lambda>d. filter (\<lambda>s. s_session_token_hash s = token_hash) (auth_sessions d)))"

definition update_session_csrf_token_hash :: "uuid \<Rightarrow> string \<Rightarrow> ('l, 'c, auth_session) prog" where
  "update_session_csrf_token_hash session_id csrf_token_hash =
     session_scope (
       bind (get_session_row session_id) (\<lambda>found. case found of
         None \<Rightarrow> raise (AuthSessionNotFoundError session_id)
       | Some s \<Rightarrow>
           let g = (\<lambda>x. x\<lparr>s_csrf_token_hash := csrf_token_hash\<rparr>) in
           seq (update_sessions (\<lambda>x. s_id x = session_id) g) (ok (g s))))"

definition revoke_session :: "uuid \<Rightarrow> ('l, 'c, unit) prog" where
  "revoke_session session_id =
     session_scope (
       bind (get_session_row session_id) (\<lambda>found. case found of
         None \<Rightarrow> ok ()
       | Some _ \<Rightarrow>
           bind utcnow (\<lambda>now.
             update_sessions (\<lambda>x. s_id x = session_id) (\<lambda>x. x\<lparr>s_revoked_at := Some (trunc_ms now)\<rparr>))))"

definition touch_session :: "uuid \<Rightarrow> datetime \<Rightarrow> datetime \<Rightarrow> ('l, 'c, auth_session) prog" where
  "touch_session session_id last_seen_at expires_at =
     session_scope (
       bind (get_session_row session_id) (\<lambda>found. case found of
         None \<Rightarrow> raise (AuthSessionNotFoundError session_id)
       | Some s \<Rightarrow>
           seq (update_sessions (\<lambda>x. s_id x = session_id)
                  (\<lambda>x. x\<lparr>s_last_seen_at := trunc_ms last_seen_at, s_expires_at := trunc_ms expires_at\<rparr>))
             (ok (s\<lparr>s_last_seen_at := last_seen_at, s_expires_at := expires_at\<rparr>))))"

definition record_user_login :: "uuid \<Rightarrow> datetime \<Rightarrow> ('l, 'c, user) prog" where
  "record_user_login user_id login_at =
     session_scope (
       bind (get_user_row user_id) (\<lambda>user. case user of
         None \<Rightarrow> raise (UserNotFoundError user_id)
       | Some u \<Rightarrow>
           if u_deleted_at u \<noteq> None then raise (UserNotFoundError user_id)
           else
             let g = (\<lambda>x. x\<lparr>u_last_logged_in_at := Some (trunc_ms login_at)\<rparr>) in
             seq (update_users (\<lambda>x. u_id x = user_id) g) (ok (g u))))"

definition record_oidc_login ::
    "uuid \<Rightarrow> uuid \<Rightarrow> uuid \<Rightarrow> datetime \<Rightarrow> datetime option \<Rightarrow> ('l, 'c, unit) prog" where
  "record_oidc_login user_id identity_id session_id login_at provider_auth_time =
     session_scope (
       bind (get_user_row user_id) (\<lambda>user. case user of
         None \<Rightarrow> raise (UserNotFoundError user_id)
       | Some u \<Rightarrow>
           if u_deleted_at u \<noteq> None then raise (UserNotFoundError user_id)
           else
             bind (get_session_row session_id) (\<lambda>found. case found of
               None \<Rightarrow> raise (AuthSessionNotFoundError session_id)
             | Some _ \<Rightarrow>
                 seq (modify_db (\<lambda>d. d\<lparr>auth_identities :=
                        update_rows (\<lambda>i. i_id i = identity_id \<and> i_user_id i = user_id)
                          (\<lambda>i. i\<lparr>i_last_logged_in_at := Some (trunc_ms login_at)\<rparr>) (auth_identities d)\<rparr>))
                (seq (case provider_auth_time of
                        None \<Rightarrow> ok ()
                      | Some t \<Rightarrow> update_sessions (\<lambda>x. s_id x = session_id)
                          (\<lambda>x. x\<lparr>s_last_oidc_authenticated_at := Some (trunc_ms t)\<rparr>))
                   (update_users (\<lambda>x. u_id x = user_id)
                      (\<lambda>x. x\<lparr>u_last_logged_in_at := Some (trunc_ms login_at)\<rparr>))))))"

definition record_oidc_reauth :: "uuid \<Rightarrow> datetime \<Rightarrow> ('l, 'c, unit) prog" where
  "record_oidc_reauth session_id auth_time =
     session_scope (
       bind (get_session_row session_id) (\<lambda>found. case found of
         None \<Rightarrow> raise (AuthSessionNotFoundError session_id)
       | Some _ \<Rightarrow> update_sessions (\<lambda>x. s_id x = session_id)
                     (\<lambda>x. x\<lparr>s_last_oidc_authenticated_at := Some (trunc_ms auth_time)\<rparr>)))"

subsection \<open>Audit log\<close>

text \<open>
  The arguments of the constructor \<open>AuthAuditLog(...)\<close>; without \<open>occurred_at\<close> the column default
  reads the clock.
\<close>

record audit_entry =
  ae_user_id :: "uuid option"
  ae_session_id :: "uuid option"
  ae_event_type :: auth_event_type
  ae_ip_address :: "string option"
  ae_user_agent :: "string option"
  ae_detail_json :: "(string \<times> json) list option"
  ae_occurred_at :: "datetime option"

definition create_audit_log :: "audit_entry \<Rightarrow> ('l, 'c, unit) prog" where
  "create_audit_log e =
     bind uuid4 (\<lambda>i.
     session_scope (
       bind (case ae_occurred_at e of None \<Rightarrow> utcnow | Some t \<Rightarrow> ok t) (\<lambda>t.
       insert_audit_log \<lparr>a_id = i, a_user_id = ae_user_id e, a_session_id = ae_session_id e,
         a_event_type = ae_event_type e, a_ip_address = ae_ip_address e, a_user_agent = ae_user_agent e,
         a_detail_json = ae_detail_json e, a_occurred_at = trunc_ms t\<rparr>)))"

subsection \<open>Account deletion and revocation\<close>

definition mark_user_deleted :: "uuid \<Rightarrow> datetime \<Rightarrow> uuid option \<Rightarrow> string option \<Rightarrow> ('l, 'c, user) prog" where
  "mark_user_deleted user_id deleted_at session_id ip_address =
     session_scope (
       let P = (\<lambda>u. u_id u = user_id \<and> u_deleted_at u = None) in
       bind (query (\<lambda>d. length (filter P (users d)))) (\<lambda>rowcount.
       seq (update_users P (\<lambda>u. u\<lparr>u_deleted_at := Some (trunc_ms deleted_at), u_modified_at := trunc_ms deleted_at\<rparr>))
      (if rowcount = 0 then
         bind (get_user_row user_id) (\<lambda>existing. case existing of
           None \<Rightarrow> raise (UserNotFoundError user_id) | Some u \<Rightarrow> ok u)
       else
         seq (create_audit_log \<lparr>ae_user_id = Some user_id, ae_session_id = session_id,
                ae_event_type = USER_MARKED_DELETED, ae_ip_address = ip_address, ae_user_agent = None,
                ae_detail_json = None, ae_occurred_at = Some deleted_at\<rparr>)
        (bind (get_user_row user_id) (\<lambda>deleted. case deleted of
           None \<Rightarrow> raise (UserNotFoundError user_id) | Some u \<Rightarrow> ok u)))))"

definition revoke_sessions_for_user :: "uuid \<Rightarrow> datetime \<Rightarrow> ('l, 'c, nat) prog" where
  "revoke_sessions_for_user user_id revoked_at =
     session_scope (
       let P = (\<lambda>s. s_user_id s = user_id \<and> s_revoked_at s = None) in
       bind (query (\<lambda>d. length (filter P (auth_sessions d)))) (\<lambda>n.
       seq (update_sessions P (\<lambda>s. s\<lparr>s_revoked_at := Some (trunc_ms revoked_at)\<rparr>)) (ok n)))"

definition delete_sessions_expired_before :: "datetime \<Rightarrow> ('l, 'c, nat) prog" where
  "delete_sessions_expired_before expired_before =
     session_scope (
       let P = (\<lambda>s. s_expires_at s < trunc_ms expired_before) in
       bind (query (\<lambda>d. length (filter P (auth_sessions d)))) (\<lambda>n.
       seq (modify_db (delete_sessions P)) (ok n)))"

definition delete_audit_logs_occurred_before :: "datetime \<Rightarrow> ('l, 'c, nat) prog" where
  "delete_audit_logs_occurred_before occurred_before =
     session_scope (
       let P = (\<lambda>a. a_occurred_at a < trunc_ms occurred_before) in
       bind (query (\<lambda>d. length (filter P (auth_audit_logs d)))) (\<lambda>n.
       seq (modify_db (\<lambda>d. d\<lparr>auth_audit_logs := filter (\<lambda>a. \<not> P a) (auth_audit_logs d)\<rparr>)) (ok n)))"

subsection \<open>OpenID Connect states\<close>

definition create_oidc_authorization_state :: "auth_oidc_state \<Rightarrow> ('l, 'c, auth_oidc_state) prog" where
  "create_oidc_authorization_state state =
     session_scope (
       let x = state\<lparr>o_expires_at := trunc_ms (o_expires_at state)\<rparr> in
       seq (insert_oidc_state x) (ok x))"

definition consume_oidc_authorization_state ::
    "string \<Rightarrow> string \<Rightarrow> datetime \<Rightarrow> ('l, 'c, consume_status \<times> auth_oidc_state option) prog" where
  "consume_oidc_authorization_state state_hash browser_binding_hash consumed_at =
     session_scope (
       bind (query_one (\<lambda>d. filter (\<lambda>x. o_state_hash x = state_hash) (oidc_states d))) (\<lambda>found. case found of
         None \<Rightarrow> ok (State_mismatch, None)
       | Some x \<Rightarrow>
           if o_consumed_at x \<noteq> None then ok (Already_consumed, Some x)
           else if o_expires_at x \<le> consumed_at then ok (Expired, Some x)
           else if o_browser_binding_hash x \<noteq> browser_binding_hash then ok (Browser_binding_mismatch, Some x)
           else
             let g = (\<lambda>y. y\<lparr>o_consumed_at := Some (trunc_ms consumed_at)\<rparr>) in
             seq (modify_db (\<lambda>d. d\<lparr>oidc_states := update_rows (\<lambda>y. o_id y = o_id x) g (oidc_states d)\<rparr>))
               (ok (Consumed, Some (g x)))))"

definition delete_oidc_states_expired_before :: "datetime \<Rightarrow> ('l, 'c, nat) prog" where
  "delete_oidc_states_expired_before expired_before =
     session_scope (
       let P = (\<lambda>x. o_expires_at x < trunc_ms expired_before \<or>
                    (case o_consumed_at x of None \<Rightarrow> False | Some t \<Rightarrow> t < trunc_ms expired_before)) in
       bind (query (\<lambda>d. length (filter P (oidc_states d)))) (\<lambda>n.
       seq (modify_db (\<lambda>d. d\<lparr>oidc_states := filter (\<lambda>x. \<not> P x) (oidc_states d)\<rparr>)) (ok n)))"

subsection \<open>Rejected session replays\<close>

definition RECENT_REPLAY_IP_LIMIT :: nat where
  "RECENT_REPLAY_IP_LIMIT = 10"

text \<open>\<open>isinstance(v, int)\<close>, which includes \<open>bool\<close>.\<close>

definition json_int :: "json \<Rightarrow> int option" where
  "json_int v = (case v of JInt n \<Rightarrow> Some n | JBool b \<Rightarrow> Some (of_bool b) | _ \<Rightarrow> None)"

definition recent_ip_addresses :: "(string \<times> json) list \<Rightarrow> string list" where
  "recent_ip_addresses detail_json =
     (case map_of detail_json ''recent_ip_addresses'' of
        Some (JList xs) \<Rightarrow> List.map_filter (\<lambda>x. case x of JStr a \<Rightarrow> Some a | _ \<Rightarrow> None) xs
      | _ \<Rightarrow> [])"

definition distinct_ip_count :: "(string \<times> json) list \<Rightarrow> string list \<Rightarrow> int" where
  "distinct_ip_count detail_json recent =
     (case map_of detail_json ''distinct_ip_count'' of
        None \<Rightarrow> max (int (length recent)) (int (length recent))
      | Some v \<Rightarrow> (case json_int v of
                     Some n \<Rightarrow> max n (int (length recent)) | None \<Rightarrow> int (length recent)))"

definition replay_count :: "(string \<times> json) list \<Rightarrow> int" where
  "replay_count detail_json =
     (case map_of detail_json ''replay_count'' of
        None \<Rightarrow> max 0 0
      | Some v \<Rightarrow> (case json_int v of Some n \<Rightarrow> max n 0 | None \<Rightarrow> 0))"

definition json_str_option :: "string option \<Rightarrow> json" where
  "json_str_option v = (case v of None \<Rightarrow> JNull | Some x \<Rightarrow> JStr x)"

definition replay_detail_json ::
    "(string \<times> json) list option \<Rightarrow> string option \<Rightarrow> string option \<Rightarrow> datetime \<Rightarrow> int \<Rightarrow> (string \<times> json) list" where
  "replay_detail_json detail ip_address user_agent replayed_at window_seconds =
     (let detail_json = (case detail of None \<Rightarrow> [] | Some d \<Rightarrow> d);
          recent = recent_ip_addresses detail_json;
          count = distinct_ip_count detail_json recent;
          (count', recent') =
            (case ip_address of
               None \<Rightarrow> (count, recent)
             | Some ip \<Rightarrow>
                 if ip \<in> set recent then (count, recent)
                 else (count + 1, drop (length recent + 1 - RECENT_REPLAY_IP_LIMIT) (recent @ [ip])))
      in AList.update ''window_seconds'' (JInt window_seconds)
        (AList.update ''replay_count'' (JInt (replay_count detail_json + 1))
        (AList.update ''recent_ip_addresses'' (JList (map JStr recent'))
        (AList.update ''last_replayed_at'' (JStr (isoformat replayed_at))
        (AList.update ''last_user_agent'' (json_str_option user_agent)
        (AList.update ''last_ip_address'' (json_str_option ip_address)
        (AList.update ''distinct_ip_count'' (JInt count') detail_json)))))))"

text \<open>\<open>ORDER BY occurred_at DESC, id DESC LIMIT 1\<close>\<close>

definition latest_audit_log :: "auth_audit_log list \<Rightarrow> auth_audit_log option" where
  "latest_audit_log rows =
     (if rows = [] then None else Some (last (sort_key (\<lambda>a. (a_occurred_at a, a_id a)) rows)))"

definition record_rejected_session_replay ::
    "auth_session \<Rightarrow> string option \<Rightarrow> string option \<Rightarrow> datetime \<Rightarrow> int \<Rightarrow> ('l, 'c, unit) prog" where
  "record_rejected_session_replay auth_session ip_address user_agent replayed_at window_seconds =
     session_scope (
       bind try_advisory_lock (\<lambda>locked.
       if \<not> locked then ok ()
       else
         let window_started_at = replayed_at - seconds window_seconds in
         bind (query (\<lambda>d. latest_audit_log (filter (\<lambda>a.
             a_session_id a = Some (s_id auth_session) \<and> a_event_type a = SESSION_REJECTED
             \<and> a_occurred_at a \<ge> trunc_ms window_started_at
             \<and> (case a_detail_json a of None \<Rightarrow> False | Some j \<Rightarrow> map_of j ''replay_count'' \<noteq> None))
             (auth_audit_logs d)))) (\<lambda>found. case found of
           None \<Rightarrow>
             create_audit_log \<lparr>ae_user_id = Some (s_user_id auth_session),
               ae_session_id = Some (s_id auth_session), ae_event_type = SESSION_REJECTED,
               ae_ip_address = ip_address, ae_user_agent = user_agent,
               ae_detail_json = Some (replay_detail_json None ip_address user_agent replayed_at window_seconds),
               ae_occurred_at = Some replayed_at\<rparr>
         | Some audit_log \<Rightarrow>
             modify_db (\<lambda>d. d\<lparr>auth_audit_logs := update_rows (\<lambda>a. a_id a = a_id audit_log)
               (\<lambda>a. a\<lparr>a_detail_json := Some (replay_detail_json (a_detail_json audit_log) ip_address user_agent
                        replayed_at window_seconds)\<rparr>) (auth_audit_logs d)\<rparr>))))"

definition rejected_session_replay_lock_object_id :: "uuid \<Rightarrow> nat" where
  "rejected_session_replay_lock_object_id session_id = session_id mod 2147483648"

subsection \<open>Every method keeps the invariant\<close>

lemma keeps_create_user:
  "keeps (winv (app_inv S X) L) (create_user email ph lang)"
proof -
  have "app_inv S X (d\<lparr>users := users d @ [u]\<rparr>)"
    if "app_inv S X d" "users_ok (d\<lparr>users := users d @ [u]\<rparr>)" "u_deleted_at u = None" for d u
    using app_inv_insert_user [OF that] by (rule app_inv_subset) blast
  then show ?thesis
    unfolding create_user_def insert_user_def Let_def
    by (intro keeps_intros keeps_statement) auto
qed

lemma wp_create_user_live:
  assumes "winv (app_inv S X) L s"
  shows "wp (create_user email ph lang) (\<lambda>u. winv (app_inv S (insert (u_id u) X)) L) (\<lambda>_. winv (app_inv S X) L) s"
  using assms
  by (auto simp: create_user_def insert_user_def wp_session_scope wp_simps Let_def winv_def dest: app_inv_insert_user)

lemma keeps_update_user_language [keeps_intros]:
  "keeps (winv (app_inv S X) L) (update_user_language uid lang t)"
  unfolding update_user_language_def Let_def
  by (intro keeps_intros keeps_update_users) auto

lemma keeps_user_queries [keeps_intros]:
  "keeps (winv P L) (find_user_by_email em)"
  "keeps (winv P L) (find_user_by_verified_email_for_oidc_link em)"
  "keeps (winv P L) (find_user_by_email_for_oidc_collision em)"
  "keeps (winv P L) (find_user_by_id_for_authentication uid)"
  "keeps (winv P L) (find_identity_by_provider_subject p sub)"
  "keeps (winv P L) (find_identities_by_user_id uid)"
  "keeps (winv P L) (find_active_session_by_token_hash h)"
  "keeps (winv P L) (find_session_by_token_hash h)"
  unfolding find_user_by_email_def find_user_by_verified_email_for_oidc_link_def
    find_user_by_email_for_oidc_collision_def find_user_by_id_for_authentication_def
    find_identity_by_provider_subject_def find_identities_by_user_id_def
    find_active_session_by_token_hash_def find_session_by_token_hash_def Let_def
  by (intro keeps_intros)+

lemma keeps_create_auth_identity:
  "i_user_id i \<in> X \<Longrightarrow> keeps (winv (app_inv S X) L) (create_auth_identity i)"
  unfolding create_auth_identity_def Let_def
  by (intro keeps_intros keeps_insert_identity) simp

lemma keeps_delete_auth_identities [keeps_intros]:
  "keeps (winv (app_inv S X) L) (delete_auth_identities_for_user uid)"
proof -
  have "app_inv S X (d\<lparr>auth_identities := filter (\<lambda>i. i_user_id i \<noteq> uid) (auth_identities d)\<rparr>)" if "app_inv S X d" for d
    using that by (intro app_inv_identities)
      (auto simp: app_inv_def db_ok_def identities_ok_def tombstones_ok_def distinct_map_filter)
  then show ?thesis unfolding delete_auth_identities_for_user_def
    by (intro keeps_intros keeps_modify_db)
qed

lemma keeps_create_session:
  assumes "uid \<in> X" "e = calculate_session_expiry S i l"
  shows "keeps (winv (app_inv S X) L) (create_session uid th ch i l e ip ua)"
proof -
  have "trunc_ms e \<le> trunc_ms i + seconds (AUTH_SESSION_ABSOLUTE_TTL_SECONDS S)"
    using trunc_ms_mono [OF session_expiry_bounds(1) [of S i l]] by (simp add: assms(2))
  moreover have "trunc_ms e \<le> trunc_ms l + seconds (AUTH_SESSION_IDLE_TTL_SECONDS S)"
    using trunc_ms_mono [OF session_expiry_bounds(2) [of S i l]] by (simp add: assms(2))
  ultimately show ?thesis
    unfolding create_session_def
    by (intro keeps_intros keeps_insert_session) (simp_all add: assms(1) lifetime_ok_def)
qed

lemma keeps_update_csrf [keeps_intros]:
  "keeps (winv (app_inv S X) L) (update_session_csrf_token_hash sid h)"
  unfolding update_session_csrf_token_hash_def Let_def
  by (intro keeps_intros keeps_update_sessions) (auto simp: lifetime_ok_def)

lemma keeps_revoke_session [keeps_intros]: "keeps (winv (app_inv S X) L) (revoke_session sid)"
  unfolding revoke_session_def
  by (intro keeps_intros keeps_update_sessions) (auto simp: lifetime_ok_def)

lemma keeps_record_oidc_reauth [keeps_intros]: "keeps (winv (app_inv S X) L) (record_oidc_reauth sid t)"
  unfolding record_oidc_reauth_def
  by (intro keeps_intros keeps_update_sessions) (auto simp: lifetime_ok_def)

lemma keeps_record_user_login [keeps_intros]: "keeps (winv (app_inv S X) L) (record_user_login uid t)"
  unfolding record_user_login_def Let_def
  by (intro keeps_intros keeps_update_users) auto

lemma wp_record_user_login:
  "wp (record_user_login uid t) Q E s \<longleftrightarrow>
     (case List.find (\<lambda>u. u_id u = uid) (users (w_db s)) of
        None \<Rightarrow> E (UserNotFoundError uid) s
      | Some u \<Rightarrow>
          if u_deleted_at u \<noteq> None then E (UserNotFoundError uid) s
          else
            let d' = (w_db s)\<lparr>users := update_rows (\<lambda>x. u_id x = uid)
                        (\<lambda>x. x\<lparr>u_last_logged_in_at := Some (trunc_ms t)\<rparr>) (users (w_db s))\<rparr> in
            if users_ok d' then Q (u\<lparr>u_last_logged_in_at := Some (trunc_ms t)\<rparr>) (s\<lparr>w_db := d'\<rparr>)
            else E IntegrityError s)"
  by (auto simp: record_user_login_def update_users_def wp_session_scope wp_simps Let_def split: option.splits)

lemma record_user_login_live:
  assumes "winv (app_inv S X) L s"
  shows "wp (record_user_login uid t) (\<lambda>u t. winv (app_inv S (insert uid X)) L t \<and> u_id u = uid)
           (\<lambda>_. winv (app_inv S X) L) s"
proof -
  have "wp (record_user_login uid t) (\<lambda>_. winv (app_inv S X) L) (\<lambda>_. winv (app_inv S X) L) s"
    by (rule keeps_wp [OF keeps_record_user_login assms])
  moreover have "wp (record_user_login uid t) (\<lambda>u t. uid \<in> live_ids (w_db t) \<and> u_id u = uid) (\<lambda>_ _. True) s"
    by (auto simp: wp_record_user_login Let_def live_dead_update split: option.splits
        intro: live_idsI dest!: find_id_Some)
  ultimately show ?thesis
    by (rule wp_mono [OF wp_conj]) (auto simp: winv_def app_inv_def)
qed

lemma app_inv_update_identities:
  assumes "app_inv S X d" "\<And>i. i_id (g i) = i_id i" "\<And>i. i_user_id (g i) = i_user_id i"
    "\<And>i. i_provider_id (g i) = i_provider_id i" "\<And>i. i_provider_subject (g i) = i_provider_subject i"
  shows "app_inv S X (d\<lparr>auth_identities := update_rows P g (auth_identities d)\<rparr>)"
  using assms
  by (intro app_inv_identities)
    (auto simp: app_inv_def db_ok_def identities_ok_def tombstones_ok_def set_update_rows image_iff
      dest!: subsetD)

lemma keeps_record_oidc_login [keeps_intros]:
  "keeps (winv (app_inv S X) L) (record_oidc_login uid iid sid t pt)"
  unfolding record_oidc_login_def
  by (intro keeps_intros keeps_update_sessions keeps_update_users keeps_modify_db app_inv_update_identities)
    (auto simp: lifetime_ok_def)

lemma keeps_create_audit_log [keeps_intros]: "keeps (winv (app_inv S X) L) (create_audit_log e)"
  unfolding create_audit_log_def
  by (intro keeps_intros)

lemma keeps_revoke_sessions_for_user [keeps_intros]:
  "keeps (winv (app_inv S X) L) (revoke_sessions_for_user uid t)"
  unfolding revoke_sessions_for_user_def Let_def
  by (intro keeps_intros keeps_update_sessions) (auto simp: lifetime_ok_def)

lemma keeps_prune [keeps_intros]:
  "keeps (winv (app_inv S X) L) (delete_sessions_expired_before t)"
  "keeps (winv (app_inv S X) L) (delete_audit_logs_occurred_before t)"
  "keeps (winv (app_inv S X) L) (delete_oidc_states_expired_before t)"
proof -
  show "keeps (winv (app_inv S X) L) (delete_sessions_expired_before t)"
    unfolding delete_sessions_expired_before_def Let_def
    by (intro keeps_intros keeps_modify_db app_inv_delete_sessions)
  show "keeps (winv (app_inv S X) L) (delete_audit_logs_occurred_before t)"
    unfolding delete_audit_logs_occurred_before_def Let_def
    by (intro keeps_intros keeps_modify_db app_inv_audit_logs)
      (auto simp: app_inv_def db_ok_def audit_logs_ok_def distinct_map_filter)
  show "keeps (winv (app_inv S X) L) (delete_oidc_states_expired_before t)"
    unfolding delete_oidc_states_expired_before_def Let_def
    by (intro keeps_intros keeps_modify_db app_inv_oidc_states)
      (auto simp: app_inv_def db_ok_def oidc_states_ok_def distinct_map_filter)
qed

lemma keeps_create_oidc_state [keeps_intros]:
  "keeps (winv (app_inv S X) L) (create_oidc_authorization_state x)"
  unfolding create_oidc_authorization_state_def Let_def
  by (intro keeps_intros)

lemma keeps_consume_oidc_state [keeps_intros]:
  "keeps (winv (app_inv S X) L) (consume_oidc_authorization_state h b t)"
  unfolding consume_oidc_authorization_state_def Let_def
  by (intro keeps_intros keeps_modify_db app_inv_oidc_states)
    (auto simp: app_inv_def db_ok_def oidc_states_ok_def set_update_rows)

lemma keeps_record_rejected [keeps_intros]:
  "keeps (winv (app_inv S X) L) (record_rejected_session_replay s ip ua t w)"
  unfolding record_rejected_session_replay_def Let_def
  by (intro keeps_intros keeps_modify_db app_inv_audit_logs)
    (auto simp: app_inv_def db_ok_def audit_logs_ok_def set_update_rows)

subsection \<open>Queries by unique keys\<close>

text \<open>In a database that satisfies its constraints these queries never raise.\<close>

definition session_in_force :: "string \<Rightarrow> datetime \<Rightarrow> auth_session \<Rightarrow> bool" where
  "session_in_force h now x =
     (s_session_token_hash x = h \<and> s_revoked_at x = None \<and> s_expires_at x > trunc_ms now)"

lemma wp_find_active_session:
  assumes "db_ok (w_db s)"
  shows "wp (find_active_session_by_token_hash h) Q E s \<longleftrightarrow>
    (if \<exists>x \<in> set (auth_sessions (w_db s)). session_in_force h (w_clock s (w_clock_n s)) x
     then \<exists>x \<in> set (auth_sessions (w_db s)). session_in_force h (w_clock s (w_clock_n s)) x
            \<and> Q (Some x) (s\<lparr>w_clock_n := Suc (w_clock_n s)\<rparr>)
     else Q None (s\<lparr>w_clock_n := Suc (w_clock_n s)\<rparr>))"
  unfolding find_active_session_by_token_hash_def wp_bind wp_utcnow
  by (subst wp_scoped_query_unique [where rows = auth_sessions and f = s_session_token_hash and k = h])
    (use db_ok_distinct(4) [OF assms] in \<open>auto simp: session_in_force_def\<close>)

lemma wp_find_session:
  assumes "db_ok (w_db s)"
  shows "wp (find_session_by_token_hash h) Q E s \<longleftrightarrow>
    (if \<exists>x \<in> set (auth_sessions (w_db s)). s_session_token_hash x = h
     then \<exists>x \<in> set (auth_sessions (w_db s)). s_session_token_hash x = h \<and> Q (Some x) s else Q None s)"
  unfolding find_session_by_token_hash_def
  by (rule wp_scoped_query_unique [where rows = auth_sessions and f = s_session_token_hash and k = h])
    (use db_ok_distinct(4) [OF assms] in auto)

lemma wp_find_user_by_id:
  assumes "db_ok (w_db s)"
  shows "wp (find_user_by_id_for_authentication uid) Q E s \<longleftrightarrow>
    (if \<exists>x \<in> set (users (w_db s)). u_id x = uid
     then \<exists>x \<in> set (users (w_db s)). u_id x = uid \<and> Q (Some x) s else Q None s)"
  unfolding find_user_by_id_for_authentication_def
  by (rule wp_scoped_query_unique [where rows = users and f = u_id and k = uid])
    (use db_ok_distinct(1) [OF assms] in auto)

lemma wp_find_by_active_email:
  assumes "db_ok (w_db s)"
  shows "wp (session_scope (query_one (\<lambda>d. filter (\<lambda>u. lower (u_email u) = em \<and> u_deleted_at u = None \<and> R u) (users d)))) Q E s \<longleftrightarrow>
    (if \<exists>x \<in> set (users (w_db s)). lower (u_email x) = em \<and> u_deleted_at x = None \<and> R x
     then \<exists>x \<in> set (users (w_db s)). (lower (u_email x) = em \<and> u_deleted_at x = None \<and> R x) \<and> Q (Some x) s
     else Q None s)"
proof -
  have e: "(\<lambda>d. filter (\<lambda>u. lower (u_email u) = em \<and> u_deleted_at u = None \<and> R u) (users d)) =
      (\<lambda>d. filter (\<lambda>u. lower (u_email u) = em \<and> R u) (filter (\<lambda>u. u_deleted_at u = None) (users d)))"
    by (simp add: filter_filter conj_ac fun_eq_iff)
  show ?thesis
    unfolding e
    by (subst wp_scoped_query_unique [where rows = "\<lambda>d. filter (\<lambda>u. u_deleted_at u = None) (users d)"
          and f = "\<lambda>u. lower (u_email u)" and k = em])
      (use db_ok_distinct(2) [OF assms] in \<open>auto simp: active_emails_def\<close>)
qed

lemma wp_find_user_by_email:
  assumes "db_ok (w_db s)"
  shows "wp (find_user_by_email em) Q E s \<longleftrightarrow>
    (if \<exists>x \<in> set (users (w_db s)). lower (u_email x) = em \<and> u_deleted_at x = None
     then \<exists>x \<in> set (users (w_db s)). (lower (u_email x) = em \<and> u_deleted_at x = None) \<and> Q (Some x) s
     else Q None s)"
  using wp_find_by_active_email [OF assms, of em "\<lambda>_. True" Q E]
  by (simp only: find_user_by_email_def simp_thms)

lemma wp_find_identity:
  assumes "db_ok (w_db s)"
  shows "wp (find_identity_by_provider_subject p sub) Q E s \<longleftrightarrow>
    (if \<exists>x \<in> set (auth_identities (w_db s)). i_provider_id x = p \<and> i_provider_subject x = sub
     then \<exists>x \<in> set (auth_identities (w_db s)). (i_provider_id x = p \<and> i_provider_subject x = sub) \<and> Q (Some x) s
     else Q None s)"
  unfolding find_identity_by_provider_subject_def
  by (rule wp_scoped_query_unique [where rows = auth_identities
        and f = "\<lambda>i. (i_provider_id i, i_provider_subject i)" and k = "(p, sub)"])
    (use db_ok_distinct(5) [OF assms] in auto)

lemma touch_session_inv:
  assumes inv: "winv (app_inv S X) L s" and a: "a \<in> set (auth_sessions (w_db s))"
    and e: "e = calculate_session_expiry S (s_issued_at a) now"
  shows "wp (touch_session (s_id a) now e) (\<lambda>_. winv (app_inv S X) L) (\<lambda>_. winv (app_inv S X) L) s"
proof -
  let ?d = "w_db s"
  let ?g = "\<lambda>x. x\<lparr>s_last_seen_at := trunc_ms now, s_expires_at := trunc_ms e\<rparr>"
  have i: "app_inv S X ?d" using inv by (simp add: winv_def)
  have "lifetime_ok S (?g x)" if "x \<in> set (auth_sessions ?d)" "s_id x = s_id a" for x
  proof -
    have "x = a" using that a db_ok_distinct(3) [OF app_invD(1) [OF i]] by (meson distinct_map inj_onD)
    moreover have "trunc_ms e \<le> s_issued_at a + seconds (AUTH_SESSION_ABSOLUTE_TTL_SECONDS S)"
      using trunc_ms_le [of e] session_expiry_bounds(1) [of S "s_issued_at a" now] by (simp add: e)
    moreover have "trunc_ms e \<le> trunc_ms now + seconds (AUTH_SESSION_IDLE_TTL_SECONDS S)"
      using trunc_ms_mono [OF session_expiry_bounds(2) [of S "s_issued_at a" now]] by (simp add: e)
    ultimately show ?thesis by (simp add: lifetime_ok_def)
  qed
  then have "app_inv S X (?d\<lparr>auth_sessions := update_rows (\<lambda>x. s_id x = s_id a) ?g (auth_sessions ?d)\<rparr>)"
    if "sessions_ok (?d\<lparr>auth_sessions := update_rows (\<lambda>x. s_id x = s_id a) ?g (auth_sessions ?d)\<rparr>)"
    using that by (intro app_inv_update_sessions [OF i]) auto
  with inv show ?thesis
    by (auto simp: touch_session_def update_sessions_def wp_session_scope wp_simps winv_def split: option.splits)
qed

subsection \<open>Aggregation of rejected replays\<close>

text \<open>The details after a sequence of replays (address, user agent, instant) in one window.\<close>

definition replay_sequence ::
    "int \<Rightarrow> (string option \<times> string option \<times> datetime) list \<Rightarrow> (string \<times> json) list option" where
  "replay_sequence w replays =
     fold (\<lambda>(ip, ua, t) j. Some (replay_detail_json j ip ua t w)) replays None"

definition detail_of :: "(string \<times> json) list option \<Rightarrow> (string \<times> json) list" where
  "detail_of j = (case j of None \<Rightarrow> [] | Some d \<Rightarrow> d)"

definition next_recent :: "string list \<Rightarrow> string option \<Rightarrow> string list" where
  "next_recent r ip = (case ip of None \<Rightarrow> r
     | Some a \<Rightarrow> if a \<in> set r then r else drop (length r + 1 - RECENT_REPLAY_IP_LIMIT) (r @ [a]))"

definition next_count :: "int \<Rightarrow> string list \<Rightarrow> string option \<Rightarrow> int" where
  "next_count n r ip = (case ip of None \<Rightarrow> n | Some a \<Rightarrow> if a \<in> set r then n else n + 1)"

lemma map_filter_JStr: "List.map_filter (\<lambda>x. case x of JStr a \<Rightarrow> Some a | _ \<Rightarrow> None) (map JStr xs) = xs"
  by (induction xs) (simp_all add: List.map_filter_simps)

lemma replay_detail_fields:
  fixes j :: "(string \<times> json) list option" and ip ua :: "string option" and t :: datetime and w :: int
  defines "r \<equiv> recent_ip_addresses (detail_of j)"
  defines "j' \<equiv> replay_detail_json j ip ua t w"
  shows "map_of j' ''recent_ip_addresses'' = Some (JList (map JStr (next_recent r ip)))"
    and "map_of j' ''distinct_ip_count'' = Some (JInt (next_count (distinct_ip_count (detail_of j) r) r ip))"
    and "map_of j' ''replay_count'' = Some (JInt (replay_count (detail_of j) + 1))"
  unfolding r_def j'_def replay_detail_json_def Let_def detail_of_def next_recent_def next_count_def
  by (cases ip; simp add: update_conv')+

lemma count_ge_recent: "int (length r) \<le> distinct_ip_count j r"
  by (auto simp: distinct_ip_count_def split: option.splits)

lemma length_next_recent:
  "length r \<le> RECENT_REPLAY_IP_LIMIT \<Longrightarrow> length (next_recent r ip) \<le> RECENT_REPLAY_IP_LIMIT"
  by (auto simp: next_recent_def RECENT_REPLAY_IP_LIMIT_def split: option.splits)

lemma distinct_next_recent: "distinct r \<Longrightarrow> distinct (next_recent r ip)"
proof (cases ip)
  case (Some a)
  assume d: "distinct r"
  show ?thesis
  proof (cases "a \<in> set r")
    case False
    with d have "distinct (r @ [a])" by simp
    then have "distinct (drop n (r @ [a]))" for n by (rule distinct_drop)
    then show ?thesis using Some False by (simp only: next_recent_def option.case if_False)
  qed (use Some d in \<open>simp add: next_recent_def\<close>)
qed (simp add: next_recent_def)

lemma next_recent_le_count:
  "int (length r) \<le> n \<Longrightarrow> int (length (next_recent r ip)) \<le> next_count n r ip"
  by (auto simp: next_recent_def next_count_def split: option.splits)

lemma replay_step:
  fixes j :: "(string \<times> json) list option" and ip ua :: "string option" and t :: datetime and w :: int
  defines "r \<equiv> recent_ip_addresses (detail_of j)"
  defines "j' \<equiv> replay_detail_json j ip ua t w"
  shows "recent_ip_addresses j' = next_recent r ip"
    and "distinct_ip_count j' (recent_ip_addresses j') = next_count (distinct_ip_count (detail_of j) r) r ip"
    and "replay_count j' = replay_count (detail_of j) + 1"
proof -
  note fields = replay_detail_fields [of j ip ua t w, folded r_def j'_def]
  show rec: "recent_ip_addresses j' = next_recent r ip"
    unfolding recent_ip_addresses_def fields(1) by (simp add: map_filter_JStr)
  have "int (length (next_recent r ip)) \<le> next_count (distinct_ip_count (detail_of j) r) r ip"
    by (intro next_recent_le_count count_ge_recent)
  then show "distinct_ip_count j' (recent_ip_addresses j') = next_count (distinct_ip_count (detail_of j) r) r ip"
    unfolding rec unfolding distinct_ip_count_def [of j'] fields(2) by (simp add: json_int_def)
  have "0 \<le> replay_count (detail_of j)" by (auto simp: replay_count_def split: option.splits)
  then show "replay_count j' = replay_count (detail_of j) + 1"
    unfolding replay_count_def [of j'] fields(3) by (simp add: json_int_def)
qed

lemma replay_sequence_snoc:
  "replay_sequence w (xs @ [(ip, ua, t)]) = Some (replay_detail_json (replay_sequence w xs) ip ua t w)"
  by (simp add: replay_sequence_def)

definition replay_addresses :: "(string option \<times> string option \<times> datetime) list \<Rightarrow> string list" where
  "replay_addresses replays = List.map_filter fst replays"

lemma replay_addresses_snoc:
  "replay_addresses (xs @ [(ip, ua, t)]) = replay_addresses xs @ (case ip of None \<Rightarrow> [] | Some a \<Rightarrow> [a])"
  by (induction xs) (auto simp: replay_addresses_def List.map_filter_simps split: option.splits)

lemma replay_sequence_counts:
  fixes w :: int and xs :: "(string option \<times> string option \<times> datetime) list"
  defines "j \<equiv> detail_of (replay_sequence w xs)"
  shows "replay_count j = int (length xs) \<and> length (recent_ip_addresses j) \<le> RECENT_REPLAY_IP_LIMIT
    \<and> set (recent_ip_addresses j) \<subseteq> set (replay_addresses xs) \<and> distinct (recent_ip_addresses j)
    \<and> (card (set (replay_addresses xs)) \<le> RECENT_REPLAY_IP_LIMIT \<longrightarrow>
         set (recent_ip_addresses j) = set (replay_addresses xs) \<and>
         distinct_ip_count j (recent_ip_addresses j) = int (card (set (replay_addresses xs))))"
  unfolding j_def
proof (induction xs rule: rev_induct)
  case Nil
  show ?case
    by (simp add: replay_sequence_def detail_of_def replay_count_def recent_ip_addresses_def
        distinct_ip_count_def replay_addresses_def List.map_filter_simps)
next
  case (snoc x xs)
  obtain ip ua t where x: "x = (ip, ua, t)" by (cases x)
  let ?j = "replay_sequence w xs" and ?r = "recent_ip_addresses (detail_of (replay_sequence w xs))"
  let ?A = "set (replay_addresses xs)"
  note step = replay_step [of ?j ip ua t w]
  have j': "detail_of (replay_sequence w (xs @ [x])) = replay_detail_json ?j ip ua t w"
    by (simp add: x replay_sequence_snoc detail_of_def)
  have adr: "set (replay_addresses (xs @ [x])) = ?A \<union> set_option ip"
    by (auto simp: x replay_addresses_snoc split: option.splits)
  have sub: "set (next_recent ?r ip) \<subseteq> set ?r \<union> set_option ip"
    by (auto simp: next_recent_def split: option.splits if_splits dest: in_set_dropD)
  have exact: "set (next_recent ?r ip) = ?A \<union> set_option ip \<and>
      next_count (distinct_ip_count (detail_of ?j) ?r) ?r ip = int (card (?A \<union> set_option ip))"
    if le: "card (?A \<union> set_option ip) \<le> RECENT_REPLAY_IP_LIMIT"
  proof -
    have "card ?A \<le> card (?A \<union> set_option ip)" by (rule card_mono) auto
    with le snoc.IH have r: "set ?r = ?A" "distinct_ip_count (detail_of ?j) ?r = int (card ?A)" by auto
    show ?thesis
    proof (cases ip)
      case None
      with r show ?thesis by (simp add: next_recent_def next_count_def)
    next
      case (Some a)
      show ?thesis
      proof (cases "a \<in> ?A")
        case True
        with r Some show ?thesis by (simp add: next_recent_def next_count_def insert_absorb)
      next
        case False
        then have "card (?A \<union> set_option ip) = Suc (card ?A)" using Some by simp
        moreover have "length ?r = card ?A" using r snoc.IH distinct_card by metis
        ultimately show ?thesis using False Some r le by (simp add: next_recent_def next_count_def)
      qed
    qed
  qed
  have "distinct (next_recent ?r ip)" using snoc.IH by (blast intro: distinct_next_recent)
  then show ?case
    unfolding j' adr step(1,3) step(2) [unfolded step(1)]
    using snoc.IH sub exact length_next_recent [of ?r ip] by auto
qed

text \<open>
  The audit entry of a replayed session counts what happened. After any sequence of
  replays in one window the entry counts each of them, lists at most ten addresses, all of them
  seen and no address twice, and as long as at most ten different addresses were seen it lists
  them all and counts them exactly.
\<close>

theorem replay_entry_exact:
  fixes replays :: "(string option \<times> string option \<times> datetime) list"
  assumes "replay_sequence w replays = Some j"
  shows "map_of j ''replay_count'' = Some (JInt (int (length replays)))
    \<and> length (recent_ip_addresses j) \<le> 10
    \<and> distinct (recent_ip_addresses j) \<and> set (recent_ip_addresses j) \<subseteq> set (replay_addresses replays)
    \<and> (card (set (replay_addresses replays)) \<le> 10 \<longrightarrow>
         set (recent_ip_addresses j) = set (replay_addresses replays) \<and>
         map_of j ''distinct_ip_count'' = Some (JInt (int (card (set (replay_addresses replays))))))"
proof -
  have "replays \<noteq> []" using assms by (auto simp: replay_sequence_def)
  then obtain xs ip ua t where r: "replays = xs @ [(ip, ua, t)]"
    by (cases replays rule: rev_cases) auto
  with assms have j: "j = replay_detail_json (replay_sequence w xs) ip ua t w"
    by (simp add: replay_sequence_snoc)
  note counts = replay_sequence_counts [of w replays, unfolded assms detail_of_def option.case]
  note fields = replay_detail_fields [of "replay_sequence w xs" ip ua t w, folded j]
  note step = replay_step [of "replay_sequence w xs" ip ua t w, folded j]
  show ?thesis using counts fields(2,3) step(2,3) by (auto simp: RECENT_REPLAY_IP_LIMIT_def)
qed

lemma replay_entry_exact_witness:
  "\<exists>j. replay_sequence 300 [(Some ''10.0.0.1'', None, 0), (Some ''10.0.0.2'', None, 1), (Some ''10.0.0.1'', None, 2)] = Some j
       \<and> map_of j ''distinct_ip_count'' = Some (JInt 2)"
proof -
  let ?xs = "[(Some ''10.0.0.1'', None, 0), (Some ''10.0.0.2'', None, 1), (Some ''10.0.0.1'', None, 2)]
    :: (string option \<times> string option \<times> datetime) list"
  obtain j where j: "replay_sequence 300 ?xs = Some j" by (simp add: replay_sequence_def)
  have "card (set (replay_addresses ?xs)) = 2" by code_simp
  with replay_entry_exact [OF j] j show ?thesis by auto
qed

definition eleven_then_first :: "(string option \<times> string option \<times> datetime) list" where
  "eleven_then_first = map (\<lambda>a. (Some a, None, 0)) [''a'', ''b'', ''c'', ''d'', ''e'', ''f'', ''g'', ''h'', ''i'', ''j'', ''k'', ''a'']"


end
