(* ===== verification/Authorization_Repository.thy ===== *)
theory Authorization_Repository
  imports Invariants
begin

text \<open>
  \<open>AuthorizationRepository\<close> (\<^verbatim>\<open>app/services/authorization_repository.py\<close>): the role assignments.
  The main lemma is the contract of \<open>replace_user_roles\<close>: when it returns, the user has exactly
  the requested roles, the result says which were granted and which revoked, and no other
  user's roles changed.
\<close>

definition role_codes_for_user :: "database \<Rightarrow> uuid \<Rightarrow> string list" where
  "role_codes_for_user d user_id = sort (map r_role_code (filter (\<lambda>r. r_user_id r = user_id) (user_roles d)))"

definition get_user_role_codes :: "uuid \<Rightarrow> ('l, 'c, string list) prog" where
  "get_user_role_codes user_id = session_scope (query (\<lambda>d. role_codes_for_user d user_id))"

definition list_unknown_role_assignments :: "string set \<Rightarrow> ('l, 'c, (uuid \<times> string) list) prog" where
  "list_unknown_role_assignments known_role_codes =
     session_scope (query (\<lambda>d.
       map (\<lambda>r. (r_user_id r, r_role_code r))
         (sort_key (\<lambda>r. (r_role_code r, r_user_id r))
           (if known_role_codes \<noteq> {} then filter (\<lambda>r. r_role_code r \<notin> known_role_codes) (user_roles d)
            else user_roles d))))"

definition delete_unknown_role_assignments :: "string set \<Rightarrow> ('l, 'c, nat) prog" where
  "delete_unknown_role_assignments known_role_codes =
     (if known_role_codes = {} then raise (ValueError ''known_role_codes must not be empty'')
      else session_scope (
        bind (query (\<lambda>d. length (filter (\<lambda>r. r_role_code r \<notin> known_role_codes) (user_roles d)))) (\<lambda>n.
        seq (modify_db (\<lambda>d. d\<lparr>user_roles := filter (\<lambda>r. r_role_code r \<in> known_role_codes) (user_roles d)\<rparr>))
          (ok n))))"

text \<open>\<open>session.add(UserRole(...))\<close>\<close>

definition add_user_role :: "uuid \<Rightarrow> datetime \<Rightarrow> uuid option \<Rightarrow> string \<Rightarrow> ('l, 'c, unit) prog" where
  "add_user_role user_id changed_at assigned_by_user_id code =
     bind uuid4 (\<lambda>i. insert_user_role \<lparr>r_id = i, r_user_id = user_id, r_role_code = code,
       r_assigned_at = trunc_ms changed_at, r_assigned_by_user_id = assigned_by_user_id\<rparr>)"

definition replace_user_roles :: "uuid \<Rightarrow> string list \<Rightarrow> uuid option \<Rightarrow> ('l, 'c, role_replacement) prog" where
  "replace_user_roles user_id role_codes assigned_by_user_id =
     (let target_codes = fromkeys role_codes in
      session_scope (
        bind (query (\<lambda>d. role_codes_for_user d user_id)) (\<lambda>existing_role_codes.
        let existing_set = set existing_role_codes;
            target_set = set target_codes;
            revoked = sorted_strings (existing_set - target_set);
            granted = sorted_strings (target_set - existing_set)
        in
        bind utcnow (\<lambda>changed_at.
        seq (only_if (revoked \<noteq> []) (modify_db (\<lambda>d. d\<lparr>user_roles :=
               filter (\<lambda>r. \<not> (r_user_id r = user_id \<and> r_role_code r \<in> set revoked)) (user_roles d)\<rparr>)))
       (seq (for_each granted (add_user_role user_id changed_at assigned_by_user_id))
       (seq (only_if (granted \<noteq> [] \<or> revoked \<noteq> [])
               (update_users (\<lambda>u. u_id u = user_id) (\<lambda>u. u\<lparr>u_modified_at := trunc_ms changed_at\<rparr>)))
         (ok \<lparr>rr_user_id = user_id, rr_granted_role_codes = granted, rr_revoked_role_codes = revoked,
              rr_current_role_codes = sorted_strings target_set\<rparr>)))))))"

definition delete_roles_for_user :: "uuid \<Rightarrow> ('l, 'c, nat) prog" where
  "delete_roles_for_user user_id =
     session_scope (
       bind (query (\<lambda>d. length (filter (\<lambda>r. r_user_id r = user_id) (user_roles d)))) (\<lambda>n.
       seq (modify_db (\<lambda>d. d\<lparr>user_roles := filter (\<lambda>r. r_user_id r \<noteq> user_id) (user_roles d)\<rparr>)) (ok n)))"

subsection \<open>The invariant is kept\<close>

lemma app_inv_filter_roles:
  assumes "app_inv S X d"
  shows "app_inv S X (d\<lparr>user_roles := filter P (user_roles d)\<rparr>)"
  using assms
  by (intro app_inv_user_roles)
    (auto simp: app_inv_def db_ok_def user_roles_ok_def tombstones_ok_def distinct_map_filter)

lemma keeps_role_queries [keeps_intros]:
  "keeps (winv P L) (get_user_role_codes uid)" "keeps (winv P L) (list_unknown_role_assignments K)"
  unfolding get_user_role_codes_def list_unknown_role_assignments_def by (intro keeps_intros)+

lemma keeps_delete_unknown_roles [keeps_intros]:
  "keeps (winv (app_inv S X) L) (delete_unknown_role_assignments K)"
  unfolding delete_unknown_role_assignments_def
  by (intro keeps_intros keeps_modify_db app_inv_filter_roles)

lemma keeps_delete_roles [keeps_intros]: "keeps (winv (app_inv S X) L) (delete_roles_for_user uid)"
  unfolding delete_roles_for_user_def
  by (intro keeps_intros keeps_modify_db app_inv_filter_roles)

lemma keeps_replace_user_roles:
  "uid \<in> X \<Longrightarrow> keeps (winv (app_inv S X) L) (replace_user_roles uid codes by)"
  unfolding replace_user_roles_def add_user_role_def Let_def
  by (intro keeps_intros keeps_modify_db keeps_update_users keeps_insert_user_role app_inv_filter_roles) simp_all

subsection \<open>The contract of replacing roles\<close>

definition roles_of :: "database \<Rightarrow> uuid \<Rightarrow> string set" where
  "roles_of d uid = {r_role_code r | r. r \<in> set (user_roles d) \<and> r_user_id r = uid}"

lemma set_role_codes_for_user [simp]: "set (role_codes_for_user d uid) = roles_of d uid"
  by (auto simp: role_codes_for_user_def roles_of_def)

lemma finite_roles_of [simp]: "finite (roles_of d uid)"
proof -
  have "roles_of d uid = r_role_code ` {r \<in> set (user_roles d). r_user_id r = uid}"
    by (auto simp: roles_of_def)
  then show ?thesis by simp
qed

lemma roles_of_users [simp]: "roles_of (d\<lparr>users := us\<rparr>) uid = roles_of d uid"
  by (simp add: roles_of_def)

lemma roles_of_insert:
  "roles_of (d\<lparr>user_roles := user_roles d @ [r]\<rparr>) uid =
     (if r_user_id r = uid then insert (r_role_code r) (roles_of d uid) else roles_of d uid)"
  by (auto simp: roles_of_def)

lemma wp_add_user_role:
  assumes "\<And>d'. roles_of d' uid = insert c (roles_of (w_db s) uid) \<Longrightarrow>
      (\<And>v. v \<noteq> uid \<Longrightarrow> roles_of d' v = roles_of (w_db s) v) \<Longrightarrow>
      Q (s\<lparr>w_uuid_n := Suc (w_uuid_n s), w_db := d'\<rparr>)"
  shows "wp (add_user_role uid t by c) (\<lambda>_. Q) (\<lambda>_ _. True) s"
  unfolding add_user_role_def insert_user_role_def
  by (auto simp: wp_simps roles_of_insert intro!: assms)

text \<open>The effect of the granting loop on the roles.\<close>

lemma wp_grant_roles:
  "wp (for_each codes (add_user_role uid t by))
     (\<lambda>_ s. roles_of (w_db s) uid = roles_of (w_db s0) uid \<union> set codes
        \<and> (\<forall>v. v \<noteq> uid \<longrightarrow> roles_of (w_db s) v = roles_of (w_db s0) v)) (\<lambda>_ _. True) s0"
proof (induction codes arbitrary: s0)
  case Nil
  then show ?case by (simp add: wp_simps)
next
  case (Cons c cs)
  show ?case
    unfolding for_each.simps wp_seq
  proof (rule wp_add_user_role)
    fix d'
    assume d': "roles_of d' uid = insert c (roles_of (w_db s0) uid)"
      "\<And>v. v \<noteq> uid \<Longrightarrow> roles_of d' v = roles_of (w_db s0) v"
    show "wp (for_each cs (add_user_role uid t by))
        (\<lambda>_ s. roles_of (w_db s) uid = roles_of (w_db s0) uid \<union> set (c # cs)
          \<and> (\<forall>v. v \<noteq> uid \<longrightarrow> roles_of (w_db s) v = roles_of (w_db s0) v)) (\<lambda>_ _. True)
        (s0\<lparr>w_uuid_n := Suc (w_uuid_n s0), w_db := d'\<rparr>)"
      by (rule wp_mono [OF Cons.IH]) (auto simp: d')
  qed
qed

lemma replace_user_roles_spec:
  fixes s :: "('l, 'c) world"
  shows "wp (replace_user_roles uid codes by)
     (\<lambda>r s'. roles_of (w_db s') uid = set codes
        \<and> (\<forall>v. v \<noteq> uid \<longrightarrow> roles_of (w_db s') v = roles_of (w_db s) v)
        \<and> rr_user_id r = uid \<and> rr_current_role_codes r = sorted_strings (set codes)
        \<and> rr_granted_role_codes r = sorted_strings (set codes - roles_of (w_db s) uid)
        \<and> rr_revoked_role_codes r = sorted_strings (roles_of (w_db s) uid - set codes))
     (\<lambda>_ _. True) s"
proof -
  let ?rev = "roles_of (w_db s) uid - set codes"
  define d where "d = (w_db s)\<lparr>user_roles := filter (\<lambda>r. \<not> (r_user_id r = uid \<and> r_role_code r \<in> ?rev)) (user_roles (w_db s))\<rparr>"
  have keep: "w_db s = d" if "roles_of (w_db s) uid \<subseteq> set codes"
  proof -
    have "filter (\<lambda>r. \<not> (r_user_id r = uid \<and> r_role_code r \<in> ?rev)) (user_roles (w_db s)) = user_roles (w_db s)"
      using that by (intro filter_True) auto
    then show ?thesis by (simp add: d_def)
  qed
  have d: "roles_of d uid = roles_of (w_db s) uid \<inter> set codes" "v \<noteq> uid \<Longrightarrow> roles_of d v = roles_of (w_db s) v" for v
    by (auto simp: roles_of_def d_def)
  have un: "roles_of (w_db s) uid \<inter> set codes \<union> (set codes - roles_of (w_db s) uid) = set codes" by blast
  have fin: "finite ?rev" "finite (set codes - roles_of (w_db s) uid)" by simp_all
  have loop: "wp (for_each gs (add_user_role uid t by)) Q (\<lambda>_ _. True) s1"
    if "w_db s1 = d" "set gs = set codes - roles_of (w_db s) uid"
      "\<And>u s2. roles_of (w_db s2) uid = set codes \<Longrightarrow> (\<forall>v. v \<noteq> uid \<longrightarrow> roles_of (w_db s2) v = roles_of (w_db s) v) \<Longrightarrow> Q u s2"
    for gs t Q and s1 :: "('l, 'c) world"
  proof (rule wp_mono [OF wp_grant_roles])
    fix u :: unit and s2 :: "('l, 'c) world"
    assume "roles_of (w_db s2) uid = roles_of (w_db s1) uid \<union> set gs
      \<and> (\<forall>v. v \<noteq> uid \<longrightarrow> roles_of (w_db s2) v = roles_of (w_db s1) v)"
    then show "Q u s2" using d un unfolding that(1,2) by (intro that(3)) simp_all
  qed simp
  note unf = replace_user_roles_def Let_def wp_session_scope update_users_def
  show ?thesis
  proof (cases "roles_of (w_db s) uid \<subseteq> set codes")
    case True
    then have "?rev = {}" by blast
    with True show ?thesis unfolding unf by (auto simp: wp_simps fin intro!: loop keep)
  next
    case False
    then have "?rev \<noteq> {}" by blast
    then show ?thesis unfolding unf by (auto simp: wp_simps fin d_def intro!: loop)
  qed
qed

end
