(* ===== verification/Auth_Usecase.thy ===== *)
theory Auth_Usecase
  imports Auth_Repository Authorization_Repository
begin

text \<open>
  \<open>AuthUsecase\<close> (\<^verbatim>\<open>app/usecases/auth_usecase.py\<close>) and \<open>replace_auth_session\<close>
  (\<^verbatim>\<open>app/libraries/auth_session_issuer.py\<close>): registration, login, session authentication, CSRF
  tokens, profile changes and logout, over the repositories and an arbitrary rate limiter.

  \<open>verify_password\<close> is total: a stored hash is one that \<open>pwdlib\<close> produced.
\<close>

definition truthy :: "string option \<Rightarrow> string option" where
  "truthy v = (case v of None \<Rightarrow> None | Some x \<Rightarrow> if x = [] then None else Some x)"

text \<open>\<open>ip_address or "unknown"\<close>\<close>

definition rate_limit_ip :: "string option \<Rightarrow> string" where
  "rate_limit_ip ip_address = (case truthy ip_address of None \<Rightarrow> ''unknown'' | Some ip \<Rightarrow> ip)"

definition audit ::
    "uuid option \<Rightarrow> uuid option \<Rightarrow> auth_event_type \<Rightarrow> string option \<Rightarrow> string option
      \<Rightarrow> (string \<times> json) list option \<Rightarrow> ('l, 'c, unit) prog" where
  "audit user_id session_id event_type ip_address user_agent detail =
     create_audit_log \<lparr>ae_user_id = user_id, ae_session_id = session_id, ae_event_type = event_type,
       ae_ip_address = ip_address, ae_user_agent = user_agent, ae_detail_json = detail, ae_occurred_at = None\<rparr>"

definition DUMMY_PASSWORD_HASH :: string where
  "DUMMY_PASSWORD_HASH = ''$argon2id$v=19$m=65536,t=3,p=4$TO8J42R39QBv7pem26bDUQ''
     @ ''$TsSlSgdcZ3mv06Gl9wQ7WaBhED0WIbQhcLhG35aHQd4''"

definition SESSION_REJECTED_AUDIT_WINDOW_SECONDS :: int where
  "SESSION_REJECTED_AUDIT_WINDOW_SECONDS = 300"

subsection \<open>Issuing sessions\<close>

definition replace_auth_session ::
    "('l, 'c) app \<Rightarrow> user \<Rightarrow> string option \<Rightarrow> string option \<Rightarrow> string option
      \<Rightarrow> ('l, 'c, auth_session \<times> string \<times> string) prog" where
  "replace_auth_session app user current_session_token ip_address user_agent =
     seq (case truthy current_session_token of
            None \<Rightarrow> ok ()
          | Some t \<Rightarrow>
              bind (find_active_session_by_token_hash (hash_token app t)) (\<lambda>existing. case existing of
                None \<Rightarrow> ok () | Some s \<Rightarrow> revoke_session (s_id s)))
    (bind generate_token (\<lambda>session_token.
     bind generate_token (\<lambda>csrf_token.
     bind utcnow (\<lambda>issued_at.
     bind (create_session (u_id user) (hash_token app session_token) (hash_token app csrf_token)
             issued_at issued_at (calculate_session_expiry (auth_settings_of app) issued_at issued_at)
             ip_address user_agent) (\<lambda>session.
     ok (session, session_token, csrf_token))))))"

subsection \<open>The use case\<close>

definition audit_known_rejected_session ::
    "string \<Rightarrow> string option \<Rightarrow> string option \<Rightarrow> ('l, 'c, unit) prog" where
  "audit_known_rejected_session token_hash ip_address user_agent =
     bind (find_session_by_token_hash token_hash) (\<lambda>rejected. case rejected of
       None \<Rightarrow> ok ()
     | Some s \<Rightarrow>
         bind utcnow (\<lambda>replayed_at.
         record_rejected_session_replay s ip_address user_agent replayed_at SESSION_REJECTED_AUDIT_WINDOW_SECONDS))"

definition issue_csrf_token :: "('l, 'c) app \<Rightarrow> string option \<Rightarrow> ('l, 'c, string) prog" where
  "issue_csrf_token app session_token =
     bind generate_token (\<lambda>csrf_token. case truthy session_token of
       None \<Rightarrow> ok csrf_token
     | Some t \<Rightarrow>
         bind (find_active_session_by_token_hash (hash_token app t)) (\<lambda>found. case found of
           None \<Rightarrow> ok csrf_token
         | Some s \<Rightarrow>
             bind (update_session_csrf_token_hash (s_id s) (hash_token app csrf_token)) (\<lambda>_. ok csrf_token)))"

definition validate_session_csrf ::
    "('l, 'c) app \<Rightarrow> string \<Rightarrow> string \<Rightarrow> string option \<Rightarrow> string option \<Rightarrow> ('l, 'c, session_csrf_status) prog" where
  "validate_session_csrf app session_token csrf_token ip_address user_agent =
     (let session_token_hash = hash_token app session_token in
      bind (find_active_session_by_token_hash session_token_hash) (\<lambda>found. case found of
        None \<Rightarrow> seq (audit_known_rejected_session session_token_hash ip_address user_agent) (ok Csrf_no_session)
      | Some s \<Rightarrow> if s_csrf_token_hash s = hash_token app csrf_token then ok Csrf_valid else ok Csrf_mismatch))"

definition register ::
    "('l, 'c) app \<Rightarrow> string \<Rightarrow> string \<Rightarrow> string \<Rightarrow> string option \<Rightarrow> string option \<Rightarrow> string option
      \<Rightarrow> ('l, 'c, issued_session) prog" where
  "register app email password language_code current_session_token ip_address user_agent =
     (let normalized_email = normalize_email email;
          ip = rate_limit_ip ip_address;
          limiter = auth_rate_limiter app
      in
      bind (ask_limiter (is_allowed limiter ip normalized_email)) (\<lambda>allowed.
      if \<not> allowed then raise (RateLimitExceededError (AUTH_RATE_LIMIT_WINDOW_SECONDS (auth_settings_of app))) else
      bind (ask_limiter (is_registration_allowed limiter ip)) (\<lambda>allowed.
      if \<not> allowed
      then raise (RateLimitExceededError (AUTH_RATE_LIMIT_REGISTRATION_WINDOW_SECONDS (auth_settings_of app))) else
      let (is_valid_password, error_message) = validate_password_policy password in
      if \<not> is_valid_password then
        seq (tell_limiter (record_failure limiter ip normalized_email False))
          (raise (WeakPasswordError (case truthy error_message of None \<Rightarrow> ''Invalid password'' | Some m \<Rightarrow> m)))
      else
      bind (find_user_by_email normalized_email) (\<lambda>existing_user. case existing_user of
        Some u \<Rightarrow>
          seq (tell_limiter (record_failure limiter ip normalized_email False))
         (seq (audit (Some (u_id u)) None REGISTER_FAILED ip_address user_agent None)
            (raise EmailAlreadyRegisteredError))
      | None \<Rightarrow>
          bind (catch
            (transaction (
               bind (hash_password app password) (\<lambda>password_hash.
               bind (create_user normalized_email (Some password_hash) language_code) (\<lambda>user0.
               bind utcnow (\<lambda>login_at.
               bind (record_user_login (u_id user0) login_at) (\<lambda>user.
               bind (replace_auth_session app user current_session_token ip_address user_agent)
                 (\<lambda>(session, session_token, csrf_token).
               seq (audit (Some (u_id user)) (Some (s_id session)) REGISTER_SUCCESS ip_address user_agent None)
                 (ok (user, session, session_token, csrf_token)))))))))
            (\<lambda>e. if e = EmailAlreadyRegisteredError then
                  seq (tell_limiter (record_failure limiter ip normalized_email False))
                 (seq (audit None None REGISTER_FAILED ip_address user_agent None) (raise e))
                 else raise e))
          (\<lambda>(user, session, session_token, csrf_token).
          seq (tell_limiter (record_registration limiter ip))
            (ok \<lparr>is_user = user, is_session = session, is_session_token = session_token,
                 is_csrf_token = csrf_token, is_roles = {}, is_permissions = {}\<rparr>))))))"

record auth_user_update_changes =
  uc_language_code :: "string option"
  uc_fields_set :: "string set"

definition update_current_user ::
    "session_context \<Rightarrow> auth_user_update_changes \<Rightarrow> ('l, 'c, session_context) prog" where
  "update_current_user auth_context changes =
     (if uc_fields_set changes = {} then ok auth_context
      else if ''language_code'' \<notin> uc_fields_set changes then ok auth_context
      else case uc_language_code changes of
        None \<Rightarrow> ok auth_context
      | Some language_code \<Rightarrow>
          bind (transaction (
            bind utcnow (\<lambda>now.
            update_user_language (u_id (cx_user auth_context)) language_code now))) (\<lambda>user.
          ok (auth_context\<lparr>cx_user := user\<rparr>)))"

definition authorization_for_existing_user :: "uuid \<Rightarrow> ('l, 'c, user_authorization) prog" where
  "authorization_for_existing_user user_id =
     bind (get_user_role_codes user_id) (\<lambda>role_codes.
     case resolve_user_authorization user_id role_codes of
       (authorization, None) \<Rightarrow> ok authorization
     | (authorization, Some (uid, unknown)) \<Rightarrow>
         seq (log_warning (Unknown_roles_ignored uid unknown)) (ok authorization))"

definition login ::
    "('l, 'c) app \<Rightarrow> string \<Rightarrow> string \<Rightarrow> string option \<Rightarrow> string option \<Rightarrow> string option
      \<Rightarrow> ('l, 'c, issued_session) prog" where
  "login app email password current_session_token ip_address user_agent =
     (let normalized_email = normalize_email email;
          ip = rate_limit_ip ip_address;
          limiter = auth_rate_limiter app
      in
      bind (ask_limiter (is_allowed limiter ip normalized_email)) (\<lambda>allowed.
      if \<not> allowed then raise (RateLimitExceededError (AUTH_RATE_LIMIT_WINDOW_SECONDS (auth_settings_of app))) else
      bind (find_user_by_email normalized_email) (\<lambda>found.
      let stored = (case found of None \<Rightarrow> None | Some u \<Rightarrow> u_password_hash u);
          has_password_hash = (stored \<noteq> None);
          password_hash = (case stored of None \<Rightarrow> DUMMY_PASSWORD_HASH | Some h \<Rightarrow> h);
          password_matches = verify_password app password password_hash;
          rejected = (\<lambda>user_id.
            seq (tell_limiter (record_failure limiter ip normalized_email True))
           (seq (audit user_id None LOGIN_FAILED ip_address user_agent None)
              (raise InvalidCredentialsError)))
      in
      case found of
        None \<Rightarrow> rejected None
      | Some user0 \<Rightarrow>
          if \<not> u_is_active user0 \<or> \<not> has_password_hash \<or> \<not> password_matches
          then rejected (Some (u_id user0))
          else
            bind (transaction (
              bind utcnow (\<lambda>login_at.
              bind (record_user_login (u_id user0) login_at) (\<lambda>user.
              bind (replace_auth_session app user current_session_token ip_address user_agent)
                (\<lambda>(session, session_token, csrf_token).
              seq (audit (Some (u_id user)) (Some (s_id session)) LOGIN_SUCCESS ip_address user_agent None)
                (ok (user, session, session_token, csrf_token)))))))
            (\<lambda>(user, session, session_token, csrf_token).
            seq (tell_limiter (record_success limiter ip normalized_email))
           (bind (authorization_for_existing_user (u_id user)) (\<lambda>authorization.
            ok \<lparr>is_user = user, is_session = session, is_session_token = session_token,
               is_csrf_token = csrf_token, is_roles = ua_roles authorization,
               is_permissions = ua_permissions authorization\<rparr>))))))"

definition reject_session ::
    "auth_session \<Rightarrow> auth_event_type \<Rightarrow> uuid option \<Rightarrow> string option \<Rightarrow> string option \<Rightarrow> ('l, 'c, unit) prog" where
  "reject_session auth_session event_type user_id ip_address user_agent =
     seq (revoke_session (s_id auth_session))
       (audit user_id (Some (s_id auth_session)) event_type ip_address user_agent None)"

definition reject_user_sessions ::
    "auth_session \<Rightarrow> auth_event_type \<Rightarrow> uuid \<Rightarrow> string option \<Rightarrow> string option \<Rightarrow> ('l, 'c, unit) prog" where
  "reject_user_sessions auth_session event_type user_id ip_address user_agent =
     bind utcnow (\<lambda>revoked_at.
     bind (revoke_sessions_for_user user_id revoked_at) (\<lambda>_.
     create_audit_log \<lparr>ae_user_id = Some user_id, ae_session_id = Some (s_id auth_session),
       ae_event_type = event_type, ae_ip_address = ip_address, ae_user_agent = user_agent,
       ae_detail_json = None, ae_occurred_at = Some revoked_at\<rparr>))"

text \<open>The part of \<open>authenticate_session\<close> after the checks: refreshing the session when it is due.\<close>

definition touch_if_due :: "('l, 'c) app \<Rightarrow> auth_session \<Rightarrow> datetime \<Rightarrow> ('l, 'c, auth_session) prog" where
  "touch_if_due app auth_session now =
     (let touch_interval_seconds = effective_session_touch_interval_seconds (auth_settings_of app) in
      if touch_interval_seconds \<le> 0 \<or> now - s_last_seen_at auth_session \<ge> seconds touch_interval_seconds then
        seq (only_if (touch_interval_seconds \<noteq> AUTH_SESSION_TOUCH_INTERVAL_SECONDS (auth_settings_of app))
               (log_warning (Touch_interval_exceeds_idle_ratio
                  (AUTH_SESSION_TOUCH_INTERVAL_SECONDS (auth_settings_of app)) touch_interval_seconds)))
          (touch_session (s_id auth_session) now
             (calculate_session_expiry (auth_settings_of app) (s_issued_at auth_session) now))
      else ok auth_session)"

text \<open>The part that follows when a session in force is found.\<close>

definition authenticate_found ::
    "('l, 'c) app \<Rightarrow> auth_session \<Rightarrow> string option \<Rightarrow> string option \<Rightarrow> ('l, 'c, session_context option) prog" where
  "authenticate_found app auth_session ip_address user_agent =
     bind (find_user_by_id_for_authentication (s_user_id auth_session)) (\<lambda>user. case user of
       None \<Rightarrow> seq (reject_session auth_session SESSION_REJECTED None ip_address user_agent) (ok None)
     | Some u \<Rightarrow>
         if u_deleted_at u \<noteq> None then
           seq (reject_user_sessions auth_session SESSION_REVOKED_DELETED_USER (u_id u) ip_address user_agent)
             (ok None)
         else if \<not> u_is_active u then
           seq (reject_user_sessions auth_session SESSION_REVOKED_INACTIVE_USER (u_id u) ip_address user_agent)
             (ok None)
         else
           bind utcnow (\<lambda>now.
           bind (touch_if_due app auth_session now) (\<lambda>refreshed_session.
           bind (authorization_for_existing_user (u_id u)) (\<lambda>authorization.
           ok (Some \<lparr>cx_user = u, cx_session = refreshed_session, cx_roles = ua_roles authorization,
                     cx_permissions = ua_permissions authorization\<rparr>)))))"

definition authenticate_session ::
    "('l, 'c) app \<Rightarrow> string option \<Rightarrow> string option \<Rightarrow> string option \<Rightarrow> ('l, 'c, session_context option) prog" where
  "authenticate_session app session_token ip_address user_agent =
     (case truthy session_token of
        None \<Rightarrow> ok None
      | Some token \<Rightarrow>
          let session_token_hash = hash_token app token in
          transaction (
            bind (find_active_session_by_token_hash session_token_hash) (\<lambda>found. case found of
              None \<Rightarrow> seq (audit_known_rejected_session session_token_hash ip_address user_agent) (ok None)
            | Some auth_session \<Rightarrow> authenticate_found app auth_session ip_address user_agent)))"

definition logout :: "('l, 'c) app \<Rightarrow> string option \<Rightarrow> string option \<Rightarrow> string option \<Rightarrow> ('l, 'c, unit) prog" where
  "logout app session_token ip_address user_agent =
     (case truthy session_token of
        None \<Rightarrow> ok ()
      | Some token \<Rightarrow>
          bind (find_active_session_by_token_hash (hash_token app token)) (\<lambda>found. case found of
            None \<Rightarrow> ok ()
          | Some s \<Rightarrow>
              transaction (
                seq (revoke_session (s_id s))
                  (audit (Some (s_user_id s)) (Some (s_id s)) LOGOUT ip_address user_agent None))))"

subsection \<open>The invariant is kept\<close>

lemma keeps_audit [keeps_intros]: "keeps (winv (app_inv S X) L) (audit u s ev ip ua det)"
  unfolding audit_def by (intro keeps_intros)

lemma keeps_replace_auth_session:
  assumes "u_id user \<in> X" "S = auth_settings_of app"
  shows "keeps (winv (app_inv S X) L) (replace_auth_session app user cur ip ua)"
  unfolding replace_auth_session_def
  by (intro keeps_intros keeps_create_session) (simp_all add: assms)

lemma keeps_audit_known_rejected_session [keeps_intros]:
  "keeps (winv (app_inv S X) L) (audit_known_rejected_session h ip ua)"
  unfolding audit_known_rejected_session_def by (intro keeps_intros)

lemma keeps_authorization_for_existing_user [keeps_intros]:
  "keeps (winv P L) (authorization_for_existing_user uid)"
proof -
  have "keeps (winv P L) (case r of (a, None) \<Rightarrow> ok a | (a, Some (u, cs)) \<Rightarrow>
      seq (log_warning (Unknown_roles_ignored u cs)) (ok a))" for r :: "user_authorization \<times> (uuid \<times> string list) option"
    by (auto split: prod.splits option.splits intro: keeps_intros)
  then show ?thesis unfolding authorization_for_existing_user_def by (intro keeps_intros)
qed

lemma keeps_reject_sessions [keeps_intros]:
  "keeps (winv (app_inv S X) L) (reject_session s ev uid ip ua)"
  "keeps (winv (app_inv S X) L) (reject_user_sessions s ev u ip ua)"
  unfolding reject_session_def reject_user_sessions_def by (intro keeps_intros)+

lemma keeps_sessions_and_csrf [keeps_intros]:
  "keeps (winv (app_inv S X) L) (issue_csrf_token app t)"
  "keeps (winv (app_inv S X) L) (validate_session_csrf app t' c ip ua)"
  "keeps (winv (app_inv S X) L) (logout app t ip ua)"
  "keeps (winv (app_inv S X) L) (update_current_user cx ch)"
  unfolding issue_csrf_token_def validate_session_csrf_def logout_def update_current_user_def Let_def
  by (intro keeps_intros)+

text \<open>After \<open>record_user_login\<close> the user is known to be live, and a session may be attached.\<close>

lemma keeps_after_login:
  assumes "\<And>u. keeps (winv (app_inv S (insert (u_id u) X)) L) (f u)"
  shows "keeps (winv (app_inv S X) L) (bind (record_user_login uid t) f)"
  by (rule keeps_bind_live [where Y = "\<lambda>u. insert (u_id u) X"])
    (use record_user_login_live in \<open>blast intro: wp_mono assms\<close>)+

lemma touch_if_due_inv:
  assumes "winv (app_inv (auth_settings_of app) X) L s" "a \<in> set (auth_sessions (w_db s))"
  shows "wp (touch_if_due app a now) (\<lambda>_. winv (app_inv (auth_settings_of app) X) L)
           (\<lambda>_. winv (app_inv (auth_settings_of app) X) L) s"
  using assms
  by (auto simp: touch_if_due_def Let_def wp_simps intro!: touch_session_inv)

lemma authenticate_found_inv:
  fixes s :: "('l, 'c) world"
  assumes inv: "winv (app_inv (auth_settings_of app) X) L s" and a: "a \<in> set (auth_sessions (w_db s))"
  shows "wp (authenticate_found app a ip ua) (\<lambda>_. winv (app_inv (auth_settings_of app) X) L)
           (\<lambda>_. winv (app_inv (auth_settings_of app) X) L) s"
proof -
  let ?I = "winv (app_inv (auth_settings_of app) X) L :: ('l, 'c) world \<Rightarrow> bool"
  have ok: "db_ok (w_db s)" using inv by (simp add: winv_def app_inv_def)
  have after: "wp (touch_if_due app a now) (\<lambda>r. wp (bind (authorization_for_existing_user uid) (\<lambda>x. ok (f r x)))
      (\<lambda>_. ?I) (\<lambda>_. ?I)) (\<lambda>_. ?I) (s\<lparr>w_clock_n := n\<rparr>)" for now uid n and f :: "auth_session \<Rightarrow> user_authorization \<Rightarrow> session_context option"
  proof (rule wp_mono [OF touch_if_due_inv])
    fix r and t :: "('l, 'c) world"
    assume "?I t"
    then show "wp (bind (authorization_for_existing_user uid) (\<lambda>x. ok (f r x))) (\<lambda>_. ?I) (\<lambda>_. ?I) t"
      by (intro keeps_wp) (intro keeps_intros)
  qed (use inv a in auto)
  show ?thesis
    unfolding authenticate_found_def wp_bind [where m = "find_user_by_id_for_authentication u" for u]
      wp_find_user_by_id [OF ok]
    by (auto intro!: keeps_wp keeps_intros simp: inv wp_bind [where m = utcnow] wp_utcnow
        wp_bind [where m = "touch_if_due app a now" for now] intro: after split: if_splits)
qed

lemma keeps_authenticate_session [keeps_intros]:
  fixes app :: "('l, 'c) app"
  shows "keeps (winv (app_inv (auth_settings_of app) X) L) (authenticate_session app t ip ua)"
proof -
  let ?I = "winv (app_inv (auth_settings_of app) X) L :: ('l, 'c) world \<Rightarrow> bool"
  have body: "keeps ?I (bind (find_active_session_by_token_hash h) (\<lambda>found. case found of
      None \<Rightarrow> seq (audit_known_rejected_session h ip ua) (ok None)
    | Some a \<Rightarrow> authenticate_found app a ip ua))" for h
    unfolding keeps_wp_iff
  proof (intro allI impI)
    fix s :: "('l, 'c) world" assume inv: "?I s"
    then have ok: "db_ok (w_db s)" by (simp add: winv_def app_inv_def)
    show "wp (bind (find_active_session_by_token_hash h) (\<lambda>found. case found of
        None \<Rightarrow> seq (audit_known_rejected_session h ip ua) (ok None)
      | Some a \<Rightarrow> authenticate_found app a ip ua)) (\<lambda>_. ?I) (\<lambda>_. ?I) s"
      unfolding wp_bind wp_find_active_session [OF ok]
      using inv by (auto intro!: keeps_wp keeps_intros authenticate_found_inv)
  qed
  show ?thesis unfolding authenticate_session_def Let_def by (intro keeps_intros body)
qed

text \<open>
  The use cases that talk to the limiter, over any limiter that satisfies the contract
  \<open>login_rate_limiter\<close>.
\<close>

locale auth_app = login_rate_limiter "auth_rate_limiter app" lim_inv
  for app :: "('l, 'c) app" and lim_inv :: "'l \<Rightarrow> bool"
begin

abbreviation inv_live :: "uuid set \<Rightarrow> ('l, 'c) world \<Rightarrow> bool" where
  "inv_live X \<equiv> winv (app_inv (auth_settings_of app) X) lim_inv"

lemma keeps_login: "keeps (inv_live X) (login app em pw cur ip ua)"
proof -
  have rejected: "keeps (inv_live X) (seq (tell_limiter (record_failure (auth_rate_limiter app) i e b))
      (seq (audit u s ev ip ua det) (raise err)))" for i e b u s ev det err
    by (intro keeps_intros) simp
  show ?thesis
    unfolding login_def Let_def
    by (intro keeps_intros keeps_after_login keeps_replace_auth_session rejected) simp_all
qed

lemma keeps_register: "keeps (inv_live X) (register app em pw lang cur ip ua)"
proof -
  have created: "keeps (inv_live X) (bind (create_user e ph lang) f)"
    if "\<And>u. keeps (inv_live (insert (u_id u) X)) (f u)" for e ph f
    by (rule keeps_bind_live [where Y = "\<lambda>u. insert (u_id u) X"])
      (use that wp_create_user_live in blast)+
  show ?thesis
    unfolding register_def Let_def
    by (intro keeps_intros keeps_after_login keeps_replace_auth_session created) simp_all
qed

end

end
