(* ===== verification/Http.thy ===== *)
theory Http
  imports Problem_Details Auth_Usecase
begin

text \<open>
  What the controllers share: handlers of HTTP requests, the dependencies that authenticate them
  (\<^verbatim>\<open>app/controllers/auth_dependencies.py\<close>), cookies, and the CSRF middleware
  (\<^verbatim>\<open>app/bootstrap/csrf.py\<close>) through which every request passes before it reaches a controller.

  A handler is a computation whose exceptions are those of a request (\<open>http_error\<close>): what a use
  case raises is either translated by the controller's \<open>except\<close> clauses or left unhandled.
\<close>

type_synonym ('l, 'c, 'a) http = "(('l, 'c) world, http_error, 'a) comp"

text \<open>\<open>try: usecase(...) except X as error: raise api_error(...) from error\<close>\<close>

definition calling :: "('l, 'c, 'a) prog \<Rightarrow> (exn \<Rightarrow> http_error) \<Rightarrow> ('l, 'c, 'a) http" where
  "calling m translate = (\<lambda>s. case m s of (Inl e, s') \<Rightarrow> (Inl (translate e), s') | (Inr x, s') \<Rightarrow> (Inr x, s'))"

lemma keeps_calling [keeps_intros]: "keeps I m \<Longrightarrow> keeps I (calling m f)"
  by (simp add: keeps_def calling_def split: prod.splits sum.splits) (metis snd_conv)

lemma wp_calling [wp_simps]: "wp (calling m f) Q E s = wp m Q (\<lambda>e. E (f e)) s"
  by (simp add: wp_def calling_def split: prod.splits sum.splits)

subsection \<open>Dependencies\<close>

definition get_client_ip :: "('l, 'c) app \<Rightarrow> request \<Rightarrow> ('l, 'c, string option) http" where
  "get_client_ip app r =
     (case resolve_client_ip r (AUTH_TRUSTED_PROXY_IPS (auth_settings_of app)) of
        None \<Rightarrow> raise (Unhandled (ValueError ''AUTH_TRUSTED_PROXY_IPS''))
      | Some ip \<Rightarrow> ok ip)"

definition session_cookie :: "('l, 'c) app \<Rightarrow> request \<Rightarrow> string option" where
  "session_cookie app r = cookies_get r (session_cookie_name (auth_settings_of app))"

definition current_session :: "('l, 'c) app \<Rightarrow> request \<Rightarrow> ('l, 'c, session_context option) http" where
  "current_session app r =
     bind (get_client_ip app r) (\<lambda>ip.
     calling (authenticate_session app (session_cookie app r) ip (get_user_agent r)) Unhandled)"

definition require_current_session :: "('l, 'c) app \<Rightarrow> request \<Rightarrow> ('l, 'c, session_context) http" where
  "require_current_session app r =
     bind (current_session app r) (\<lambda>auth_context. case auth_context of
       None \<Rightarrow> raise (api_error 401 ''unauthorized'' ''Unauthorized'')
     | Some cx \<Rightarrow> ok cx)"

definition require_permission :: "('l, 'c) app \<Rightarrow> string \<Rightarrow> request \<Rightarrow> ('l, 'c, session_context) http" where
  "require_permission app permission_code r =
     bind (require_current_session app r) (\<lambda>cx.
     if permission_code \<notin> cx_permissions cx then raise (api_error 403 ''permission_denied'' ''Permission denied'')
     else ok cx)"

text \<open>\<open>require_any_permission\<close> raises a \<open>ValueError\<close> when it is built from no permission at all.\<close>

definition require_any_permission ::
    "('l, 'c) app \<Rightarrow> string list \<Rightarrow> string + (request \<Rightarrow> ('l, 'c, session_context) http)" where
  "require_any_permission app permission_codes =
     (if permission_codes = [] then Inl ''permission_codes must not be empty''
      else Inr (\<lambda>r.
        bind (require_current_session app r) (\<lambda>cx.
        if cx_permissions cx \<inter> set permission_codes = {}
        then raise (api_error 403 ''permission_denied'' ''Permission denied'') else ok cx)))"

subsection \<open>Responses\<close>

definition json_response :: "int \<Rightarrow> (string \<times> string) list \<Rightarrow> set_cookie list \<Rightarrow> json \<Rightarrow> response" where
  "json_response status headers cookies body =
     \<lparr>rs_status = status, rs_headers = headers, rs_cookies = cookies, rs_body = Some body\<rparr>"

definition empty_response :: "int \<Rightarrow> set_cookie list \<Rightarrow> response" where
  "empty_response status cookies = \<lparr>rs_status = status, rs_headers = [], rs_cookies = cookies, rs_body = None\<rparr>"

definition no_store :: "(string \<times> string) list" where
  "no_store = [(''Cache-Control'', ''no-store'')]"

definition is_secure_request :: "('l, 'c) app \<Rightarrow> bool" where
  "is_secure_request app = (case AUTH_COOKIE_SECURE (auth_settings_of app) of Some b \<Rightarrow> b | None \<Rightarrow> True)"

text \<open>Writing a cookie may raise the \<open>ValueError\<close> of \<open>_validate_host_prefix\<close>.\<close>

definition cookie_step :: "(set_cookie list \<Rightarrow> string + set_cookie list) \<Rightarrow> set_cookie list \<Rightarrow> ('l, 'c, set_cookie list) http" where
  "cookie_step f cookies = lift (case f cookies of Inl e \<Rightarrow> Inl (Unhandled (ValueError e)) | Inr cs \<Rightarrow> Inr cs)"

definition set_session_cookie :: "('l, 'c) app \<Rightarrow> string \<Rightarrow> set_cookie list \<Rightarrow> ('l, 'c, set_cookie list) http" where
  "set_session_cookie app session_token =
     cookie_step (set_auth_cookie (session_cookie_name (auth_settings_of app)) session_token True (is_secure_request app)
       (AUTH_SESSION_ABSOLUTE_TTL_SECONDS (auth_settings_of app)))"

definition set_csrf_cookie :: "('l, 'c) app \<Rightarrow> string \<Rightarrow> set_cookie list \<Rightarrow> ('l, 'c, set_cookie list) http" where
  "set_csrf_cookie app csrf_token =
     cookie_step (set_auth_cookie csrf_cookie_name csrf_token False (is_secure_request app)
       (AUTH_SESSION_ABSOLUTE_TTL_SECONDS (auth_settings_of app)))"

definition clear_session_cookie :: "('l, 'c) app \<Rightarrow> set_cookie list \<Rightarrow> ('l, 'c, set_cookie list) http" where
  "clear_session_cookie app =
     cookie_step (clear_auth_cookie (session_cookie_name (auth_settings_of app)) True (is_secure_request app))"

definition clear_csrf_cookie :: "('l, 'c) app \<Rightarrow> set_cookie list \<Rightarrow> ('l, 'c, set_cookie list) http" where
  "clear_csrf_cookie app = cookie_step (clear_auth_cookie csrf_cookie_name False (is_secure_request app))"

definition set_oidc_binding_cookie ::
    "('l, 'c) app \<Rightarrow> string \<Rightarrow> string \<Rightarrow> int \<Rightarrow> set_cookie list \<Rightarrow> ('l, 'c, set_cookie list) http" where
  "set_oidc_binding_cookie app key value max_age =
     cookie_step (set_auth_cookie key value True (is_secure_request app) max_age)"

definition clear_oidc_binding_cookie :: "('l, 'c) app \<Rightarrow> string \<Rightarrow> set_cookie list \<Rightarrow> ('l, 'c, set_cookie list) http" where
  "clear_oidc_binding_cookie app key = cookie_step (clear_auth_cookie key True (is_secure_request app))"

subsection \<open>CSRF middleware\<close>

definition UNSAFE_METHODS :: "string list" where
  "UNSAFE_METHODS = [''POST'', ''PUT'', ''PATCH'', ''DELETE'']"

definition upper :: "string \<Rightarrow> string" where
  "upper s = map upper_char s"

definition csrf_exempt_paths :: "string \<Rightarrow> string set" where
  "csrf_exempt_paths raw_paths = set (filter (\<lambda>p. p \<noteq> []) (map strip (split_on (CHR '','') raw_paths)))"

definition route_path :: "request \<Rightarrow> string" where
  "route_path r =
     (if req_root_path r = [] then req_path r
      else if req_path r = req_root_path r then []
      else if startswith (req_path r) (req_root_path r @ ''/'') then drop (length (req_root_path r)) (req_path r)
      else req_path r)"

definition requires_csrf :: "('l, 'c) app \<Rightarrow> request \<Rightarrow> bool" where
  "requires_csrf app r =
     (upper (req_method r) \<in> set UNSAFE_METHODS \<and>
      (route_path r = ''/api'' \<or> startswith (route_path r) ''/api/'') \<and>
      route_path r \<notin> csrf_exempt_paths (AUTH_CSRF_EXEMPT_PATHS (auth_settings_of app)))"

definition csrf_error_response :: "string \<Rightarrow> response" where
  "csrf_error_response request_path = problem_response 403 ''csrf_validation_failed'' ''CSRF validation failed'' [] [] request_path []"

text \<open>\<open>_validate\<close>: an error response, or nothing when the request may pass.\<close>

definition csrf_validate :: "('l, 'c) app \<Rightarrow> request \<Rightarrow> ('l, 'c, response option) http" where
  "csrf_validate app r =
     (case (truthy (cookies_get r csrf_cookie_name), truthy (headers_get r ''x-csrf-token'')) of
        (Some cookie_token, Some header_token) \<Rightarrow>
          if cookie_token \<noteq> header_token then ok (Some (csrf_error_response (req_path r)))
          else (case truthy (session_cookie app r) of
            None \<Rightarrow> ok None
          | Some session_token \<Rightarrow>
              bind (get_client_ip app r) (\<lambda>ip.
              bind (calling (validate_session_csrf app session_token header_token ip (get_user_agent r)) Unhandled) (\<lambda>csrf_status.
              ok (if csrf_status = Csrf_mismatch then Some (csrf_error_response (req_path r)) else None))))
      | _ \<Rightarrow> ok (Some (csrf_error_response (req_path r))))"

text \<open>The exception handlers around a controller: every request ends in a response.\<close>

definition handled :: "string \<Rightarrow> ('l, 'c, response) http \<Rightarrow> ('l, 'c, response) prog" where
  "handled path m = (\<lambda>s. case m s of (Inl e, s') \<Rightarrow> (Inr (http_exception_handler path e), s') | (Inr x, s') \<Rightarrow> (Inr x, s'))"

text \<open>\<open>__call__\<close>: the middleware around the rest of the application.\<close>

definition csrf_middleware :: "('l, 'c) app \<Rightarrow> request \<Rightarrow> ('l, 'c, response) http \<Rightarrow> ('l, 'c, response) prog" where
  "csrf_middleware app r next =
     (if \<not> requires_csrf app r then handled (req_path r) next
      else (\<lambda>s. case csrf_validate app r s of
        (Inl _, s') \<Rightarrow> (Inr (problem_response 500 ''internal_server_error'' ''Internal server error'' [] [] (req_path r) []), s')
      | (Inr (Some error_response), s') \<Rightarrow> (Inr error_response, s')
      | (Inr None, s') \<Rightarrow> handled (req_path r) next s'))"

end
