(* ===== verification/In_Memory_Limiter.thy ===== *)
theory In_Memory_Limiter
  imports Rate_Limiter_Interface
begin

text \<open>
  \<open>InMemoryLoginRateLimiter\<close> (\<^verbatim>\<open>app/libraries/auth_rate_limiter.py\<close>): sliding-window counters
  in ordered dictionaries of deques, one dictionary per scope. An \<open>OrderedDict\<close> is an
  association list in insertion order, a deque of readings of the monotonic clock a list
  (oldest first), with the floats idealised as exact rationals. The successive readings
  of \<open>self._clock\<close> are a function of the number of calls made so far.

  The lemmas: the trimming loop is a filter on an ordered deque; every operation keeps
  \<open>im_inv\<close> (bounded number of non-empty ordered buckets, kept in the order of their
  latest entry, which is what makes the eviction loop complete); what each operation does
  to the number of active entries of every key.
\<close>

type_synonym buckets = "(string \<times> rat list) list"

record in_memory_limiter =
  window_seconds :: int
  registration_window_seconds :: int
  max_failures_per_email_ip :: int
  max_failures_per_ip :: int
  max_failures_per_email :: int
  max_registrations_per_ip :: int
  max_oidc_authorizations_per_ip :: int
  max_buckets_per_scope :: int
  clock_readings :: "nat \<Rightarrow> rat"
  clock_calls :: nat
  email_ip_buckets :: buckets
  ip_buckets :: buckets
  email_buckets :: buckets
  registration_ip_buckets :: buckets
  oidc_authorization_ip_buckets :: buckets
  cap_warning_scopes :: "string set"

subsection \<open>The bucket operations\<close>

fun trim :: "rat list \<Rightarrow> rat \<Rightarrow> int \<Rightarrow> rat list" where
  "trim [] now w = []"
| "trim (t # bucket) now w = (if now - t > of_int w then trim bucket now w else t # bucket)"

definition get_existing_bucket :: "buckets \<Rightarrow> string \<Rightarrow> rat \<Rightarrow> int \<Rightarrow> rat list \<times> buckets" where
  "get_existing_bucket buckets key now w =
     (case map_of buckets key of
        None \<Rightarrow> ([], buckets)
      | Some bucket \<Rightarrow>
          let bucket' = trim bucket now w in
          if bucket' = [] then ([], AList.delete key buckets)
          else (bucket', AList.update key bucket' buckets))"

definition move_to_end :: "string \<Rightarrow> buckets \<Rightarrow> buckets" where
  "move_to_end key buckets =
     (case map_of buckets key of
        None \<Rightarrow> buckets
      | Some bucket \<Rightarrow> AList.delete key buckets @ [(key, bucket)])"

fun evict_expired_buckets :: "int \<Rightarrow> buckets \<Rightarrow> rat \<Rightarrow> int \<Rightarrow> buckets" where
  "evict_expired_buckets cap [] now w = []"
| "evict_expired_buckets cap ((key, bucket) # buckets) now w =
     (if int (length ((key, bucket) # buckets)) \<ge> cap then
        let bucket' = trim bucket now w in
        if bucket' = [] then evict_expired_buckets cap buckets now w
        else (key, bucket') # buckets
      else (key, bucket) # buckets)"

definition warn_bucket_cap_reached :: "string set \<Rightarrow> string \<Rightarrow> string set" where
  "warn_bucket_cap_reached scopes scope_name =
     (if scope_name \<notin> scopes then insert scope_name scopes else scopes)"

definition get_or_create_bucket ::
    "int \<Rightarrow> string set \<Rightarrow> buckets \<Rightarrow> string \<Rightarrow> rat \<Rightarrow> int \<Rightarrow> string
       \<Rightarrow> rat list option \<times> buckets \<times> string set" where
  "get_or_create_bucket cap warned buckets key now w scope_name =
     (let (bucket, buckets1) = get_existing_bucket buckets key now w in
      if bucket \<noteq> [] then (Some bucket, move_to_end key buckets1, warned)
      else
        let buckets2 = (if int (length buckets1) \<ge> cap
                        then evict_expired_buckets cap buckets1 now w else buckets1) in
        if int (length buckets2) \<ge> cap
        then (None, buckets2, warn_bucket_cap_reached warned scope_name)
        else (Some [], buckets2 @ [(key, [])], warned))"

text \<open>
  \<open>bucket = self._get_or_create_bucket(...)\<close> followed by
  \<open>if bucket is not None: bucket.append(now)\<close>. The deque is shared with the dictionary, so
  the append is an update of the dictionary's entry.
\<close>

definition record_in :: "int \<Rightarrow> string set \<Rightarrow> buckets \<Rightarrow> string \<Rightarrow> rat \<Rightarrow> int \<Rightarrow> string
    \<Rightarrow> buckets \<times> string set" where
  "record_in cap warned buckets key now w scope_name =
     (let (found, buckets', warned') = get_or_create_bucket cap warned buckets key now w scope_name in
      (case found of
         None \<Rightarrow> (buckets', warned')
       | Some bucket \<Rightarrow> (AList.update key (bucket @ [now]) buckets', warned')))"

definition email_ip_key :: "string \<Rightarrow> string \<Rightarrow> string" where
  "email_ip_key ip_address normalized_email = ip_address @ '':'' @ normalized_email"

subsection \<open>The operations of the interface\<close>

definition im_now :: "in_memory_limiter \<Rightarrow> rat" where
  "im_now l = clock_readings l (clock_calls l)"

definition im_tick :: "in_memory_limiter \<Rightarrow> in_memory_limiter" where
  "im_tick l = l\<lparr>clock_calls := Suc (clock_calls l)\<rparr>"

definition im_is_allowed :: "string \<Rightarrow> string \<Rightarrow> in_memory_limiter \<Rightarrow> bool \<times> in_memory_limiter" where
  "im_is_allowed ip_address normalized_email l =
     (let now = im_now l;
          (b1, d1) = get_existing_bucket (email_ip_buckets l)
                       (email_ip_key ip_address normalized_email) now (window_seconds l);
          (b2, d2) = get_existing_bucket (ip_buckets l) ip_address now (window_seconds l);
          (b3, d3) = get_existing_bucket (email_buckets l) normalized_email now (window_seconds l)
      in (int (length b1) < max_failures_per_email_ip l \<and>
          int (length b2) < max_failures_per_ip l \<and>
          int (length b3) < max_failures_per_email l,
          (im_tick l)\<lparr>email_ip_buckets := d1, ip_buckets := d2, email_buckets := d3\<rparr>))"

definition im_is_account_deletion_reauth_allowed ::
    "string \<Rightarrow> string \<Rightarrow> in_memory_limiter \<Rightarrow> bool \<times> in_memory_limiter" where
  "im_is_account_deletion_reauth_allowed ip_address normalized_email l =
     (let now = im_now l;
          (b1, d1) = get_existing_bucket (email_ip_buckets l)
                       (email_ip_key ip_address normalized_email) now (window_seconds l);
          (b2, d2) = get_existing_bucket (ip_buckets l) ip_address now (window_seconds l)
      in (int (length b1) < max_failures_per_email_ip l \<and>
          int (length b2) < max_failures_per_ip l,
          (im_tick l)\<lparr>email_ip_buckets := d1, ip_buckets := d2\<rparr>))"

definition im_record_failure ::
    "string \<Rightarrow> string \<Rightarrow> bool \<Rightarrow> in_memory_limiter \<Rightarrow> in_memory_limiter" where
  "im_record_failure ip_address normalized_email include_email_bucket l =
     (let now = im_now l; cap = max_buckets_per_scope l; w = window_seconds l;
          (d1, w1) = record_in cap (cap_warning_scopes l) (email_ip_buckets l)
                       (email_ip_key ip_address normalized_email) now w ''email_ip'';
          (d2, w2) = record_in cap w1 (ip_buckets l) ip_address now w ''ip'';
          (d3, w3) = (if include_email_bucket
                      then record_in cap w2 (email_buckets l) normalized_email now w ''email''
                      else (email_buckets l, w2))
      in (im_tick l)\<lparr>email_ip_buckets := d1, ip_buckets := d2, email_buckets := d3,
                    cap_warning_scopes := w3\<rparr>)"

definition im_record_success :: "string \<Rightarrow> string \<Rightarrow> in_memory_limiter \<Rightarrow> in_memory_limiter" where
  "im_record_success ip_address normalized_email l =
     l\<lparr>email_ip_buckets :=
         AList.delete (email_ip_key ip_address normalized_email) (email_ip_buckets l)\<rparr>"

definition im_is_registration_allowed :: "string \<Rightarrow> in_memory_limiter \<Rightarrow> bool \<times> in_memory_limiter" where
  "im_is_registration_allowed ip_address l =
     (let (b, d) = get_existing_bucket (registration_ip_buckets l) ip_address (im_now l)
                     (registration_window_seconds l)
      in (int (length b) < max_registrations_per_ip l,
          (im_tick l)\<lparr>registration_ip_buckets := d\<rparr>))"

definition im_record_registration :: "string \<Rightarrow> in_memory_limiter \<Rightarrow> in_memory_limiter" where
  "im_record_registration ip_address l =
     (let (d, w) = record_in (max_buckets_per_scope l) (cap_warning_scopes l)
                     (registration_ip_buckets l) ip_address (im_now l)
                     (registration_window_seconds l) ''registration_ip''
      in (im_tick l)\<lparr>registration_ip_buckets := d, cap_warning_scopes := w\<rparr>)"

definition im_is_oidc_authorization_allowed ::
    "string \<Rightarrow> in_memory_limiter \<Rightarrow> bool \<times> in_memory_limiter" where
  "im_is_oidc_authorization_allowed ip_address l =
     (let (b, d) = get_existing_bucket (oidc_authorization_ip_buckets l) ip_address (im_now l)
                     (window_seconds l)
      in (int (length b) < max_oidc_authorizations_per_ip l,
          (im_tick l)\<lparr>oidc_authorization_ip_buckets := d\<rparr>))"

definition im_record_oidc_authorization :: "string \<Rightarrow> in_memory_limiter \<Rightarrow> in_memory_limiter" where
  "im_record_oidc_authorization ip_address l =
     (let (d, w) = record_in (max_buckets_per_scope l) (cap_warning_scopes l)
                     (oidc_authorization_ip_buckets l) ip_address (im_now l)
                     (window_seconds l) ''oidc_authorization_ip''
      in (im_tick l)\<lparr>oidc_authorization_ip_buckets := d, cap_warning_scopes := w\<rparr>)"

definition reset_for_tests :: "in_memory_limiter \<Rightarrow> in_memory_limiter" where
  "reset_for_tests l = l\<lparr>email_ip_buckets := [], ip_buckets := [], email_buckets := [],
     registration_ip_buckets := [], oidc_authorization_ip_buckets := [],
     cap_warning_scopes := {}\<rparr>"

definition in_memory_ops :: "in_memory_limiter limiter_ops" where
  "in_memory_ops = \<lparr>
     is_allowed = im_is_allowed,
     is_account_deletion_reauth_allowed = im_is_account_deletion_reauth_allowed,
     record_failure = im_record_failure,
     record_success = im_record_success,
     is_registration_allowed = im_is_registration_allowed,
     record_registration = im_record_registration,
     is_oidc_authorization_allowed = im_is_oidc_authorization_allowed,
     record_oidc_authorization = im_record_oidc_authorization\<rparr>"

text \<open>The constructor: empty dictionaries, no warning logged yet.\<close>

definition in_memory_init ::
    "int \<Rightarrow> int \<Rightarrow> int \<Rightarrow> int \<Rightarrow> int \<Rightarrow> int \<Rightarrow> int \<Rightarrow> int \<Rightarrow> (nat \<Rightarrow> rat) \<Rightarrow> in_memory_limiter" where
  "in_memory_init window registration_window per_email_ip per_ip per_email registrations oidc cap clock =
     \<lparr>window_seconds = window, registration_window_seconds = registration_window,
      max_failures_per_email_ip = per_email_ip, max_failures_per_ip = per_ip,
      max_failures_per_email = per_email, max_registrations_per_ip = registrations,
      max_oidc_authorizations_per_ip = oidc, max_buckets_per_scope = cap,
      clock_readings = clock, clock_calls = 0,
      email_ip_buckets = [], ip_buckets = [], email_buckets = [],
      registration_ip_buckets = [], oidc_authorization_ip_buckets = [],
      cap_warning_scopes = {}\<rparr>"

subsection \<open>Active entries\<close>

text \<open>
  The specification view of a dictionary: how many entries of a key are inside the window
  at a given instant.
\<close>

definition bucket_of :: "buckets \<Rightarrow> string \<Rightarrow> rat list" where
  "bucket_of buckets key = (case map_of buckets key of None \<Rightarrow> [] | Some b \<Rightarrow> b)"

definition live :: "rat \<Rightarrow> int \<Rightarrow> rat list \<Rightarrow> rat list" where
  "live now w b = filter (\<lambda>t. now - t \<le> of_int w) b"

definition active :: "buckets \<Rightarrow> string \<Rightarrow> rat \<Rightarrow> int \<Rightarrow> int" where
  "active buckets key now w = int (length (live now w (bucket_of buckets key)))"

text \<open>
  The invariant of one scope: unique keys, at most \<open>cap\<close> buckets, none empty, each
  ordered and not newer than the latest reading \<open>T\<close>, and the buckets in the order of
  their latest entry.
\<close>

definition bucket_ok :: "rat \<Rightarrow> rat list \<Rightarrow> bool" where
  "bucket_ok T b = (b \<noteq> [] \<and> sorted b \<and> last b \<le> T)"

definition scope_inv :: "int \<Rightarrow> rat \<Rightarrow> buckets \<Rightarrow> bool" where
  "scope_inv cap T buckets =
     (distinct (map fst buckets) \<and> int (length buckets) \<le> max 0 cap \<and>
      (\<forall>b \<in> snd ` set buckets. bucket_ok T b) \<and> sorted (map (\<lambda>e. last (snd e)) buckets))"

lemma live_Nil [simp]: "live now w [] = []"
  by (simp add: live_def)

lemma live_append [simp]: "live now w (a @ b) = live now w a @ live now w b"
  by (simp add: live_def)

lemma live_live: "now \<le> now' \<Longrightarrow> live now' w (live now w b) = live now' w b"
  unfolding live_def filter_filter by (rule filter_cong) auto

lemma trim_live: "sorted b \<Longrightarrow> trim b now w = live now w b"
proof (induction b)
  case (Cons t b)
  show ?case
  proof (cases "now - t > of_int w")
    case True
    with Cons show ?thesis by (simp add: live_def)
  next
    case False
    then have "\<forall>u \<in> set (t # b). now - u \<le> of_int w" using Cons.prems by auto
    then have "live now w (t # b) = t # b" by (simp add: live_def)
    with False show ?thesis by simp
  qed
qed (simp add: live_def)

lemma live_suffix_last: "sorted b \<Longrightarrow> live now w b \<noteq> [] \<Longrightarrow> last (live now w b) = last b"
proof (induction b rule: rev_induct)
  case (snoc t b)
  show ?case
  proof (cases "now - t \<le> of_int w")
    case True
    then show ?thesis by (simp add: live_def)
  next
    case False
    then have "\<forall>u \<in> set b. \<not> now - u \<le> of_int w" using snoc.prems(1) by (auto simp: sorted_append)
    with False have "live now w (b @ [t]) = []" by (simp add: live_def)
    with snoc.prems(2) show ?thesis by simp
  qed
qed simp

lemma live_nonempty_iff:
  assumes "sorted b" "b \<noteq> []"
  shows "live now w b \<noteq> [] \<longleftrightarrow> now - last b \<le> of_int w"
proof
  assume ne: "live now w b \<noteq> []"
  then have "last (live now w b) \<in> set (live now w b)" by simp
  with live_suffix_last [OF assms(1) ne] show "now - last b \<le> of_int w" by (simp add: live_def)
next
  assume "now - last b \<le> of_int w"
  with assms(2) have "last b \<in> set (live now w b)" by (simp add: live_def)
  then show "live now w b \<noteq> []" by auto
qed

lemma bucket_ok_live: "bucket_ok T b \<Longrightarrow> live now w b \<noteq> [] \<Longrightarrow> bucket_ok T (live now w b)"
  by (auto simp: bucket_ok_def live_suffix_last) (simp add: live_def sorted_filter [of "\<lambda>x. x", simplified])

lemma bucket_ok_mono: "bucket_ok T b \<Longrightarrow> T \<le> T' \<Longrightarrow> bucket_ok T' b"
  by (auto simp: bucket_ok_def)

lemma bucket_ok_snoc: "bucket_ok T b \<Longrightarrow> T \<le> now \<Longrightarrow> bucket_ok now (b @ [now])"
  by (auto simp: bucket_ok_def sorted_append intro: order_trans [OF sorted_le_last])

lemma scope_inv_mono: "scope_inv cap T bs \<Longrightarrow> T \<le> T' \<Longrightarrow> scope_inv cap T' bs"
  by (auto simp: scope_inv_def intro: bucket_ok_mono)

lemma scope_inv_Nil [simp]: "scope_inv cap T []"
  by (simp add: scope_inv_def)

lemma scope_inv_bucket: "scope_inv cap T bs \<Longrightarrow> map_of bs k = Some b \<Longrightarrow> bucket_ok T b"
  by (force simp: scope_inv_def dest: map_of_SomeD)

lemma scope_inv_filter:
  assumes inv: "scope_inv cap T bs"
  shows "scope_inv cap T (filter P bs)"
proof -
  have "int (length (filter P bs)) \<le> int (length bs)" by simp
  also have "\<dots> \<le> max 0 cap" using inv by (simp add: scope_inv_def)
  finally show ?thesis using inv
    by (auto simp: scope_inv_def distinct_map_filter sorted_filter)
qed

lemma scope_inv_delete: "scope_inv cap T bs \<Longrightarrow> scope_inv cap T (AList.delete k bs)"
  by (simp add: delete_filter scope_inv_filter)

lemma scope_inv_update:
  assumes inv: "scope_inv cap T bs" and k: "map_of bs k = Some b"
    and b': "bucket_ok T b'" "last b' = last b"
  shows "scope_inv cap T (AList.update k b' bs)"
proof -
  have keys: "map fst (AList.update k b' bs) = map fst bs"
    by (rule map_update_existing [OF k]) simp
  have lasts: "map (\<lambda>e. last (snd e)) (AList.update k b' bs) = map (\<lambda>e. last (snd e)) bs"
    by (rule map_update_existing [OF k]) (simp add: b'(2))
  from keys have len: "length (AList.update k b' bs) = length bs" by (metis length_map)
  from inv have "distinct (map fst bs)" by (simp add: scope_inv_def)
  then have "set (AList.update k b' bs) \<subseteq> insert (k, b') (set bs)" by (rule set_update_existing)
  with inv b'(1) have "\<forall>b \<in> snd ` set (AList.update k b' bs). bucket_ok T b"
    by (auto simp: scope_inv_def)
  with inv keys lasts len show ?thesis by (simp add: scope_inv_def)
qed

lemma scope_inv_snoc:
  assumes inv: "scope_inv cap T bs" and "k \<notin> fst ` set bs" "int (length bs) < cap"
    and b: "bucket_ok T b" and "\<forall>b' \<in> snd ` set bs. last b' \<le> last b"
  shows "scope_inv cap T (bs @ [(k, b)])"
  using assms by (auto simp: scope_inv_def sorted_append)

subsection \<open>What the bucket operations do\<close>

lemma bucket_of_delete: "bucket_of (AList.delete k bs) k' = (if k' = k then [] else bucket_of bs k')"
  by (simp add: bucket_of_def delete_conv')

lemma bucket_of_update: "bucket_of (AList.update k b bs) k' = (if k' = k then b else bucket_of bs k')"
  by (simp add: bucket_of_def update_conv')

lemma bucket_of_snoc: "k \<notin> fst ` set bs \<Longrightarrow>
    bucket_of (bs @ [(k, b)]) k' = (if k' = k then b else bucket_of bs k')"
  by (auto simp: bucket_of_def map_add_def split: option.splits dest: map_of_SomeD)
    (metis image_eqI fst_conv map_of_SomeD)+

lemma bucket_of_absent: "k \<notin> fst ` set bs \<Longrightarrow> bucket_of bs k = []"
  by (simp add: bucket_of_def map_of_eq_None_iff [THEN iffD2])

text \<open>A dictionary change that no later instant can observe.\<close>

definition same_active :: "rat \<Rightarrow> int \<Rightarrow> buckets \<Rightarrow> buckets \<Rightarrow> bool" where
  "same_active now w bs bs' =
     (\<forall>k now'. now \<le> now' \<longrightarrow> live now' w (bucket_of bs' k) = live now' w (bucket_of bs k))"

lemma same_active_refl [simp]: "same_active now w bs bs"
  by (simp add: same_active_def)

lemma same_active_trans: "same_active now w a b \<Longrightarrow> same_active now w b c \<Longrightarrow> same_active now w a c"
  by (simp add: same_active_def)

lemma same_activeD:
  "same_active now w bs bs' \<Longrightarrow> now \<le> now' \<Longrightarrow> active bs' k now' w = active bs k now' w"
  by (simp add: same_active_def active_def)

lemma live_of_dead: "now \<le> now' \<Longrightarrow> live now w b = [] \<Longrightarrow> live now' w b = []"
  by (metis live_Nil live_live)

lemma get_existing_bucket_spec:
  assumes inv: "scope_inv cap T bs" and T: "T \<le> now"
    and r: "get_existing_bucket bs key now w = (b, bs')"
  shows "b = live now w (bucket_of bs key)" and "scope_inv cap T bs'"
    and "same_active now w bs bs'" and "length bs' \<le> length bs"
    and "b \<noteq> [] \<Longrightarrow> map_of bs' key = Some b" and "b = [] \<Longrightarrow> key \<notin> fst ` set bs'"
proof -
  have *: "b = live now w (bucket_of bs key) \<and> scope_inv cap T bs' \<and> same_active now w bs bs'
     \<and> length bs' \<le> length bs \<and> (b \<noteq> [] \<longrightarrow> map_of bs' key = Some b) \<and> (b = [] \<longrightarrow> key \<notin> fst ` set bs')"
  proof (cases "map_of bs key")
    case None
    then have "key \<notin> fst ` set bs" by (simp add: map_of_eq_None_iff)
    with None r inv show ?thesis
      by (simp add: get_existing_bucket_def bucket_of_def)
  next
    case (Some b0)
    then have b0: "bucket_ok T b0" using inv by (rule_tac scope_inv_bucket)
    then have tr: "trim b0 now w = live now w b0" by (simp add: trim_live bucket_ok_def)
    have bo: "bucket_of bs key = b0" using Some by (simp add: bucket_of_def)
    show ?thesis
    proof (cases "live now w b0 = []")
      case True
      then have r': "b = []" "bs' = AList.delete key bs"
        using r Some tr by (simp_all add: get_existing_bucket_def)
      have "same_active now w bs bs'"
        using True bo by (auto simp: same_active_def r' bucket_of_delete dest: live_of_dead)
      moreover have "length bs' \<le> length bs" by (simp add: r' delete_filter)
      ultimately show ?thesis using True inv bo
        by (auto simp: r' delete_filter scope_inv_filter)
    next
      case False
      then have r': "b = live now w b0" "bs' = AList.update key (live now w b0) bs"
        using r Some tr by (auto simp: get_existing_bucket_def Let_def)
      have "scope_inv cap T bs'" unfolding r'
        by (rule scope_inv_update [OF inv Some bucket_ok_live [OF b0 False]])
          (use b0 False in \<open>simp add: live_suffix_last bucket_ok_def\<close>)
      moreover have "same_active now w bs bs'"
        using bo by (simp add: same_active_def r' bucket_of_update live_live)
      moreover have "length bs' = length bs"
        unfolding r' using map_update_existing [OF Some, of fst] by (metis fst_conv length_map)
      ultimately show ?thesis using False bo by (simp add: r' update_conv')
    qed
  qed
  then show "b = live now w (bucket_of bs key)" and "scope_inv cap T bs'"
    and "same_active now w bs bs'" and "length bs' \<le> length bs"
    and "b \<noteq> [] \<Longrightarrow> map_of bs' key = Some b" and "b = [] \<Longrightarrow> key \<notin> fst ` set bs'"
    by blast+
qed

text \<open>
  The eviction loop only looks at the front of the dictionary. Because the buckets are in
  the order of their latest entry this is enough: if it leaves the dictionary at its cap,
  every bucket left has an entry inside the window.
\<close>

lemma evict_spec:
  assumes "scope_inv cap T bs" "T \<le> now"
  shows "scope_inv cap T (evict_expired_buckets cap bs now w)
     \<and> same_active now w bs (evict_expired_buckets cap bs now w)
     \<and> fst ` set (evict_expired_buckets cap bs now w) \<subseteq> fst ` set bs
     \<and> (int (length (evict_expired_buckets cap bs now w)) \<ge> cap \<longrightarrow>
         (\<forall>b \<in> snd ` set (evict_expired_buckets cap bs now w). live now w b \<noteq> []))"
  using assms
proof (induction cap bs now w rule: evict_expired_buckets.induct)
  case (2 cap key b bs now w)
  have b: "bucket_ok T b" and inv': "scope_inv cap T bs"
    using "2.prems"(1) by (auto simp: scope_inv_def)
  have tr: "trim b now w = live now w b" using b by (simp add: trim_live bucket_ok_def)
  have key: "key \<notin> fst ` set bs" using "2.prems"(1) by (simp add: scope_inv_def)
  consider (small) "int (length ((key, b) # bs)) < cap"
    | (dead) "int (length ((key, b) # bs)) \<ge> cap" "live now w b = []"
    | (full) "int (length ((key, b) # bs)) \<ge> cap" "live now w b \<noteq> []" by linarith
  then show ?case
  proof cases
    case small
    with "2.prems" show ?thesis by auto
  next
    case dead
    have "bucket_of bs key = []" using key by (rule bucket_of_absent)
    with dead(2) have "same_active now w ((key, b) # bs) bs"
      by (auto simp: same_active_def bucket_of_def dest: live_of_dead)
    moreover have "evict_expired_buckets cap ((key, b) # bs) now w = evict_expired_buckets cap bs now w"
      using dead tr by simp
    ultimately show ?thesis using "2.IH" dead tr inv' "2.prems"(2) by (auto dest: same_active_trans)
  next
    case full
    let ?r = "(key, live now w b) # bs"
    have ev: "evict_expired_buckets cap ((key, b) # bs) now w = ?r" using full tr by (simp add: Let_def)
    have lst: "last (live now w b) = last b" using b full(2) by (simp add: bucket_ok_def live_suffix_last)
    have "scope_inv cap T ?r" using "2.prems"(1) bucket_ok_live [OF b full(2)] lst
      by (auto simp: scope_inv_def)
    moreover have "same_active now w ((key, b) # bs) ?r"
      by (auto simp: same_active_def bucket_of_def live_live)
    moreover have "live now w c \<noteq> []" if "c \<in> snd ` set bs" for c
    proof -
      have c: "bucket_ok T c" "last b \<le> last c" using that "2.prems"(1) by (auto simp: scope_inv_def)
      have "now - last b \<le> of_int w" using live_nonempty_iff [of b now w] b full(2) by (simp add: bucket_ok_def)
      with c show ?thesis by (simp add: live_nonempty_iff bucket_ok_def)
    qed
    ultimately show ?thesis unfolding ev using full(2) by (auto simp: live_live)
  qed
qed simp

lemmas evict_inv = evict_spec [THEN conjunct1]
lemmas evict_same = evict_spec [THEN conjunct2, THEN conjunct1]
lemmas evict_keys = evict_spec [THEN conjunct2, THEN conjunct2, THEN conjunct1]
lemmas evict_complete = evict_spec [THEN conjunct2, THEN conjunct2, THEN conjunct2]

text \<open>
  Appending \<open>now\<close> to the bucket of \<open>key\<close>: what every later instant sees of the
  dictionary before and after.
\<close>

definition recorded :: "string \<Rightarrow> rat \<Rightarrow> int \<Rightarrow> buckets \<Rightarrow> buckets \<Rightarrow> bool" where
  "recorded key now w bs bs' =
     (\<forall>k now'. now \<le> now' \<longrightarrow> live now' w (bucket_of bs' k) =
        live now' w (bucket_of bs k) @ (if k = key then live now' w [now] else []))"

definition dropped :: "int \<Rightarrow> string \<Rightarrow> rat \<Rightarrow> int \<Rightarrow> buckets \<Rightarrow> buckets \<Rightarrow> bool" where
  "dropped cap key now w bs bs' =
     (same_active now w bs bs' \<and> active bs key now w = 0 \<and> cap \<le> int (length bs') \<and>
      (\<forall>b \<in> snd ` set bs'. live now w b \<noteq> []))"

lemma recordedI:
  "same_active now w bs bs1 \<Longrightarrow>
   (\<And>k. bucket_of bs' k = (if k = key then bucket_of bs1 key @ [now] else bucket_of bs1 k)) \<Longrightarrow>
   recorded key now w bs bs'"
  by (simp add: recorded_def same_active_def)

lemma update_snoc:
  "key \<notin> fst ` set xs \<Longrightarrow> AList.update key v (xs @ [(key, u)]) = xs @ [(key, v)]"
  by (induction xs) auto

lemma append_existing:
  assumes inv: "scope_inv cap T bs" and T: "T \<le> now" and m: "map_of bs key = Some b"
  defines "bs' \<equiv> AList.update key (b @ [now]) (move_to_end key bs)"
  shows "scope_inv cap now bs'"
    and "bucket_of bs' k = (if k = key then bucket_of bs key @ [now] else bucket_of bs k)"
proof -
  have k1: "key \<notin> fst ` set (AList.delete key bs)" by (auto simp: delete_filter)
  have bs': "bs' = AList.delete key bs @ [(key, b @ [now])]"
    by (simp add: bs'_def move_to_end_def m update_snoc [OF k1])
  have invd: "scope_inv cap now (AList.delete key bs)"
    using inv T by (simp add: scope_inv_delete scope_inv_mono)
  have "length (AList.delete key bs) < length bs"
    unfolding delete_filter by (rule length_filter_less) (use map_of_SomeD [OF m] in auto)
  then have len: "int (length (AList.delete key bs)) < cap"
    using inv by (auto simp: scope_inv_def)
  have "\<forall>c \<in> snd ` set (AList.delete key bs). last c \<le> last (b @ [now])"
    using invd by (auto simp: scope_inv_def bucket_ok_def)
  then show "scope_inv cap now bs'"
    unfolding bs' using scope_inv_snoc [OF invd k1 len] bucket_ok_snoc [OF scope_inv_bucket [OF inv m] T]
    by blast
  have "bucket_of bs key = b" using m by (simp add: bucket_of_def)
  then show "bucket_of bs' k = (if k = key then bucket_of bs key @ [now] else bucket_of bs k)"
    unfolding bs' by (auto simp: bucket_of_snoc [OF k1] bucket_of_delete)
qed

lemma append_new:
  assumes inv: "scope_inv cap T bs" and T: "T \<le> now" and k: "key \<notin> fst ` set bs"
    and len: "int (length bs) < cap"
  defines "bs' \<equiv> AList.update key [now] (bs @ [(key, [])])"
  shows "scope_inv cap now bs'"
    and "bucket_of bs' k' = (if k' = key then bucket_of bs key @ [now] else bucket_of bs k')"
proof -
  have bs': "bs' = bs @ [(key, [now])]" by (simp add: bs'_def update_snoc [OF k])
  have inv': "scope_inv cap now bs" using inv T by (rule scope_inv_mono)
  then have "\<forall>c \<in> snd ` set bs. last c \<le> last [now]" by (auto simp: scope_inv_def bucket_ok_def)
  then show "scope_inv cap now bs'"
    unfolding bs' using scope_inv_snoc [OF inv' k len] by (auto simp: bucket_ok_def)
  show "bucket_of bs' k' = (if k' = key then bucket_of bs key @ [now] else bucket_of bs k')"
    unfolding bs' by (simp add: bucket_of_snoc [OF k] bucket_of_absent [OF k])
qed

text \<open>An entry is either recorded, or dropped at a cap of active buckets.\<close>

lemma record_in_spec:
  assumes inv: "scope_inv cap T bs" and T: "T \<le> now"
    and r: "record_in cap warned bs key now w scope = (bs', warned')"
  shows "scope_inv cap now bs' \<and>
    (recorded key now w bs bs' \<and> warned' = warned \<or>
     dropped cap key now w bs bs' \<and> warned' = insert scope warned)"
proof -
  obtain b1 bs1 where ge: "get_existing_bucket bs key now w = (b1, bs1)"
    by (cases "get_existing_bucket bs key now w")
  note g = get_existing_bucket_spec [OF inv T ge]
  show ?thesis
  proof (cases "b1 = []")
    case False
    have m: "map_of bs1 key = Some b1" using g(5) False by simp
    have bs': "bs' = AList.update key (b1 @ [now]) (move_to_end key bs1)" "warned' = warned"
      using r ge False by (simp_all add: record_in_def get_or_create_bucket_def)
    show ?thesis unfolding bs'
      using append_existing [OF g(2) T m] recordedI [OF g(3)] by blast
  next
    case True
    define bs2 where
      "bs2 = (if cap \<le> int (length bs1) then evict_expired_buckets cap bs1 now w else bs1)"
    have inv2: "scope_inv cap T bs2" and same2: "same_active now w bs1 bs2"
      and k2: "key \<notin> fst ` set bs2"
      using evict_spec [OF g(2) T, of w] g(2) g(6) [OF True] by (auto simp: bs2_def)
    have same: "same_active now w bs bs2" by (rule same_active_trans [OF g(3) same2])
    have res: "record_in cap warned bs key now w scope =
        (if cap \<le> int (length bs2) then (bs2, warn_bucket_cap_reached warned scope)
         else (AList.update key [now] (bs2 @ [(key, [])]), warned))"
      using ge True by (simp add: record_in_def get_or_create_bucket_def bs2_def [symmetric] Let_def)
    show ?thesis
    proof (cases "cap \<le> int (length bs2)")
      case full: True
      have "\<forall>b \<in> snd ` set bs2. live now w b \<noteq> []"
        using evict_complete [OF g(2) T, of w] full by (auto simp: bs2_def split: if_splits)
      then have "dropped cap key now w bs bs2"
        using same full g(1) True by (simp add: dropped_def active_def)
      with full res r inv2 T show ?thesis
        by (auto simp: warn_bucket_cap_reached_def intro: scope_inv_mono)
    next
      case room: False
      then have "int (length bs2) < cap" by simp
      with append_new [OF inv2 T k2] recordedI [OF same] room res r show ?thesis by fastforce
    qed
  qed
qed

subsection \<open>The invariant of the limiter\<close>

definition im_inv :: "in_memory_limiter \<Rightarrow> bool" where
  "im_inv l =
     (mono (clock_readings l) \<and>
      (\<forall>bs \<in> {email_ip_buckets l, ip_buckets l, email_buckets l, registration_ip_buckets l,
               oidc_authorization_ip_buckets l}.
         scope_inv (max_buckets_per_scope l) (im_now l) bs))"

lemmas im_op_defs = im_is_allowed_def im_is_account_deletion_reauth_allowed_def
  im_record_failure_def im_record_success_def im_is_registration_allowed_def
  im_record_registration_def im_is_oidc_authorization_allowed_def
  im_record_oidc_authorization_def

lemma im_now_mono: "mono (clock_readings l) \<Longrightarrow> im_now l \<le> clock_readings l (Suc (clock_calls l))"
  by (simp add: im_now_def mono_def)

text \<open>The two ways an operation changes a scope, both from the invariant at \<open>im_now\<close>.\<close>

lemma get_existing_inv:
  "scope_inv cap now bs \<Longrightarrow> get_existing_bucket bs k now w = (b, bs') \<Longrightarrow> now \<le> now' \<Longrightarrow>
     scope_inv cap now' bs'"
  by (blast dest: get_existing_bucket_spec(2) intro: scope_inv_mono order_refl)

lemma record_in_inv:
  "scope_inv cap now bs \<Longrightarrow> record_in cap wn bs k now w sc = (bs', wn') \<Longrightarrow> now \<le> now' \<Longrightarrow>
     scope_inv cap now' bs'"
  by (blast dest: record_in_spec intro: scope_inv_mono order_refl)

lemma im_tick_sel [simp]:
  "clock_readings (im_tick l) = clock_readings l" "clock_calls (im_tick l) = Suc (clock_calls l)"
  "window_seconds (im_tick l) = window_seconds l"
  "max_buckets_per_scope (im_tick l) = max_buckets_per_scope l"
  "email_ip_buckets (im_tick l) = email_ip_buckets l" "ip_buckets (im_tick l) = ip_buckets l"
  "email_buckets (im_tick l) = email_buckets l"
  "registration_ip_buckets (im_tick l) = registration_ip_buckets l"
  "oidc_authorization_ip_buckets (im_tick l) = oidc_authorization_ip_buckets l"
  by (simp_all add: im_tick_def)

lemma im_step_inv:
  assumes "im_inv l"
  shows "im_inv (limiter_step in_memory_ops c l)"
proof -
  note mono = im_now_mono [of l]
  note intros = get_existing_inv record_in_inv scope_inv_mono scope_inv_delete
  show ?thesis using assms mono
    by (cases c)
      (auto simp: im_inv_def in_memory_ops_def im_op_defs im_now_def [of "_ :: in_memory_limiter"] Let_def
        split: prod.splits if_splits intro: intros)
qed

interpretation im: login_rate_limiter in_memory_ops im_inv
  by unfold_locales (rule im_step_inv)

lemma in_memory_init_inv: "mono clock \<Longrightarrow> im_inv (in_memory_init w rw a b c d e cap clock)"
  by (simp add: im_inv_def in_memory_init_def)

subsection \<open>Properties\<close>

lemma im_inv_scopes:
  assumes "im_inv l"
  shows "scope_inv (max_buckets_per_scope l) (im_now l) (email_ip_buckets l)"
    and "scope_inv (max_buckets_per_scope l) (im_now l) (ip_buckets l)"
    and "scope_inv (max_buckets_per_scope l) (im_now l) (email_buckets l)"
    and "scope_inv (max_buckets_per_scope l) (im_now l) (registration_ip_buckets l)"
    and "scope_inv (max_buckets_per_scope l) (im_now l) (oidc_authorization_ip_buckets l)"
  using assms by (simp_all add: im_inv_def)

lemma get_existing_len:
  assumes "scope_inv cap now bs" "get_existing_bucket bs k now w = (b, bs')"
  shows "int (length b) = active bs k now w" "same_active now w bs bs'"
  using get_existing_bucket_spec [OF assms(1) order_refl assms(2)] by (simp_all add: active_def)

lemma im_is_allowed_spec:
  assumes inv: "im_inv l"
    and r: "im_is_allowed ip em l = (allowed, l')"
  shows "allowed = (active (email_ip_buckets l) (email_ip_key ip em) (im_now l) (window_seconds l)
                      < max_failures_per_email_ip l \<and>
                    active (ip_buckets l) ip (im_now l) (window_seconds l) < max_failures_per_ip l \<and>
                    active (email_buckets l) em (im_now l) (window_seconds l) < max_failures_per_email l)"
    and "same_active (im_now l) (window_seconds l) (email_ip_buckets l) (email_ip_buckets l')"
    and "same_active (im_now l) (window_seconds l) (ip_buckets l) (ip_buckets l')"
    and "same_active (im_now l) (window_seconds l) (email_buckets l) (email_buckets l')"
  using r get_existing_len [OF im_inv_scopes(1) [OF inv]] get_existing_len [OF im_inv_scopes(2) [OF inv]]
    get_existing_len [OF im_inv_scopes(3) [OF inv]]
  by (auto simp: im_is_allowed_def Let_def split: prod.splits)

text \<open>
  C24: a login is allowed exactly when, at the instant of the check, the number of
  recorded failures inside the window is below the limit in each of the three scopes;
  and the check is an observation: no count of any key, now or later, is changed by it.
\<close>

theorem is_allowed_sliding_window:
  assumes inv: "im_inv l"
    and r: "im_is_allowed ip em l = (allowed, l')"
  shows "allowed = (active (email_ip_buckets l) (email_ip_key ip em) (im_now l) (window_seconds l)
                      < max_failures_per_email_ip l \<and>
                    active (ip_buckets l) ip (im_now l) (window_seconds l) < max_failures_per_ip l \<and>
                    active (email_buckets l) em (im_now l) (window_seconds l) < max_failures_per_email l)
         \<and> same_active (im_now l) (window_seconds l) (email_ip_buckets l) (email_ip_buckets l')
         \<and> same_active (im_now l) (window_seconds l) (ip_buckets l) (ip_buckets l')
         \<and> same_active (im_now l) (window_seconds l) (email_buckets l) (email_buckets l')"
  using im_is_allowed_spec [OF assms] by blast

text \<open>A limiter with a clock of one reading per second, for the witnesses.\<close>

definition demo_limiter :: in_memory_limiter where
  "demo_limiter = in_memory_init 900 3600 2 20 20 10 20 2 (\<lambda>n. of_nat n)"

lemma demo_limiter_inv: "im_inv demo_limiter"
  unfolding demo_limiter_def by (rule in_memory_init_inv) (simp add: mono_def)

lemma is_allowed_sliding_window_witness:
  "im_inv demo_limiter \<and> fst (im_is_allowed ''1.2.3.4'' ''a@b'' demo_limiter)"
proof -
  obtain r l' where e: "im_is_allowed ''1.2.3.4'' ''a@b'' demo_limiter = (r, l')" by fastforce
  have r using is_allowed_sliding_window [OF demo_limiter_inv e]
    by (simp add: demo_limiter_def in_memory_init_def active_def bucket_of_def)
  with e demo_limiter_inv show ?thesis by simp
qed

text \<open>The calls that add to, and those that erase, the bucket of an address and email.\<close>

fun counts_failure :: "string \<Rightarrow> limiter_call \<Rightarrow> bool" where
  "counts_failure key (RecordFailure ip em b) = (email_ip_key ip em = key)"
| "counts_failure key c = False"

fun erases :: "string \<Rightarrow> limiter_call \<Rightarrow> bool" where
  "erases key (RecordSuccess ip em) = (email_ip_key ip em = key)"
| "erases key c = False"

lemma get_existing_later:
  assumes "scope_inv cap now bs" "get_existing_bucket bs k now w = (b, bs')" "now \<le> t"
  shows "active bs' key t w = active bs key t w"
  using get_existing_len(2) [OF assms(1,2)] assms(3) by (rule same_activeD)

lemma record_in_later:
  assumes inv: "scope_inv cap now bs" and r: "record_in cap wn bs k now w sc = (bs', wn')"
    and t: "now \<le> t" "t - now \<le> of_int w" and "k = key \<Longrightarrow> 0 < active bs key t w"
  shows "active bs' key t w = active bs key t w + (if k = key then 1 else 0)"
proof -
  consider "recorded k now w bs bs'" | "dropped cap k now w bs bs'"
    using record_in_spec [OF inv order_refl r] by blast
  then show ?thesis
  proof cases
    case 1
    with t show ?thesis by (auto simp: recorded_def active_def live_def)
  next
    case 2
    have "active bs k t w = 0" using 2 t(1)
      by (auto simp: dropped_def active_def dest: live_of_dead)
    with 2 assms(5) t(1) show ?thesis by (auto simp: dropped_def same_activeD)
  qed
qed

lemma step_config [simp]:
  "window_seconds (limiter_step in_memory_ops c l) = window_seconds l"
  "max_failures_per_email_ip (limiter_step in_memory_ops c l) = max_failures_per_email_ip l"
  "max_buckets_per_scope (limiter_step in_memory_ops c l) = max_buckets_per_scope l"
  "clock_readings (limiter_step in_memory_ops c l) = clock_readings l"
  by (cases c; simp add: in_memory_ops_def im_op_defs im_tick_def Let_def split: prod.splits)+

lemma step_clock: "clock_calls l \<le> clock_calls (limiter_step in_memory_ops c l)"
  by (cases c; simp add: in_memory_ops_def im_op_defs im_tick_def Let_def split: prod.splits)

lemma run_config [simp]:
  "window_seconds (limiter_run in_memory_ops cs l) = window_seconds l"
  "max_failures_per_email_ip (limiter_run in_memory_ops cs l) = max_failures_per_email_ip l"
  "max_buckets_per_scope (limiter_run in_memory_ops cs l) = max_buckets_per_scope l"
  "clock_readings (limiter_run in_memory_ops cs l) = clock_readings l"
  by (induction cs arbitrary: l) simp_all

lemma run_clock: "clock_calls l \<le> clock_calls (limiter_run in_memory_ops cs l)"
  by (induction cs arbitrary: l) (auto intro: order_trans [OF step_clock])

lemma step_active:
  assumes inv: "im_inv l" and t: "im_now l \<le> t" "t - im_now l \<le> of_int (window_seconds l)"
    and pos: "0 < active (email_ip_buckets l) key t (window_seconds l)" and "\<not> erases key c"
  shows "active (email_ip_buckets (limiter_step in_memory_ops c l)) key t (window_seconds l) =
    active (email_ip_buckets l) key t (window_seconds l) + (if counts_failure key c then 1 else 0)"
proof -
  note sc = im_inv_scopes(1) [OF inv]
  note simps = in_memory_ops_def im_op_defs Let_def
  show ?thesis
  proof (cases c)
    case (IsAllowed ip em)
    then show ?thesis using get_existing_later [OF sc _ t(1)]
      by (simp add: simps split: prod.splits)
  next
    case (IsAccountDeletionReauthAllowed ip em)
    then show ?thesis using get_existing_later [OF sc _ t(1)]
      by (simp add: simps split: prod.splits)
  next
    case (RecordFailure ip em b)
    then show ?thesis using record_in_later [OF sc _ t, where key = key] pos
      by (simp add: simps split: prod.splits)
  next
    case (RecordSuccess ip em)
    with assms(5) show ?thesis by (auto simp: simps active_def bucket_of_delete)
  qed (simp_all add: simps split: prod.splits)
qed

lemma run_active:
  assumes "im_inv l" "\<forall>c \<in> set cs. \<not> erases key c"
    and "im_now (limiter_run in_memory_ops cs l) \<le> t"
    and "t - im_now l \<le> of_int (window_seconds l)"
    and "0 < active (email_ip_buckets l) key t (window_seconds l)"
  shows "active (email_ip_buckets (limiter_run in_memory_ops cs l)) key t (window_seconds l) =
    active (email_ip_buckets l) key t (window_seconds l) + int (length (filter (counts_failure key) cs))"
  using assms
proof (induction cs arbitrary: l)
  case (Cons c cs)
  let ?l = "limiter_step in_memory_ops c l"
  have mono: "mono (clock_readings l)" using Cons.prems(1) by (simp add: im_inv_def)
  have "im_now ?l \<le> im_now (limiter_run in_memory_ops cs ?l)"
    using mono run_clock [of ?l cs] by (simp add: im_now_def mono_def)
  moreover have le: "im_now l \<le> im_now ?l"
    using mono step_clock [of l c] by (simp add: im_now_def mono_def)
  ultimately have t: "im_now l \<le> t" "im_now ?l \<le> t" using Cons.prems(3) by simp_all
  have step: "active (email_ip_buckets ?l) key t (window_seconds l) =
    active (email_ip_buckets l) key t (window_seconds l) + (if counts_failure key c then 1 else 0)"
    by (rule step_active) (use Cons.prems t in auto)
  have "active (email_ip_buckets (limiter_run in_memory_ops cs ?l)) key t (window_seconds ?l) =
    active (email_ip_buckets ?l) key t (window_seconds ?l) + int (length (filter (counts_failure key) cs))"
    by (rule Cons.IH) (use Cons.prems step le im_step_inv in auto)
  with step show ?case by simp
qed simp

text \<open>
  C25: the lock-out works. Once a failure of an address and email is counted, every further
  one is counted, whatever other calls are interleaved (checks, failures and registrations
  of other clients, evictions), as long as no successful login of that pair intervenes;
  when the sum inside the window reaches the limit the next check refuses.
\<close>

theorem lockout_after_failures:
  assumes inv: "im_inv l" and no_success: "\<forall>c \<in> set cs. \<not> erases (email_ip_key ip em) c"
    and l': "l' = limiter_run in_memory_ops cs l"
    and window: "im_now l' - im_now l \<le> of_int (window_seconds l)"
    and first: "0 < active (email_ip_buckets l) (email_ip_key ip em) (im_now l') (window_seconds l)"
    and many: "active (email_ip_buckets l) (email_ip_key ip em) (im_now l') (window_seconds l)
        + int (length (filter (counts_failure (email_ip_key ip em)) cs)) \<ge> max_failures_per_email_ip l"
  shows "\<not> fst (im_is_allowed ip em l')"
proof -
  have inv': "im_inv l'" unfolding l' by (rule im.run_inv [OF inv])
  have "active (email_ip_buckets l') (email_ip_key ip em) (im_now l') (window_seconds l)
      \<ge> max_failures_per_email_ip l"
    using run_active [OF inv no_success order_refl, folded l', OF window first] many by simp
  then show ?thesis
    using im_is_allowed_spec(1) [OF inv', of ip em] l' by (cases "im_is_allowed ip em l'") simp
qed

text \<open>Two failures, an unrelated check and a third failure of the same pair.\<close>

definition demo_failed :: in_memory_limiter where
  "demo_failed = limiter_run in_memory_ops [RecordFailure ''1.2.3.4'' ''a@b'' True] demo_limiter"

definition demo_calls :: "limiter_call list" where
  "demo_calls = [IsRegistrationAllowed ''5.6.7.8'', RecordFailure ''1.2.3.4'' ''a@b'' True]"

lemma demo_failed_inv: "im_inv demo_failed"
  unfolding demo_failed_def by (rule im.run_inv [OF demo_limiter_inv])

lemmas demo_defs = demo_limiter_def demo_failed_def demo_calls_def in_memory_init_def
  in_memory_ops_def im_op_defs im_tick_def im_now_def record_in_def get_or_create_bucket_def
  get_existing_bucket_def email_ip_key_def move_to_end_def Let_def

lemma lockout_after_failures_witness:
  "\<not> fst (im_is_allowed ''1.2.3.4'' ''a@b'' (limiter_run in_memory_ops demo_calls demo_failed))"
  by (rule lockout_after_failures [OF demo_failed_inv _ refl])
    (simp_all add: demo_defs active_def bucket_of_def live_def)

text \<open>
  C26: the memory of the limiter is bounded. From a fresh limiter, after any sequence of
  calls, no scope holds more than \<open>max_buckets_per_scope\<close> buckets, no bucket is empty and
  no key occurs twice.
\<close>

theorem buckets_bounded:
  assumes clock: "mono clock"
    and l: "l = limiter_run in_memory_ops calls (in_memory_init w rw a b c d e cap clock)"
    and bs: "bs \<in> {email_ip_buckets l, ip_buckets l, email_buckets l, registration_ip_buckets l,
                   oidc_authorization_ip_buckets l}"
  shows "int (length bs) \<le> max 0 cap \<and> distinct (map fst bs) \<and> [] \<notin> snd ` set bs"
proof -
  have "im_inv l" unfolding l by (rule im.run_inv [OF in_memory_init_inv [OF clock]])
  moreover have "max_buckets_per_scope l = cap" by (simp add: l in_memory_init_def)
  ultimately have "scope_inv cap (im_now l) bs" using bs by (auto dest: im_inv_scopes)
  then show ?thesis by (auto simp: scope_inv_def bucket_ok_def)
qed

lemma buckets_bounded_witness:
  "length (email_ip_buckets (limiter_run in_memory_ops
     [RecordFailure ''1'' ''a'' True, RecordFailure ''2'' ''b'' True, RecordFailure ''3'' ''c'' True]
     (in_memory_init 900 3600 5 20 20 10 20 2 (\<lambda>n. of_nat n)))) \<le> 2"
proof -
  have "mono (\<lambda>n. of_nat n :: rat)" by (simp add: mono_def)
  from buckets_bounded [OF this refl, where calls = "[RecordFailure ''1'' ''a'' True,
      RecordFailure ''2'' ''b'' True, RecordFailure ''3'' ''c'' True]"
      and w = 900 and rw = 3600 and a = 5 and b = 20 and c = 20 and d = 10 and e = 20 and cap = 2]
  show ?thesis by (simp add: max_def)
qed

text \<open>
  A failure is never lost silently. After \<open>record_failure\<close> the count of the address
  and email pair has gone up by one, at this instant and for as long as the window lasts;
  or the pair had no failure inside the window, the scope is full of buckets that all have
  one, and the scope's cap warning has been logged. No other pair's count changes.
\<close>

theorem record_failure_counts_or_warns:
  assumes inv: "im_inv l" and l': "l' = im_record_failure ip em b l"
    and t: "im_now l \<le> t" "t - im_now l \<le> of_int (window_seconds l)"
  shows "(active (email_ip_buckets l') (email_ip_key ip em) t (window_seconds l) =
            active (email_ip_buckets l) (email_ip_key ip em) t (window_seconds l) + 1
          \<or> active (email_ip_buckets l) (email_ip_key ip em) (im_now l) (window_seconds l) = 0
            \<and> max_buckets_per_scope l \<le> int (length (email_ip_buckets l'))
            \<and> (\<forall>bk \<in> snd ` set (email_ip_buckets l'). live (im_now l) (window_seconds l) bk \<noteq> [])
            \<and> ''email_ip'' \<in> cap_warning_scopes l')
         \<and> (\<forall>key. key \<noteq> email_ip_key ip em \<longrightarrow>
              active (email_ip_buckets l') key t (window_seconds l) =
              active (email_ip_buckets l) key t (window_seconds l))"
proof -
  let ?k = "email_ip_key ip em" and ?w = "window_seconds l" and ?cap = "max_buckets_per_scope l"
  obtain d1 w1 where r: "record_in ?cap (cap_warning_scopes l) (email_ip_buckets l) ?k (im_now l) ?w
      ''email_ip'' = (d1, w1)" by fastforce
  have d1: "email_ip_buckets l' = d1" using r by (simp add: l' im_record_failure_def Let_def split: prod.splits)
  have w1: "w1 \<subseteq> cap_warning_scopes l'"
    using r by (auto simp: l' im_record_failure_def record_in_def get_or_create_bucket_def
        warn_bucket_cap_reached_def Let_def split: prod.splits if_splits option.splits)
  from record_in_spec [OF im_inv_scopes(1) [OF inv] order_refl r] show ?thesis
  proof (elim conjE disjE)
    assume "recorded ?k (im_now l) ?w (email_ip_buckets l) d1"
    with t show ?thesis unfolding d1 by (simp add: recorded_def active_def live_def)
  next
    assume "dropped ?cap ?k (im_now l) ?w (email_ip_buckets l) d1" "w1 = insert ''email_ip'' (cap_warning_scopes l)"
    with t w1 show ?thesis unfolding d1 by (auto simp: dropped_def same_activeD)
  qed
qed

lemma record_failure_counts_or_warns_witness:
  "active (email_ip_buckets (im_record_failure ''1.2.3.4'' ''a@b'' True demo_failed))
     ''1.2.3.4:a@b'' 1 900 = 2"
  using record_failure_counts_or_warns [OF demo_failed_inv refl, of 1 "''1.2.3.4''" "''a@b''" True]
  by (simp add: demo_defs active_def bucket_of_def live_def)


definition demo_later :: in_memory_limiter where
  "demo_later = demo_failed\<lparr>clock_calls := 902\<rparr>"


end
