(* ===== verification/Auth_Properties.thy ===== *)
theory Auth_Properties
  imports Auth_Usecase In_Memory_Limiter
begin

text \<open>
  What the authentication use case guarantees: exactly the sessions in force of live and active
  users authenticate; failed logins are indistinguishable and recorded; a session that a login
  issued authenticates afterwards; logging out ends the session; the invariant of the database
  and of the limiter is kept by every operation.
\<close>

subsection \<open>Rows that are found\<close>

lemma unique_bex:
  assumes "\<And>y. y \<in> A \<Longrightarrow> P y \<Longrightarrow> y = x" "x \<in> A" "P x"
  shows "(if \<exists>y \<in> A. P y then \<exists>y \<in> A. P y \<and> Q y else R) = Q x"
proof -
  have "\<exists>y \<in> A. P y" using assms(2,3) by (rule bexI [rotated])
  moreover have "(\<exists>y \<in> A. P y \<and> Q y) = Q x" using assms by metis
  ultimately show ?thesis by simp
qed

lemma inj_key: "distinct (map f xs) \<Longrightarrow> y \<in> set xs \<Longrightarrow> x \<in> set xs \<Longrightarrow> f y = f x \<Longrightarrow> y = x"
  unfolding distinct_map by (blast dest: inj_onD)

lemma wp_find_user_by_id_found:
  assumes ok: "db_ok (w_db s)" and u: "u \<in> set (users (w_db s))" "u_id u = uid"
  shows "wp (find_user_by_id_for_authentication uid) Q E s = Q (Some u) s"
  unfolding wp_find_user_by_id [OF ok]
  by (rule unique_bex [OF inj_key [OF db_ok_distinct(1) [OF ok]]]) (use u in simp_all)

lemma wp_find_user_by_id_none:
  assumes "db_ok (w_db s)" "uid \<notin> user_ids (w_db s)"
  shows "wp (find_user_by_id_for_authentication uid) Q E s = Q None s"
  using assms(2) unfolding wp_find_user_by_id [OF assms(1)] by auto

lemma wp_find_active_session_found:
  assumes ok: "db_ok (w_db s)" and x: "x \<in> set (auth_sessions (w_db s))" "session_in_force h (w_clock s (w_clock_n s)) x"
  shows "wp (find_active_session_by_token_hash h) Q E s = Q (Some x) (s\<lparr>w_clock_n := Suc (w_clock_n s)\<rparr>)"
  unfolding wp_find_active_session [OF ok]
  by (rule unique_bex [OF inj_key [OF db_ok_distinct(4) [OF ok]]]) (use x in \<open>simp_all add: session_in_force_def\<close>)

lemma wp_find_active_session_none:
  assumes ok: "db_ok (w_db s)" and "\<not> (\<exists>x \<in> set (auth_sessions (w_db s)). session_in_force h (w_clock s (w_clock_n s)) x)"
  shows "wp (find_active_session_by_token_hash h) Q E s = Q None (s\<lparr>w_clock_n := Suc (w_clock_n s)\<rparr>)"
  using assms(2) unfolding wp_find_active_session [OF ok] by auto

lemma wp_find_user_by_email_found:
  assumes ok: "db_ok (w_db s)" and u: "u \<in> set (users (w_db s))" "lower (u_email u) = em" "u_deleted_at u = None"
  shows "wp (find_user_by_email em) Q E s = Q (Some u) s"
  unfolding wp_find_user_by_email [OF ok]
  by (rule unique_bex [OF inj_key [OF db_ok_distinct(2) [OF ok, unfolded active_emails_def]]]) (use u in simp_all)

lemma wp_find_user_by_email_none:
  assumes ok: "db_ok (w_db s)" and "\<not> (\<exists>u \<in> set (users (w_db s)). lower (u_email u) = em \<and> u_deleted_at u = None)"
  shows "wp (find_user_by_email em) Q E s = Q None s"
  using assms(2) unfolding wp_find_user_by_email [OF ok] by auto

subsection \<open>Authenticating a session\<close>

text \<open>The roles and permissions a user has by the assignments of the database.\<close>

abbreviation authorization_in :: "database \<Rightarrow> uuid \<Rightarrow> user_authorization" where
  "authorization_in d uid \<equiv> fst (resolve_user_authorization uid (role_codes_for_user d uid))"

lemma wp_authorization_total:
  assumes "\<And>t. w_db t = w_db s \<Longrightarrow> w_lim t = w_lim s \<Longrightarrow> Q (authorization_in (w_db s) uid) t"
  shows "wp (authorization_for_existing_user uid) Q E s"
proof -
  obtain a w where r: "resolve_user_authorization uid (role_codes_for_user (w_db s) uid) = (a, w)" by fastforce
  from assms r show ?thesis
    by (cases w) (auto simp: authorization_for_existing_user_def get_user_role_codes_def wp_session_scope wp_simps)
qed

lemma sessions_ok_update:
  assumes "db_ok d" "\<And>x. s_id (g x) = s_id x" "\<And>x. s_user_id (g x) = s_user_id x"
    "\<And>x. s_session_token_hash (g x) = s_session_token_hash x"
  shows "sessions_ok (d\<lparr>auth_sessions := update_rows P g (auth_sessions d)\<rparr>)"
  using assms(1) by (simp add: db_ok_def sessions_ok_def assms(2-4))

lemma wp_touch_if_due:
  assumes ok: "db_ok (w_db s)" and a: "a \<in> set (auth_sessions (w_db s))"
    and Q: "\<And>r t. s_id r = s_id a \<Longrightarrow> user_roles (w_db t) = user_roles (w_db s) \<Longrightarrow>
        users (w_db t) = users (w_db s) \<Longrightarrow> Q r t"
  shows "wp (touch_if_due app a now) Q E s"
proof -
  have f: "List.find (\<lambda>x. s_id x = s_id a) (auth_sessions (w_db s)) = Some a"
    by (rule find_id_unique [OF db_ok_distinct(3) [OF ok] a refl])
  have k: "sessions_ok ((w_db s)\<lparr>auth_sessions := update_rows (\<lambda>x. s_id x = s_id a)
      (\<lambda>x. x\<lparr>s_last_seen_at := l, s_expires_at := e\<rparr>) (auth_sessions (w_db s))\<rparr>)" for l e
    by (rule sessions_ok_update [OF ok]) simp_all
  show ?thesis
    unfolding touch_if_due_def Let_def touch_session_def update_sessions_def
    by (auto simp: wp_simps wp_session_scope f k intro!: Q)
qed

lemma authenticate_found_accepts:
  fixes s :: "('l, 'c) world"
  assumes ok: "db_ok (w_db s)" and a: "a \<in> set (auth_sessions (w_db s))"
    and u: "u \<in> set (users (w_db s))" "u_id u = s_user_id a" "u_deleted_at u = None" "u_is_active u"
  shows "wp (authenticate_found app a ip ua)
     (\<lambda>r t. \<exists>cx. r = Some cx \<and> cx_user cx = u \<and> s_id (cx_session cx) = s_id a
        \<and> cx_roles cx = ua_roles (authorization_in (w_db s) (u_id u))
        \<and> cx_permissions cx = ua_permissions (authorization_in (w_db s) (u_id u)))
     (\<lambda>_ _. False) s"
proof -
  let ?Q = "\<lambda>r t. \<exists>cx. r = Some cx \<and> cx_user cx = u \<and> s_id (cx_session cx) = s_id a
        \<and> cx_roles cx = ua_roles (authorization_in (w_db s) (u_id u))
        \<and> cx_permissions cx = ua_permissions (authorization_in (w_db s) (u_id u))"
  have "wp (touch_if_due app a now) (\<lambda>r. wp (bind (authorization_for_existing_user (u_id u)) (\<lambda>x.
      ok (Some \<lparr>cx_user = u, cx_session = r, cx_roles = ua_roles x, cx_permissions = ua_permissions x\<rparr>)))
      ?Q (\<lambda>_ _. False)) (\<lambda>_ _. False) (s\<lparr>w_clock_n := n\<rparr>)" for now n
  proof (rule wp_touch_if_due)
    fix r :: auth_session and t :: "('l, 'c) world"
    assume "s_id r = s_id a" "user_roles (w_db t) = user_roles (w_db (s\<lparr>w_clock_n := n\<rparr>))"
    then show "wp (bind (authorization_for_existing_user (u_id u)) (\<lambda>x.
      ok (Some \<lparr>cx_user = u, cx_session = r, cx_roles = ua_roles x, cx_permissions = ua_permissions x\<rparr>)))
      ?Q (\<lambda>_ _. False) t"
      unfolding wp_bind wp_ok by (intro wp_authorization_total) (simp add: role_codes_for_user_def)
  qed (use ok a in simp_all)
  with u show ?thesis
    unfolding authenticate_found_def
    by (simp add: wp_bind wp_find_user_by_id_found [OF ok u(1,2)] wp_utcnow)
qed

lemma authenticate_found_only_live:
  fixes s :: "('l, 'c) world"
  assumes ok: "db_ok (w_db s)"
    and no: "\<not> (\<exists>u \<in> set (users (w_db s)). u_id u = s_user_id a \<and> u_deleted_at u = None \<and> u_is_active u)"
  shows "wp (authenticate_found app a ip ua) (\<lambda>r _. r = None) (\<lambda>_ _. True) s"
proof -
  show ?thesis
  proof (cases "s_user_id a \<in> user_ids (w_db s)")
    case True
    then obtain u where u: "u \<in> set (users (w_db s))" "u_id u = s_user_id a" by auto
    with no have "u_deleted_at u \<noteq> None \<or> \<not> u_is_active u" by auto
    then show ?thesis
      unfolding authenticate_found_def wp_bind wp_find_user_by_id_found [OF ok u] by (auto intro: wp_seq_returns)
  next
    case False
    then show ?thesis
      unfolding authenticate_found_def wp_bind wp_find_user_by_id_none [OF ok False] by (auto intro: wp_seq_returns)
  qed
qed

text \<open>The session in force and its user, if there are such, for a presented token.\<close>

definition authenticates :: "('l, 'c) app \<Rightarrow> ('l, 'c) world \<Rightarrow> string \<Rightarrow> auth_session \<Rightarrow> user \<Rightarrow> bool" where
  "authenticates app s token x u =
     (x \<in> set (auth_sessions (w_db s)) \<and> session_in_force (hash_token app token) (w_clock s (w_clock_n s)) x \<and>
      u \<in> set (users (w_db s)) \<and> u_id u = s_user_id x \<and> u_deleted_at u = None \<and> u_is_active u)"

lemma authenticate_exact:
  fixes s :: "('l, 'c) world"
  assumes ok: "db_ok (w_db s)" and tok: "token \<noteq> []"
  shows "(authenticates app s token x u \<longrightarrow>
           (\<exists>cx s'. authenticate_session app (Some token) ip ua s = (Inr (Some cx), s')
              \<and> cx_user cx = u \<and> s_id (cx_session cx) = s_id x
              \<and> cx_roles cx = ua_roles (authorization_in (w_db s) (u_id u))
              \<and> cx_permissions cx = ua_permissions (authorization_in (w_db s) (u_id u))))
    \<and> (authenticate_session app (Some token) ip ua s = (Inr (Some cx), s') \<longrightarrow>
           (\<exists>x u. authenticates app s token x u \<and> cx_user cx = u \<and> s_id (cx_session cx) = s_id x))"
proof -
  define s1 where "s1 = s\<lparr>w_in_tx := True\<rparr>"
  define s2 where "s2 = s1\<lparr>w_clock_n := Suc (w_clock_n s)\<rparr>"
  have ok1: "db_ok (w_db s1)" and ok2: "db_ok (w_db s2)" using ok by (simp_all add: s1_def s2_def)
  have accept: "wp (authenticate_session app (Some token) ip ua)
      (\<lambda>r t. \<exists>cx. r = Some cx \<and> cx_user cx = u \<and> s_id (cx_session cx) = s_id x
        \<and> cx_roles cx = ua_roles (authorization_in (w_db s) (u_id u))
        \<and> cx_permissions cx = ua_permissions (authorization_in (w_db s) (u_id u))) (\<lambda>_ _. False) s"
    if "authenticates app s token x u" for x u
  proof -
    from that have x: "x \<in> set (auth_sessions (w_db s1))"
      "session_in_force (hash_token app token) (w_clock s1 (w_clock_n s1)) x"
      and u: "u \<in> set (users (w_db s2))" "u_id u = s_user_id x" "u_deleted_at u = None" "u_is_active u"
      by (simp_all add: authenticates_def s1_def s2_def)
    have "x \<in> set (auth_sessions (w_db s2))" using x(1) by (simp add: s2_def s1_def)
    from authenticate_found_accepts [OF ok2 this u, of app ip ua] tok show ?thesis
      unfolding authenticate_session_def Let_def
      by (simp add: truthy_def wp_transaction_value s1_def [symmetric] wp_bind wp_find_active_session_found [OF ok1 x])
        (simp add: s2_def s1_def)
  qed
  have none: "wp (authenticate_session app (Some token) ip ua) (\<lambda>r _. r = None) (\<lambda>_ _. True) s"
    if no: "\<nexists>x u. authenticates app s token x u"
  proof (cases "\<exists>x \<in> set (auth_sessions (w_db s1)). session_in_force (hash_token app token) (w_clock s1 (w_clock_n s1)) x")
    case True
    then obtain x where x: "x \<in> set (auth_sessions (w_db s1))"
      "session_in_force (hash_token app token) (w_clock s1 (w_clock_n s1)) x" by blast
    with no have "\<not> (\<exists>u \<in> set (users (w_db s2)). u_id u = s_user_id x \<and> u_deleted_at u = None \<and> u_is_active u)"
      by (auto simp: authenticates_def s1_def s2_def)
    from authenticate_found_only_live [OF ok2 this, of app ip ua] tok show ?thesis
      unfolding authenticate_session_def Let_def
      by (simp add: truthy_def wp_transaction_value s1_def [symmetric] wp_bind wp_find_active_session_found [OF ok1 x])
        (simp add: s2_def s1_def)
  next
    case False
    then show ?thesis using tok
      unfolding authenticate_session_def Let_def
      by (simp add: truthy_def wp_transaction_value s1_def [symmetric] wp_bind wp_find_active_session_none [OF ok1 False] wp_seq_returns)
  qed
  show ?thesis
  proof (intro conjI impI)
    assume "authenticates app s token x u"
    from wp_OkD [OF accept [OF this]] show "\<exists>cx s'. authenticate_session app (Some token) ip ua s = (Inr (Some cx), s')
              \<and> cx_user cx = u \<and> s_id (cx_session cx) = s_id x
              \<and> cx_roles cx = ua_roles (authorization_in (w_db s) (u_id u))
              \<and> cx_permissions cx = ua_permissions (authorization_in (w_db s) (u_id u))" by blast
  next
    assume r: "authenticate_session app (Some token) ip ua s = (Inr (Some cx), s')"
    then obtain x u where a: "authenticates app s token x u" using wp_Ok [OF none r] by blast
    with wp_Ok [OF accept [OF a] r] show "\<exists>x u. authenticates app s token x u \<and> cx_user cx = u \<and> s_id (cx_session cx) = s_id x"
      by auto
  qed
qed


text \<open>
  C2: a presented token authenticates exactly when it should. In a database that satisfies its
  constraints, a session that is in force by the clock, neither revoked nor expired, of a user
  who is neither deleted nor deactivated always authenticates, without an exception, as that
  user and that session with the roles and permissions assigned in the database; and whenever a
  context is returned, the token is that of such a session.
\<close>

theorem authenticate_session_exact:
  fixes s :: "('l, 'c) world"
  assumes ok: "db_ok (w_db s)" and tok: "token \<noteq> []"
  shows "(authenticates app s token x u \<longrightarrow>
           (\<exists>cx s'. authenticate_session app (Some token) ip ua s = (Inr (Some cx), s')
              \<and> cx_user cx = u \<and> s_id (cx_session cx) = s_id x
              \<and> cx_roles cx = ua_roles (authorization_in (w_db s) (u_id u))
              \<and> cx_permissions cx = ua_permissions (authorization_in (w_db s) (u_id u))))
    \<and> (authenticate_session app (Some token) ip ua s = (Inr (Some cx), s') \<longrightarrow>
           (\<exists>x u. authenticates app s token x u \<and> cx_user cx = u \<and> s_id (cx_session cx) = s_id x))"
  by (rule authenticate_exact [OF assms])

subsection \<open>A small application for examples\<close>

text \<open>
  A provider client that answers with the claims it holds, a digest and a password hash that are
  easy to evaluate, and the default settings, over any limiter.
\<close>

definition demo_provider :: oidc_provider where
  "demo_provider = \<lparr>op_provider_id = ''idp'', op_display_name = ''IdP'', op_issuer = ''https://idp.example'',
     op_client_id = ''client'', op_client_secret = ''secret'', op_scope = [''openid'', ''email''],
     op_trust_verified_email = True, op_auto_provision = Provision_enabled, op_link_mode = Link_auto,
     op_callback_path = ''/api/auth/oidc/idp/callback'', op_claims_allowlist = []\<rparr>"

definition demo_app :: "'l limiter_ops \<Rightarrow> ('l, oidc_verified_claims) app" where
  "demo_app ops = \<lparr>auth_settings_of = default_auth_settings,
     oidc_settings_of = \<lparr>os_providers = [demo_provider], AUTH_OIDC_REDIRECT_BASE_URL = None,
       AUTH_OIDC_REAUTH_FRESHNESS_SECONDS = 300, AUTH_OIDC_AUTHORIZATION_STARTS_PER_IP = 20,
       AUTH_OIDC_STATE_TTL_SECONDS = 600, AUTH_OIDC_AUTH_TIME_FUTURE_LEEWAY_SECONDS = 60\<rparr>,
     sha256_hex = (\<lambda>t. ''h:'' @ t), hash_password_with = (\<lambda>_ raw. ''hash:'' @ raw),
     verify_password = (\<lambda>raw h. h = ''hash:'' @ raw), s256_code_challenge = (\<lambda>v. ''c:'' @ v),
     auth_rate_limiter = ops,
     oidc_provider_client = \<lparr>
       build_authorization_url = (\<lambda>pid st nonce challenge prompt max_age hint c. (Inr (''https://idp.example/auth?state='' @ st), c)),
       exchange_code = (\<lambda>pid code verifier c. (Inr ''id-token'', c)),
       validate_id_token = (\<lambda>pid tok nonce fresh c. (Inr c, c))\<rparr>\<rparr>"

definition demo_claims :: oidc_verified_claims where
  "demo_claims = \<lparr>vc_provider_id = ''idp'', vc_issuer = ''https://idp.example'', vc_audience = ''client'',
     vc_subject = ''sub-1'', vc_email = Some ''Ann@example.com'', vc_email_verified = True, vc_issued_at = 0,
     vc_expires_at = seconds 3600, vc_auth_time = Some (seconds 30), vc_claims_json = JObj []\<rparr>"

abbreviation demo_running :: "(in_memory_limiter, oidc_verified_claims) world" where
  "demo_running \<equiv> demo_world demo_limiter demo_claims"


lemma authenticate_session_exact_witness:
  "\<exists>cx s'. authenticate_session (demo_app in_memory_ops) (Some ''tok'') None None demo_running = (Inr (Some cx), s')
     \<and> u_email (cx_user cx) = ''ann@example.com''"
proof -
  let ?x = "demo_session 5 1 ''h:tok''" and ?u = "demo_user 1 ''ann@example.com''"
  have ok: "db_ok (w_db demo_running)"
    using app_invD(1) [OF demo_database_inv] by (simp add: demo_world_def)
  have "authenticates (demo_app in_memory_ops) demo_running ''tok'' ?x ?u" by code_simp
  moreover have "u_email ?u = ''ann@example.com''" by (simp add: demo_user_def)
  ultimately show ?thesis
    using authenticate_session_exact [OF ok, of "''tok''" "demo_app in_memory_ops" ?x ?u None None] by force
qed

subsection \<open>Issuing a session\<close>

lemma wp_audit:
  assumes "\<And>t. users (w_db t) = users (w_db s) \<Longrightarrow> auth_sessions (w_db t) = auth_sessions (w_db s) \<Longrightarrow>
      user_roles (w_db t) = user_roles (w_db s) \<Longrightarrow> w_clock t = w_clock s \<Longrightarrow> w_clock_n s \<le> w_clock_n t \<Longrightarrow> Q () t"
  shows "wp (audit u si ev ip ua det) Q (\<lambda>_ _. True) s"
  unfolding audit_def create_audit_log_def insert_audit_log_def
  by (auto simp: wp_simps wp_session_scope intro!: assms split: option.splits)

lemma wp_revoke_session_found:
  assumes ok: "db_ok (w_db s)" and a: "a \<in> set (auth_sessions (w_db s))"
    and Q: "\<And>t now. w_db t = (w_db s)\<lparr>auth_sessions := update_rows (\<lambda>x. s_id x = s_id a)
        (\<lambda>x. x\<lparr>s_revoked_at := Some now\<rparr>) (auth_sessions (w_db s))\<rparr> \<Longrightarrow> w_lim t = w_lim s \<Longrightarrow>
        w_clock t = w_clock s \<Longrightarrow> w_clock_n s \<le> w_clock_n t \<Longrightarrow> Q () t"
  shows "wp (revoke_session (s_id a)) Q E s"
proof -
  have f: "List.find (\<lambda>x. s_id x = s_id a) (auth_sessions (w_db s)) = Some a"
    by (rule find_id_unique [OF db_ok_distinct(3) [OF ok] a refl])
  have k: "sessions_ok ((w_db s)\<lparr>auth_sessions := update_rows (\<lambda>x. s_id x = s_id a)
      (\<lambda>x. x\<lparr>s_revoked_at := Some r\<rparr>) (auth_sessions (w_db s))\<rparr>)" for r
    by (rule sessions_ok_update [OF ok]) simp_all
  show ?thesis
    unfolding revoke_session_def update_sessions_def
    by (simp add: wp_simps wp_session_scope f k) (rule Q, simp_all)
qed

text \<open>What a created session row says, and that it is in the table.\<close>

definition fresh_session ::
    "('l, 'c) app \<Rightarrow> user \<Rightarrow> database \<Rightarrow> auth_session \<Rightarrow> string \<Rightarrow> string \<Rightarrow> bool" where
  "fresh_session app user d x tok csrf =
     (x \<in> set (auth_sessions d) \<and> s_user_id x = u_id user \<and> s_session_token_hash x = hash_token app tok \<and>
      s_csrf_token_hash x = hash_token app csrf \<and> s_revoked_at x = None \<and>
      s_expires_at x = s_issued_at x + seconds (min (AUTH_SESSION_IDLE_TTL_SECONDS (auth_settings_of app))
        (AUTH_SESSION_ABSOLUTE_TTL_SECONDS (auth_settings_of app))))"

text \<open>No session other than \<open>x\<close> is in force for the token that the browser presented.\<close>

definition only_in_force :: "('l, 'c) app \<Rightarrow> string option \<Rightarrow> datetime \<Rightarrow> auth_session \<Rightarrow> database \<Rightarrow> bool" where
  "only_in_force app cur now x d =
     (\<forall>t y. truthy cur = Some t \<longrightarrow> y \<in> set (auth_sessions d) \<longrightarrow> session_in_force (hash_token app t) now y \<longrightarrow> y = x)"

lemma expiry_at_issue:
  "calculate_session_expiry S t t = t + seconds (min (AUTH_SESSION_IDLE_TTL_SECONDS S) (AUTH_SESSION_ABSOLUTE_TTL_SECONDS S))"
  by (auto simp: calculate_session_expiry_def min_def)

lemma wp_issue:
  assumes none: "\<And>t y. truthy cur = Some t \<Longrightarrow> y \<in> set (auth_sessions (w_db s)) \<Longrightarrow>
      \<not> session_in_force (hash_token app t) now y"
    and Q: "\<And>x tok csrf t. fresh_session app user (w_db t) x tok csrf \<Longrightarrow> only_in_force app cur now x (w_db t) \<Longrightarrow>
      users (w_db t) = users (w_db s) \<Longrightarrow> Q (x, tok, csrf) t"
  shows "wp (bind generate_token (\<lambda>session_token.
     bind generate_token (\<lambda>csrf_token.
     bind utcnow (\<lambda>issued_at.
     bind (create_session (u_id user) (hash_token app session_token) (hash_token app csrf_token)
             issued_at issued_at (calculate_session_expiry (auth_settings_of app) issued_at issued_at)
             ip ua) (\<lambda>session.
     ok (session, session_token, csrf_token)))))) Q (\<lambda>_ _. True) s"
  unfolding create_session_def insert_session_def Let_def
  using none
  by (auto simp: wp_simps wp_session_scope fresh_session_def only_in_force_def expiry_at_issue
      intro!: Q split: option.splits)


lemma revoked_not_in_force:
  assumes ok: "db_ok d" and a: "a \<in> set (auth_sessions d)" "session_in_force h now a"
    and y: "y \<in> set (update_rows (\<lambda>x. s_id x = s_id a) (\<lambda>x. x\<lparr>s_revoked_at := Some r\<rparr>) (auth_sessions d))"
  shows "\<not> session_in_force h now y"
proof
  assume f: "session_in_force h now y"
  from y obtain z where z: "z \<in> set (auth_sessions d)"
    "y = (if s_id z = s_id a then z\<lparr>s_revoked_at := Some r\<rparr> else z)" by (auto simp: set_update_rows)
  show False
  proof (cases "s_id z = s_id a")
    case True
    with z(2) f show False by (simp add: session_in_force_def)
  next
    case False
    with z f have "s_session_token_hash z = s_session_token_hash a"
      using a(2) by (simp add: session_in_force_def)
    from inj_key [OF db_ok_distinct(4) [OF ok] z(1) a(1) this] False show False by simp
  qed
qed

lemma replace_auth_session_spec:
  fixes s :: "('l, 'c) world"
  assumes ok: "db_ok (w_db s)"
    and Q: "\<And>x tok csrf t. fresh_session app user (w_db t) x tok csrf \<Longrightarrow>
      only_in_force app cur (w_clock s (w_clock_n s)) x (w_db t) \<Longrightarrow> users (w_db t) = users (w_db s) \<Longrightarrow> Q (x, tok, csrf) t"
  shows "wp (replace_auth_session app user cur ip ua) Q (\<lambda>_ _. True) s"
proof (cases "truthy cur")
  case None
  then show ?thesis
    unfolding replace_auth_session_def wp_seq
    by (simp add: wp_ok) (rule wp_issue [where cur = cur and now = "w_clock s (w_clock_n s)"], simp_all add: Q)
next
  case (Some c)
  let ?now = "w_clock s (w_clock_n s)" and ?s1 = "s\<lparr>w_clock_n := Suc (w_clock_n s)\<rparr>" and ?h = "hash_token app c"
  show ?thesis
  proof (cases "\<exists>a \<in> set (auth_sessions (w_db s)). session_in_force ?h ?now a")
    case True
    then obtain a where a: "a \<in> set (auth_sessions (w_db s))" "session_in_force ?h ?now a" by blast
    show ?thesis
      unfolding replace_auth_session_def wp_seq Some option.case wp_bind [where m = "find_active_session_by_token_hash h" for h]
        wp_find_active_session_found [OF ok a]
    proof (rule wp_revoke_session_found)
      fix t :: "('l, 'c) world" and r
      assume t: "w_db t = (w_db ?s1)\<lparr>auth_sessions := update_rows (\<lambda>x. s_id x = s_id a)
        (\<lambda>x. x\<lparr>s_revoked_at := Some r\<rparr>) (auth_sessions (w_db ?s1))\<rparr>"
      show "wp (bind generate_token (\<lambda>session_token. bind generate_token (\<lambda>csrf_token. bind utcnow (\<lambda>issued_at.
        bind (create_session (u_id user) (hash_token app session_token) (hash_token app csrf_token)
          issued_at issued_at (calculate_session_expiry (auth_settings_of app) issued_at issued_at) ip ua)
          (\<lambda>session. ok (session, session_token, csrf_token)))))) Q (\<lambda>_ _. True) t"
        by (rule wp_issue [where cur = cur and now = ?now])
          (use Some t revoked_not_in_force [OF ok a] in \<open>auto intro: Q\<close>)
    qed (use ok a in simp_all)
  next
    case False
    then show ?thesis
      unfolding replace_auth_session_def wp_seq Some option.case wp_bind [where m = "find_active_session_by_token_hash h" for h]
        wp_find_active_session_none [OF ok False] wp_ok
      by (intro wp_issue [where cur = cur and now = ?now]) (use Some in \<open>auto intro: Q\<close>)
  qed
qed

subsection \<open>Logging in\<close>

text \<open>The account that the credentials name, when they are right.\<close>

definition credentials_of :: "('l, 'c) app \<Rightarrow> database \<Rightarrow> string \<Rightarrow> string \<Rightarrow> user \<Rightarrow> bool" where
  "credentials_of app d email password u =
     (u \<in> set (users d) \<and> lower (u_email u) = normalize_email email \<and> u_deleted_at u = None \<and> u_is_active u \<and>
      (case u_password_hash u of None \<Rightarrow> False | Some h \<Rightarrow> verify_password app password h))"

lemma users_ok_other [simp]: "users_ok (d\<lparr>auth_sessions := x\<rparr>) = users_ok d"
  by (simp add: users_ok_def active_emails_def)

lemma users_ok_update:
  assumes "db_ok d" "\<And>u. u_id (g u) = u_id u" "\<And>u. u_email (g u) = u_email u"
    "\<And>u. u_deleted_at (g u) = u_deleted_at u" "\<And>u. u_language_code (g u) = u_language_code u"
  shows "users_ok (d\<lparr>users := update_rows P g (users d)\<rparr>)"
proof -
  have "active_emails (d\<lparr>users := update_rows P g (users d)\<rparr>) = active_emails d"
    unfolding active_emails_def
    by (induction "users d" arbitrary: d rule: list.induct)
      (auto simp: update_rows_def assms(2-5) filter_map comp_def intro!: map_cong)
  then show ?thesis using assms by (auto simp: db_ok_def users_ok_def set_update_rows)
qed


lemma db_ok_update_users:
  assumes "db_ok d" "\<And>u. u_id (g u) = u_id u" "\<And>u. u_email (g u) = u_email u"
    "\<And>u. u_deleted_at (g u) = u_deleted_at u" "\<And>u. u_language_code (g u) = u_language_code u"
  shows "db_ok (d\<lparr>users := update_rows P g (users d)\<rparr>)"
  using db_ok_users_grow [OF assms(1) users_ok_update [OF assms]] by (simp add: assms)

lemma wp_record_login_found:
  assumes ok: "db_ok (w_db s)" and u: "u \<in> set (users (w_db s))" "u_deleted_at u = None"
    and Q: "\<And>d v. v = u\<lparr>u_last_logged_in_at := Some (trunc_ms now)\<rparr> \<Longrightarrow> v \<in> set (users d) \<Longrightarrow> db_ok d \<Longrightarrow>
      auth_sessions d = auth_sessions (w_db s) \<Longrightarrow> user_roles d = user_roles (w_db s) \<Longrightarrow> Q v (s\<lparr>w_db := d\<rparr>)"
  shows "wp (record_user_login (u_id u) now) Q E s"
proof -
  let ?g = "\<lambda>x. x\<lparr>u_last_logged_in_at := Some (trunc_ms now)\<rparr>"
  let ?d = "(w_db s)\<lparr>users := update_rows (\<lambda>x. u_id x = u_id u) ?g (users (w_db s))\<rparr>"
  have f: "List.find (\<lambda>x. u_id x = u_id u) (users (w_db s)) = Some u"
    by (rule find_id_unique [OF db_ok_distinct(1) [OF ok] u(1) refl])
  have uo: "users_ok ?d" and d: "db_ok ?d" using ok by (auto intro: users_ok_update db_ok_update_users)
  have "?g u \<in> set (users ?d)" using u(1) by (auto simp: set_update_rows image_iff)
  from Q [OF refl this d] show ?thesis by (simp add: wp_record_user_login f u(2) uo Let_def)
qed

text \<open>The outcome of a login that returns.\<close>

definition logged_in ::
    "('l, 'c) app \<Rightarrow> ('l, 'c) world \<Rightarrow> string \<Rightarrow> string \<Rightarrow> string option \<Rightarrow> issued_session \<Rightarrow> ('l, 'c) world \<Rightarrow> bool" where
  "logged_in app s email password cur r t =
     ((\<exists>u. credentials_of app (w_db s) email password u \<and> is_user r = u\<lparr>u_last_logged_in_at := u_last_logged_in_at (is_user r)\<rparr>) \<and>
      is_user r \<in> set (users (w_db t)) \<and>
      fresh_session app (is_user r) (w_db t) (is_session r) (is_session_token r) (is_csrf_token r) \<and>
      only_in_force app cur (w_clock s (Suc (w_clock_n s))) (is_session r) (w_db t))"

lemma wp_issue_login:
  fixes s s0 :: "('l, 'c) world"
  assumes ok: "db_ok (w_db s)" and u: "credentials_of app (w_db s) email password u"
    and s0: "w_db s0 = w_db s" "w_clock s0 = w_clock s" "w_clock_n s0 = w_clock_n s"
  shows "wp (bind (transaction (
              bind utcnow (\<lambda>login_at.
              bind (record_user_login (u_id u) login_at) (\<lambda>user.
              bind (replace_auth_session app user cur ip ua)
                (\<lambda>(session, session_token, csrf_token).
              seq (audit (Some (u_id user)) (Some (s_id session)) LOGIN_SUCCESS ip ua None)
                (ok (user, session, session_token, csrf_token)))))))
            (\<lambda>(user, session, session_token, csrf_token).
            seq (tell_limiter f)
           (bind (authorization_for_existing_user (u_id user)) (\<lambda>authorization.
            ok \<lparr>is_user = user, is_session = session, is_session_token = session_token,
               is_csrf_token = csrf_token, is_roles = ua_roles authorization,
               is_permissions = ua_permissions authorization\<rparr>)))) (logged_in app s email password cur) (\<lambda>_ _. True) s0"
proof -
  have u': "u \<in> set (users (w_db s0))" "u_deleted_at u = None" using u s0 by (simp_all add: credentials_of_def)
  let ?after = "\<lambda>(user, session, session_token, csrf_token).
            seq (tell_limiter f)
           (bind (authorization_for_existing_user (u_id user)) (\<lambda>authorization.
            ok \<lparr>is_user = user, is_session = session, is_session_token = session_token,
               is_csrf_token = csrf_token, is_roles = ua_roles authorization,
               is_permissions = ua_permissions authorization\<rparr>))"
  let ?R = "\<lambda>(user, session, session_token, csrf_token) t.
      (\<exists>n. user = u\<lparr>u_last_logged_in_at := n\<rparr>) \<and> user \<in> set (users (w_db t)) \<and>
      fresh_session app user (w_db t) session session_token csrf_token \<and>
      only_in_force app cur (w_clock s (Suc (w_clock_n s))) session (w_db t)"
  have after: "wp (?after v) (logged_in app s email password cur) (\<lambda>_ _. True) t" if "?R v t" for v and t :: "('l, 'c) world"
    using that u
    by (cases v) (auto simp: wp_seq wp_bind wp_ok wp_tell_limiter logged_in_def fresh_session_def only_in_force_def
        intro!: wp_authorization_total)
  have tx: "wp (bind utcnow (\<lambda>login_at.
              bind (record_user_login (u_id u) login_at) (\<lambda>user.
              bind (replace_auth_session app user cur ip ua)
                (\<lambda>(session, session_token, csrf_token).
              seq (audit (Some (u_id user)) (Some (s_id session)) LOGIN_SUCCESS ip ua None)
                (ok (user, session, session_token, csrf_token)))))) ?R (\<lambda>_ _. True) (s0\<lparr>w_in_tx := b\<rparr>)" for b
    unfolding wp_bind wp_utcnow
    by (rule wp_record_login_found, use ok s0 u' in \<open>simp_all\<close>, rule replace_auth_session_spec)
      (auto simp: wp_seq wp_ok fresh_session_def only_in_force_def s0 intro!: wp_audit)
  show ?thesis
    unfolding wp_bind [where m = "transaction m" for m]
    by (rule wp_transactionI [where R = ?R, OF tx]; rule after) (auto split: prod.splits)
qed

text \<open>A refusal: the failure is recorded with the limiter, audited, and reported.\<close>

definition refuse ::
    "('l, 'c) app \<Rightarrow> string \<Rightarrow> uuid option \<Rightarrow> string option \<Rightarrow> string option \<Rightarrow> ('l, 'c, issued_session) prog" where
  "refuse app email user_id ip ua =
     seq (tell_limiter (record_failure (auth_rate_limiter app) (rate_limit_ip ip) (normalize_email email) True))
    (seq (audit user_id None LOGIN_FAILED ip ua None) (raise InvalidCredentialsError))"

definition asked :: "('l, 'c) app \<Rightarrow> string \<Rightarrow> string option \<Rightarrow> 'l \<Rightarrow> bool \<times> 'l" where
  "asked app email ip l = is_allowed (auth_rate_limiter app) (rate_limit_ip ip) (normalize_email email) l"

lemma login_denied:
  assumes "\<not> fst (asked app email ip (w_lim s))"
  shows "login app email password cur ip ua s =
     (Inl (RateLimitExceededError (AUTH_RATE_LIMIT_WINDOW_SECONDS (auth_settings_of app))),
      s\<lparr>w_lim := snd (asked app email ip (w_lim s))\<rparr>)"
  using assms by (simp add: login_def asked_def Let_def bind_def ask_limiter_def raise_def)

lemma wp_login_refused:
  assumes ok: "db_ok (w_db s)" and al: "fst (asked app email ip (w_lim s))"
    and no: "\<nexists>u. credentials_of app (w_db s) email password u"
  shows "\<exists>uid. opt_in uid (user_ids (w_db s)) \<and> wp (login app email password cur ip ua) Q E s =
     wp (refuse app email uid ip ua) Q E (s\<lparr>w_lim := snd (asked app email ip (w_lim s))\<rparr>)"
proof -
  let ?s = "s\<lparr>w_lim := snd (asked app email ip (w_lim s))\<rparr>"
  have ok': "db_ok (w_db ?s)" using ok by simp
  note unf = login_def Let_def wp_bind [where m = "ask_limiter f" for f] wp_ask_limiter asked_def [symmetric]
    wp_bind [where m = "find_user_by_email e" for e] refuse_def
  show ?thesis
  proof (cases "\<exists>u \<in> set (users (w_db ?s)). lower (u_email u) = normalize_email email \<and> u_deleted_at u = None")
    case True
    then obtain u where u: "u \<in> set (users (w_db ?s))" "lower (u_email u) = normalize_email email" "u_deleted_at u = None" by blast
    with no have "\<not> u_is_active u \<or> u_password_hash u = None
        \<or> \<not> verify_password app password (case u_password_hash u of None \<Rightarrow> DUMMY_PASSWORD_HASH | Some h \<Rightarrow> h)"
      by (auto simp: credentials_of_def split: option.splits)
    with al show ?thesis
      unfolding unf by (intro exI [of _ "Some (u_id u)"]) (use u(1) in \<open>auto simp: wp_bind [where m = "find_user_by_email e" for e] wp_find_user_by_email_found [OF ok' u]\<close>)
  next
    case False
    with al show ?thesis
      unfolding unf by (intro exI [of _ None]) (simp add: wp_bind [where m = "find_user_by_email e" for e] wp_find_user_by_email_none [OF ok' False])
  qed
qed

text \<open>What a login that returns has done.\<close>

lemma login_spec:
  fixes s :: "('l, 'c) world"
  assumes ok: "db_ok (w_db s)"
  shows "wp (login app email password cur ip ua) (logged_in app s email password cur) (\<lambda>_ _. True) s"
proof (cases "fst (asked app email ip (w_lim s))")
  case False
  from login_denied [OF this] show ?thesis by (simp add: wp_def)
next
  case al: True
  let ?s = "s\<lparr>w_lim := snd (asked app email ip (w_lim s))\<rparr>"
  have ok': "db_ok (w_db ?s)" using ok by simp
  show ?thesis
  proof (cases "\<exists>u. credentials_of app (w_db s) email password u")
    case True
    then obtain u where u: "credentials_of app (w_db s) email password u" by blast
    then have u': "u \<in> set (users (w_db ?s))" "lower (u_email u) = normalize_email email" "u_deleted_at u = None"
      and pw: "u_is_active u" "\<exists>h. u_password_hash u = Some h \<and> verify_password app password h"
      by (auto simp: credentials_of_def split: option.splits)
    from pw al show ?thesis
      unfolding login_def Let_def wp_bind [where m = "ask_limiter f" for f] wp_ask_limiter asked_def [symmetric]
        wp_bind [where m = "find_user_by_email e" for e]
      by (auto simp: wp_bind [where m = "find_user_by_email e" for e] wp_find_user_by_email_found [OF ok' u'] intro!: wp_issue_login [OF ok u])
  next
    case False
    have rej: "wp (refuse app email uid ip ua) Q (\<lambda>_ _. True) t" for uid Q and t :: "('l, 'c) world"
      by (simp add: refuse_def wp_def seq_def bind_def raise_def split: prod.splits sum.splits)
    from wp_login_refused [OF ok al False] rej show ?thesis by metis
  qed
qed

text \<open>Every application is one whose limiter keeps the trivial invariant.\<close>

interpretation any_limiter: auth_app app "\<lambda>_. True" for app :: "('l, 'c) app"
  by unfold_locales simp

interpretation in_memory_app: auth_app "app\<lparr>auth_rate_limiter := in_memory_ops\<rparr>" im_inv
  for app :: "(in_memory_limiter, 'c) app"
  by unfold_locales (simp add: im.step_inv)


text \<open>Recording an audit entry succeeds when its address is valid and its identifier is new.\<close>

lemma wp_audit_recorded:
  assumes ok: "db_ok (w_db s)" and ip: "inet_process_bind_param ip \<noteq> None"
    and i: "w_uuids s (w_uuid_n s) \<notin> a_id ` set (auth_audit_logs (w_db s))"
    and ids: "opt_in u (user_ids (w_db s))" "opt_in si (session_ids (w_db s))"
    and Q: "\<And>a t. a_event_type a = ev \<Longrightarrow> a_user_id a = u \<Longrightarrow> a_session_id a = si \<Longrightarrow>
      w_db t = (w_db s)\<lparr>auth_audit_logs := auth_audit_logs (w_db s) @ [a]\<rparr> \<Longrightarrow> w_lim t = w_lim s \<Longrightarrow> Q () t"
  shows "wp (create_audit_log \<lparr>ae_user_id = u, ae_session_id = si, ae_event_type = ev, ae_ip_address = ip,
    ae_user_agent = ua, ae_detail_json = det, ae_occurred_at = tm\<rparr>) Q E s"
proof -
  obtain addr where addr: "inet_process_bind_param ip = Some addr" using ip by blast
  have "audit_logs_ok ((w_db s)\<lparr>auth_audit_logs := auth_audit_logs (w_db s) @ [\<lparr>a_id = w_uuids s (w_uuid_n s),
      a_user_id = u, a_session_id = si, a_event_type = ev, a_ip_address = addr, a_user_agent = ua,
      a_detail_json = det, a_occurred_at = x\<rparr>]\<rparr>)" for x
    using ok i ids by (auto simp: db_ok_def audit_logs_ok_def)
  then show ?thesis
    unfolding create_audit_log_def insert_audit_log_def
    by (cases tm) (auto simp: wp_simps wp_session_scope addr intro!: Q)
qed

text \<open>
  C5: a login is refused without a trace in the accounts. When the limiter says no, the database
  does not change at all; when the credentials are not those of an active account, whatever the
  reason (unknown address, deleted or deactivated account, no password, wrong password), the caller
  sees the same exception, the limiter is told of the failure under the client's address and the
  normalized email, and one entry \<open>LOGIN_FAILED\<close> is all that is added to the database.
\<close>

theorem login_refusals:
  fixes s :: "('l, 'c) world"
  assumes ok: "db_ok (w_db s)" and ip: "inet_process_bind_param ip \<noteq> None"
    and i: "w_uuids s (w_uuid_n s) \<notin> a_id ` set (auth_audit_logs (w_db s))"
  shows "(\<not> fst (asked app email ip (w_lim s)) \<longrightarrow>
           (\<exists>s'. login app email password cur ip ua s =
               (Inl (RateLimitExceededError (AUTH_RATE_LIMIT_WINDOW_SECONDS (auth_settings_of app))), s')
             \<and> w_db s' = w_db s \<and> w_lim s' = snd (asked app email ip (w_lim s))))
    \<and> (fst (asked app email ip (w_lim s)) \<and> (\<nexists>u. credentials_of app (w_db s) email password u) \<longrightarrow>
           (\<exists>s' a. login app email password cur ip ua s = (Inl InvalidCredentialsError, s')
             \<and> w_db s' = (w_db s)\<lparr>auth_audit_logs := auth_audit_logs (w_db s) @ [a]\<rparr> \<and> a_event_type a = LOGIN_FAILED
             \<and> w_lim s' = record_failure (auth_rate_limiter app) (rate_limit_ip ip) (normalize_email email) True (snd (asked app email ip (w_lim s)))))"
proof -
  let ?f = "record_failure (auth_rate_limiter app) (rate_limit_ip ip) (normalize_email email) True"
  let ?E = "\<lambda>e t. e = InvalidCredentialsError \<and> (\<exists>a. w_db t = (w_db s)\<lparr>auth_audit_logs := auth_audit_logs (w_db s) @ [a]\<rparr>
     \<and> a_event_type a = LOGIN_FAILED) \<and> w_lim t = ?f (snd (asked app email ip (w_lim s)))"
  have "wp (login app email password cur ip ua) (\<lambda>_ _. False) ?E s"
    if "fst (asked app email ip (w_lim s))" "\<nexists>u. credentials_of app (w_db s) email password u"
  proof -
    from wp_login_refused [OF ok that(1) that(2)] obtain uid where
      uid: "opt_in uid (user_ids (w_db s))" and "wp (login app email password cur ip ua) (\<lambda>_ _. False) ?E s =
        wp (refuse app email uid ip ua) (\<lambda>_ _. False) ?E (s\<lparr>w_lim := snd (asked app email ip (w_lim s))\<rparr>)" by blast
    moreover have "wp (refuse app email uid ip ua) (\<lambda>_ _. False) ?E (s\<lparr>w_lim := snd (asked app email ip (w_lim s))\<rparr>)"
      unfolding refuse_def wp_seq wp_tell_limiter audit_def
      by (rule wp_audit_recorded) (use ok ip i uid in \<open>auto simp: wp_raise\<close>)
    ultimately show ?thesis by simp
  qed
  then show ?thesis
    using login_denied [of app email ip s password cur ua] by (auto dest!: wp_raisesD)
qed

lemma login_refusals_witness:
  "\<exists>s' a. login (demo_app in_memory_ops) ''ann@example.com'' ''wrong'' None (Some ''10.0.0.1'') None demo_running
       = (Inl InvalidCredentialsError, s')
     \<and> auth_audit_logs (w_db s') = [a] \<and> a_event_type a = LOGIN_FAILED"
proof -
  have ok: "db_ok (w_db demo_running)"
    using app_invD(1) [OF demo_database_inv] by (simp add: demo_world_def)
  have 1: "inet_process_bind_param (Some ''10.0.0.1'') \<noteq> None" by code_simp
  have logs: "auth_audit_logs (w_db demo_running) = []" by code_simp
  then have 2: "w_uuids demo_running (w_uuid_n demo_running) \<notin> a_id ` set (auth_audit_logs (w_db demo_running))" by simp
  have 3: "fst (asked (demo_app in_memory_ops) ''ann@example.com'' (Some ''10.0.0.1'') (w_lim demo_running))" by code_simp
  have "\<forall>u \<in> set (users (w_db demo_running)). \<not> credentials_of (demo_app in_memory_ops) (w_db demo_running) ''ann@example.com'' ''wrong'' u"
    by code_simp
  then have 4: "\<nexists>u. credentials_of (demo_app in_memory_ops) (w_db demo_running) ''ann@example.com'' ''wrong'' u"
    by (auto simp: credentials_of_def)
  from login_refusals [OF ok 1 2, of "demo_app in_memory_ops" "''ann@example.com''" "''wrong''" None None] 3 4 logs
  show ?thesis by fastforce
qed


text \<open>
  C3: a login that returns was given right credentials and issues a session that works. The
  account is an active one whose stored hash verifies the password; any session that was in force
  for the token the browser presented has been replaced; and as long as the clock has not reached
  the expiry of the issued session, presenting the issued token authenticates that account with
  the issued session.
\<close>

theorem login_then_authenticate:
  fixes s s' :: "('l, 'c) world"
  assumes inv: "app_inv (auth_settings_of app) {} (w_db s)"
    and r: "login app email password cur ip ua s = (Inr r, s')"
    and tok: "is_session_token r \<noteq> []"
    and time: "trunc_ms (w_clock s' (w_clock_n s')) < s_expires_at (is_session r)"
  shows "(\<exists>u. credentials_of app (w_db s) email password u \<and> u_id u = u_id (is_user r))
    \<and> only_in_force app cur (w_clock s (Suc (w_clock_n s))) (is_session r) (w_db s')
    \<and> (\<exists>cx s''. authenticate_session app (Some (is_session_token r)) ip' ua' s' = (Inr (Some cx), s'')
         \<and> cx_user cx = is_user r \<and> s_id (cx_session cx) = s_id (is_session r))"
proof -
  have "winv (app_inv (auth_settings_of app) {}) (\<lambda>_. True) s" using inv by (simp add: winv_def)
  from keepsD [OF any_limiter.keeps_login this, of email password cur ip ua] r have ok': "db_ok (w_db s')"
    by (simp add: winv_def app_inv_def)
  have p: "logged_in app s email password cur r s'"
    by (rule wp_Ok [OF login_spec [OF app_invD(1) [OF inv]] r])
  from p obtain u where u: "credentials_of app (w_db s) email password u"
    "is_user r = u\<lparr>u_last_logged_in_at := u_last_logged_in_at (is_user r)\<rparr>"
    and f: "is_user r \<in> set (users (w_db s'))"
      "fresh_session app (is_user r) (w_db s') (is_session r) (is_session_token r) (is_csrf_token r)"
      "only_in_force app cur (w_clock s (Suc (w_clock_n s))) (is_session r) (w_db s')"
    unfolding logged_in_def by blast
  have same: "u_id (is_user r) = u_id u" "u_deleted_at (is_user r) = u_deleted_at u" "u_is_active (is_user r) = u_is_active u"
    by (subst u(2), simp)+
  have "authenticates app s' (is_session_token r) (is_session r) (is_user r)"
    using f time u(1) same by (auto simp: authenticates_def fresh_session_def session_in_force_def credentials_of_def)
  with authenticate_exact [OF ok' tok, of app "is_session r" "is_user r" ip' ua'] u(1) f(3) same show ?thesis
    by (metis)
qed

lemma login_then_authenticate_witness:
  "\<exists>r s' cx s''. login (demo_app in_memory_ops) ''Ann@example.com'' ''correct horse battery'' None (Some ''10.0.0.1'') None demo_running = (Inr r, s')
     \<and> authenticate_session (demo_app in_memory_ops) (Some (is_session_token r)) None None s' = (Inr (Some cx), s'')
     \<and> cx_user cx = is_user r"
proof -
  have inv: "app_inv (auth_settings_of (demo_app in_memory_ops)) {} (w_db demo_running)"
    using app_inv_subset [OF demo_database_inv] by (simp add: demo_world_def demo_app_def)
  have "case login (demo_app in_memory_ops) ''Ann@example.com'' ''correct horse battery'' None (Some ''10.0.0.1'') None demo_running
    of (Inl e, s') \<Rightarrow> False
     | (Inr r, s') \<Rightarrow> is_session_token r \<noteq> [] \<and> trunc_ms (w_clock s' (w_clock_n s')) < s_expires_at (is_session r)" by code_simp
  then obtain r s' where r: "login (demo_app in_memory_ops) ''Ann@example.com'' ''correct horse battery'' None (Some ''10.0.0.1'') None demo_running = (Inr r, s')"
    and t: "is_session_token r \<noteq> []" "trunc_ms (w_clock s' (w_clock_n s')) < s_expires_at (is_session r)"
    by (auto split: prod.splits sum.splits)
  from login_then_authenticate [OF inv r t, of None None] r show ?thesis by blast
qed


subsection \<open>Ending sessions\<close>

lemma logout_spec:
  fixes s :: "('l, 'c) world"
  assumes ok: "db_ok (w_db s)" and tok: "token \<noteq> []" and mono: "mono (w_clock s)"
  shows "wp (logout app (Some token) ip ua) (\<lambda>_ t. \<forall>x \<in> set (auth_sessions (w_db t)).
      \<not> session_in_force (hash_token app token) (w_clock t (w_clock_n t)) x) (\<lambda>_ _. True) s"
proof (cases "\<exists>x \<in> set (auth_sessions (w_db s)). session_in_force (hash_token app token) (w_clock s (w_clock_n s)) x")
  case True
  then obtain x where x: "x \<in> set (auth_sessions (w_db s))"
    "session_in_force (hash_token app token) (w_clock s (w_clock_n s)) x" by blast
  let ?s = "s\<lparr>w_clock_n := Suc (w_clock_n s)\<rparr>"
  let ?gone = "\<lambda>t. \<forall>y \<in> set (auth_sessions (w_db t)). \<not> session_in_force (hash_token app token) (w_clock t (w_clock_n t)) y"
  have gone: "\<not> session_in_force (hash_token app token) n y"
    if "y \<in> set (update_rows (\<lambda>y. s_id y = s_id x) (\<lambda>y. y\<lparr>s_revoked_at := Some r\<rparr>) (auth_sessions (w_db s)))" for y r n
  proof -
    have "\<not> session_in_force (hash_token app token) (w_clock s (w_clock_n s)) y" by (rule revoked_not_in_force [OF ok x that])
    moreover have "s_revoked_at y = None \<Longrightarrow> s_session_token_hash y = hash_token app token \<Longrightarrow> False"
    proof -
      assume y: "s_revoked_at y = None" "s_session_token_hash y = hash_token app token"
      from that y(1) have "y \<in> set (auth_sessions (w_db s))" "s_id y \<noteq> s_id x" by (auto simp: set_update_rows split: if_splits)
      with inj_key [OF db_ok_distinct(4) [OF ok], of y x] x y(2) show False by (auto simp: session_in_force_def)
    qed
    ultimately show ?thesis by (auto simp: session_in_force_def)
  qed
  have tx: "wp (seq (revoke_session (s_id x)) (audit (Some (s_user_id x)) (Some (s_id x)) LOGOUT ip ua None))
      (\<lambda>_. ?gone) (\<lambda>_ _. True) (?s\<lparr>w_in_tx := b\<rparr>)" for b
    unfolding wp_seq
    by (rule wp_revoke_session_found) (use ok x gone in \<open>auto intro!: wp_audit\<close>)
  show ?thesis
    using tok unfolding logout_def
    by (simp add: truthy_def wp_bind wp_find_active_session_found [OF ok x])
      (rule wp_transactionI [where R = "\<lambda>_. ?gone", OF tx], simp_all)
next
  case False
  have "trunc_ms (w_clock s (w_clock_n s)) \<le> trunc_ms (w_clock s (Suc (w_clock_n s)))"
    using mono by (intro trunc_ms_mono) (simp add: mono_def)
  with False tok show ?thesis
    unfolding logout_def
    by (auto simp: truthy_def wp_bind wp_find_active_session_none [OF ok False] wp_ok session_in_force_def)
qed

text \<open>
  C6: logging out ends the session. When \<open>logout\<close> returns and the clock does not go backwards, the
  token does not authenticate any more.
\<close>

theorem logout_ends_session:
  fixes s s' :: "('l, 'c) world"
  assumes inv: "app_inv (auth_settings_of app) {} (w_db s)" and tok: "token \<noteq> []" and mono: "mono (w_clock s)"
    and r: "logout app (Some token) ip ua s = (Inr (), s')"
  shows "authenticate_session app (Some token) ip' ua' s' \<noteq> (Inr (Some cx), s'')"
proof -
  have "winv (app_inv (auth_settings_of app) {}) (\<lambda>_. True) s" using inv by (simp add: winv_def)
  from keepsD [OF keeps_sessions_and_csrf(3) this, of app "Some token" ip ua] r have ok': "db_ok (w_db s')"
    by (simp add: winv_def app_inv_def)
  have "\<nexists>x u. authenticates app s' token x u"
    using wp_Ok [OF logout_spec [OF app_invD(1) [OF inv] tok mono] r] by (auto simp: authenticates_def)
  with authenticate_exact [OF ok' tok] show ?thesis by blast
qed

lemma logout_ends_session_witness:
  "\<exists>s'. logout (demo_app in_memory_ops) (Some ''tok'') (Some ''10.0.0.1'') None demo_running = (Inr (), s')
     \<and> (\<forall>cx s''. authenticate_session (demo_app in_memory_ops) (Some ''tok'') None None s' \<noteq> (Inr (Some cx), s''))"
proof -
  have inv: "app_inv (auth_settings_of (demo_app in_memory_ops)) {} (w_db demo_running)"
    using app_inv_subset [OF demo_database_inv] by (simp add: demo_world_def demo_app_def)
  have mono: "mono (w_clock demo_running)" by (simp add: demo_world_def mono_def)
  have "case logout (demo_app in_memory_ops) (Some ''tok'') (Some ''10.0.0.1'') None demo_running
    of (Inl e, s') \<Rightarrow> False | (Inr r, s') \<Rightarrow> True" by code_simp
  then obtain s' where r: "logout (demo_app in_memory_ops) (Some ''tok'') (Some ''10.0.0.1'') None demo_running = (Inr (), s')"
    by (auto split: prod.splits sum.splits)
  from logout_ends_session [OF inv _ mono r, of None None] r show ?thesis by auto
qed

definition all_revoked :: "uuid \<Rightarrow> database \<Rightarrow> bool" where
  "all_revoked uid d = (\<forall>y \<in> set (auth_sessions d). s_user_id y = uid \<longrightarrow> s_revoked_at y \<noteq> None)"

text \<open>
  C7: the first request of a deactivated or deleted account ends all its sessions. When the token
  belongs to a session in force of such an account, the request is not authenticated and every
  session of the account is revoked.
\<close>

theorem inactive_account_locked_out:
  fixes s :: "('l, 'c) world"
  assumes ok: "db_ok (w_db s)" and tok: "token \<noteq> []"
    and x: "x \<in> set (auth_sessions (w_db s))" "session_in_force (hash_token app token) (w_clock s (w_clock_n s)) x"
    and u: "u \<in> set (users (w_db s))" "u_id u = s_user_id x" "u_deleted_at u \<noteq> None \<or> \<not> u_is_active u"
    and ip: "inet_process_bind_param ip \<noteq> None"
    and i: "w_uuids s (w_uuid_n s) \<notin> a_id ` set (auth_audit_logs (w_db s))"
  shows "\<exists>s'. authenticate_session app (Some token) ip ua s = (Inr None, s')
     \<and> all_revoked (u_id u) (w_db s')"
proof -
  let ?R = "\<lambda>r t. r = None \<and> all_revoked (u_id u) (w_db t)"
  have uid: "u_id u \<in> user_ids (w_db s)" using u(1) by simp
  have rej: "wp (seq (reject_user_sessions x ev (u_id u) ip ua) (ok None)) ?R (\<lambda>_ _. False) t"
    if t: "w_db t = w_db s" "w_uuids t = w_uuids s" "w_uuid_n t = w_uuid_n s" for ev and t :: "('l, 'c) world"
  proof -
    let ?g = "\<lambda>r y. y\<lparr>s_revoked_at := Some r\<rparr>" and ?P = "\<lambda>y. s_user_id y = u_id u \<and> s_revoked_at y = None"
    let ?d = "\<lambda>r. (w_db s)\<lparr>auth_sessions := update_rows ?P (?g r) (auth_sessions (w_db s))\<rparr>"
    have so: "sessions_ok (?d r)" for r by (rule sessions_ok_update [OF ok]) simp_all
    have d: "db_ok (?d r)" for r by (rule db_ok_sessions [OF ok so]) simp
    have gone: "all_revoked (u_id u) ((?d r)\<lparr>auth_audit_logs := l\<rparr>)" for r l
      by (auto simp: all_revoked_def set_update_rows)
    show ?thesis
      unfolding reject_user_sessions_def revoke_sessions_for_user_def update_sessions_def Let_def
      by (simp add: wp_simps wp_session_scope t so)
        (rule wp_audit_recorded, use d gone x i ip uid in \<open>auto simp: t wp_ok image_update_rows\<close>)
  qed
  have "wp (bind (find_active_session_by_token_hash (hash_token app token)) (\<lambda>found. case found of
      None \<Rightarrow> seq (audit_known_rejected_session (hash_token app token) ip ua) (ok None)
    | Some a \<Rightarrow> authenticate_found app a ip ua)) ?R (\<lambda>_ _. False) (s\<lparr>w_in_tx := b\<rparr>)" for b
  proof -
    let ?s = "s\<lparr>w_in_tx := b\<rparr>" and ?t = "s\<lparr>w_in_tx := b, w_clock_n := Suc (w_clock_n s)\<rparr>"
    have "db_ok (w_db ?s)" "x \<in> set (auth_sessions (w_db ?s))" "session_in_force (hash_token app token) (w_clock ?s (w_clock_n ?s)) x"
      using ok x by simp_all
    note f = wp_find_active_session_found [OF this]
    have "db_ok (w_db ?t)" "u \<in> set (users (w_db ?t))" using ok u(1) by simp_all
    note g = wp_find_user_by_id_found [OF this u(2)]
    show ?thesis using u(3)
      unfolding wp_bind f option.case authenticate_found_def
      by (simp add: wp_bind g) (auto intro!: rej)
  qed
  then have "wp (authenticate_session app (Some token) ip ua) ?R (\<lambda>_ _. False) s"
    using tok unfolding authenticate_session_def Let_def
    by (simp add: truthy_def) (rule wp_transactionI, auto)
  then show ?thesis by (auto dest!: wp_OkD)
qed


lemma inactive_account_locked_out_witness:
  "\<exists>s'. authenticate_session (demo_app in_memory_ops) (Some ''tok'') None None
        (demo_running\<lparr>w_db := demo_database\<lparr>users := [(demo_user 1 ''ann@example.com'')\<lparr>u_is_active := False\<rparr>]\<rparr>\<rparr>) = (Inr None, s')
     \<and> all_revoked 1 (w_db s')"
proof -
  let ?u = "(demo_user 1 ''ann@example.com'')\<lparr>u_is_active := False\<rparr>" and ?x = "demo_session 5 1 ''h:tok''"
  let ?s = "demo_running\<lparr>w_db := demo_database\<lparr>users := [?u]\<rparr>\<rparr>"
  have ok: "db_ok (w_db ?s)" unfolding db_ok_def by code_simp
  have x: "?x \<in> set (auth_sessions (w_db ?s))"
    "session_in_force (hash_token (demo_app in_memory_ops) ''tok'') (w_clock ?s (w_clock_n ?s)) ?x" by code_simp+
  have u: "?u \<in> set (users (w_db ?s))" "u_id ?u = s_user_id ?x" "u_deleted_at ?u \<noteq> None \<or> \<not> u_is_active ?u" by code_simp+
  have i: "inet_process_bind_param None \<noteq> None" "w_uuids ?s (w_uuid_n ?s) \<notin> a_id ` set (auth_audit_logs (w_db ?s))" by code_simp+
  have "u_id ?u = 1" by (simp add: demo_user_def)
  with inactive_account_locked_out [OF ok _ x u i, of None] show ?thesis by simp
qed


subsection \<open>Registering\<close>

lemma wp_create_user_added:
  assumes ok: "db_ok (w_db s)"
    and Q: "\<And>u t. u_email u = email \<Longrightarrow> u_password_hash u = ph \<Longrightarrow> u_is_active u \<Longrightarrow> u_deleted_at u = None \<Longrightarrow>
      u \<in> set (users (w_db t)) \<Longrightarrow> db_ok (w_db t) \<Longrightarrow> Q u t"
  shows "wp (create_user email ph lang) Q (\<lambda>_ _. True) s"
proof -
  have "db_ok ((w_db s)\<lparr>users := users (w_db s) @ [u]\<rparr>)" if "users_ok ((w_db s)\<lparr>users := users (w_db s) @ [u]\<rparr>)" for u
    by (rule db_ok_users_grow [OF ok that]) auto
  then show ?thesis
    unfolding create_user_def insert_user_def Let_def
    by (auto simp: wp_session_scope wp_simps intro!: Q)
qed

definition registered :: "('l, 'c) app \<Rightarrow> string \<Rightarrow> string \<Rightarrow> issued_session \<Rightarrow> ('l, 'c) world \<Rightarrow> bool" where
  "registered app email password r t =
     (is_user r \<in> set (users (w_db t)) \<and> u_email (is_user r) = normalize_email email \<and> u_deleted_at (is_user r) = None \<and>
      u_is_active (is_user r) \<and> (\<exists>n. u_password_hash (is_user r) = Some (hash_password_with app n password)) \<and>
      fresh_session app (is_user r) (w_db t) (is_session r) (is_session_token r) (is_csrf_token r) \<and>
      is_roles r = {} \<and> is_permissions r = {})"

lemma wp_register_tx:
  fixes s :: "('l, 'c) world"
  assumes ok: "db_ok (w_db s)"
  shows "wp (bind (hash_password app password) (\<lambda>password_hash.
     bind (create_user (normalize_email email) (Some password_hash) lang) (\<lambda>user0.
     bind utcnow (\<lambda>login_at.
     bind (record_user_login (u_id user0) login_at) (\<lambda>user.
     bind (replace_auth_session app user cur ip ua)
       (\<lambda>(session, session_token, csrf_token).
     seq (audit (Some (u_id user)) (Some (s_id session)) REGISTER_SUCCESS ip ua None)
       (ok (user, session, session_token, csrf_token))))))))
    (\<lambda>(user, session, session_token, csrf_token) t. registered app email password
       \<lparr>is_user = user, is_session = session, is_session_token = session_token, is_csrf_token = csrf_token,
        is_roles = {}, is_permissions = {}\<rparr> t) (\<lambda>_ _. True) s"
  unfolding wp_bind wp_hash_password
  apply (rule wp_create_user_added)
   apply (simp add: ok)
  apply (unfold wp_utcnow)
  apply (rule wp_record_login_found)
     apply simp_all
  apply (rule replace_auth_session_spec)
   apply simp
  apply (auto simp: wp_seq wp_ok registered_def fresh_session_def intro!: wp_audit)
  done


lemma register_spec:
  fixes s :: "('l, 'c) world"
  assumes ok: "db_ok (w_db s)"
  shows "wp (register app email password lang cur ip ua) (\<lambda>r t. registered app email password r t \<and>
      fst (validate_password_policy password) \<and>
      \<not> (\<exists>u \<in> set (users (w_db s)). lower (u_email u) = normalize_email email \<and> u_deleted_at u = None)) (\<lambda>_ _. True) s"
proof -
  let ?limiter = "auth_rate_limiter app" and ?e = "normalize_email email"
  obtain valid msg where pol: "validate_password_policy password = (valid, msg)" by fastforce
  define l1 where "l1 = snd (is_allowed ?limiter (rate_limit_ip ip) ?e (w_lim s))"
  define l2 where "l2 = snd (is_registration_allowed ?limiter (rate_limit_ip ip) l1)"
  let ?s = "s\<lparr>w_lim := l2\<rparr>"
  have ok': "db_ok (w_db ?s)" using ok by simp
  have handler: "wp (if e = EmailAlreadyRegisteredError then seq m (seq n (raise e)) else raise e) Q (\<lambda>_ _. True) t"
    for e m n Q and t :: "('l, 'c) world"
    by (simp add: wp_or_raise wp_raise)
  let ?reg = "\<lambda>(user, session, session_token, csrf_token). registered app email password
       \<lparr>is_user = user, is_session = session, is_session_token = session_token, is_csrf_token = csrf_token,
        is_roles = {}, is_permissions = {}\<rparr>"
  note unf = register_def Let_def wp_bind [where m = "ask_limiter f" for f] wp_ask_limiter wp_if wp_raise
    l1_def [symmetric] l2_def [symmetric]
  show ?thesis
  proof (cases "\<exists>u \<in> set (users (w_db ?s)). lower (u_email u) = ?e \<and> u_deleted_at u = None")
    case True
    then obtain u where u: "u \<in> set (users (w_db ?s))" "lower (u_email u) = ?e" "u_deleted_at u = None" by blast
    show ?thesis
      by (simp add: unf pol l1_def [symmetric] l2_def [symmetric] wp_or_raise wp_bind [where m = "find_user_by_email e" for e]
        wp_find_user_by_email_found [OF ok' u])
  next
    case False
    then have no: "\<not> (\<exists>u \<in> set (users (w_db s)). lower (u_email u) = ?e \<and> u_deleted_at u = None)" by simp
    show ?thesis
      using no
      by (simp add: unf pol l1_def [symmetric] l2_def [symmetric] wp_or_raise wp_bind [where m = "find_user_by_email e" for e]
        wp_find_user_by_email_none [OF ok' False] wp_bind [where m = "catch a b" for a b])
        (intro impI wp_catch_raising wp_transactionI [where R = ?reg] wp_register_tx handler;
         auto simp: wp_seq wp_tell_limiter wp_ok ok pol registered_def)
  qed
qed




subsection \<open>CSRF tokens\<close>

lemma wp_issue_csrf_found:
  assumes ok: "db_ok (w_db s)" and tok: "token \<noteq> []" and x: "x \<in> set (auth_sessions (w_db s))"
    "session_in_force (hash_token app token) (w_clock s (w_clock_n s)) x"
  shows "wp (issue_csrf_token app (Some token)) (\<lambda>c t. w_clock t = w_clock s \<and> w_clock_n t = Suc (w_clock_n s) \<and>
      w_db t = (w_db s)\<lparr>auth_sessions := update_rows (\<lambda>y. s_id y = s_id x)
        (\<lambda>y. y\<lparr>s_csrf_token_hash := hash_token app c\<rparr>) (auth_sessions (w_db s))\<rparr>) (\<lambda>_ _. False) s"
proof -
  have f: "List.find (\<lambda>y. s_id y = s_id x) (auth_sessions (w_db s)) = Some x"
    by (rule find_id_unique [OF db_ok_distinct(3) [OF ok] x(1) refl])
  have k: "sessions_ok ((w_db s)\<lparr>auth_sessions := update_rows (\<lambda>y. s_id y = s_id x)
      (\<lambda>y. y\<lparr>s_csrf_token_hash := h\<rparr>) (auth_sessions (w_db s))\<rparr>)" for h
    by (rule sessions_ok_update [OF ok]) simp_all
  let ?s = "s\<lparr>w_token_n := Suc (w_token_n s)\<rparr>"
  have "db_ok (w_db ?s)" "x \<in> set (auth_sessions (w_db ?s))" "session_in_force (hash_token app token) (w_clock ?s (w_clock_n ?s)) x"
    using ok x by simp_all
  note found = wp_find_active_session_found [OF this]
  show ?thesis
    using tok unfolding issue_csrf_token_def update_session_csrf_token_hash_def update_sessions_def Let_def
    by (simp add: truthy_def wp_bind wp_generate_token found wp_session_scope wp_get_session_row f wp_seq wp_statement k wp_ok)
qed

text \<open>
  C9: an issued CSRF token is the one the session accepts. For a session in force, issuing
  returns, and while the session is still in force, validating the session's token with a CSRF
  token says valid exactly when the CSRF token has the hash of the issued one, and mismatch
  otherwise.
\<close>

theorem csrf_issue_validate:
  fixes s :: "('l, 'c) world"
  assumes ok: "db_ok (w_db s)" and tok: "token \<noteq> []" and x: "x \<in> set (auth_sessions (w_db s))"
    "session_in_force (hash_token app token) (w_clock s (w_clock_n s)) x"
    and later: "trunc_ms (w_clock s (Suc (w_clock_n s))) < s_expires_at x"
  shows "\<exists>c s'. issue_csrf_token app (Some token) s = (Inr c, s')
     \<and> (\<forall>c'. \<exists>s''. validate_session_csrf app token c' ip ua s' =
          (Inr (if hash_token app c' = hash_token app c then Csrf_valid else Csrf_mismatch), s''))"
proof -
  from wp_OkD [OF wp_issue_csrf_found [OF ok tok x]] obtain c s' where
    c: "issue_csrf_token app (Some token) s = (Inr c, s')" and clk: "w_clock s' = w_clock s" "w_clock_n s' = Suc (w_clock_n s)"
    and d: "w_db s' = (w_db s)\<lparr>auth_sessions := update_rows (\<lambda>y. s_id y = s_id x)
        (\<lambda>y. y\<lparr>s_csrf_token_hash := hash_token app c\<rparr>) (auth_sessions (w_db s))\<rparr>" by blast
  let ?y = "x\<lparr>s_csrf_token_hash := hash_token app c\<rparr>"
  have "sessions_ok (w_db s')" unfolding d by (rule sessions_ok_update [OF ok]) simp_all
  then have ok': "db_ok (w_db s')" unfolding d by (rule db_ok_sessions [OF ok]) simp
  have "?y \<in> set (auth_sessions (w_db s'))" using x(1) by (auto simp: d set_update_rows image_iff)
  moreover have "session_in_force (hash_token app token) (w_clock s' (w_clock_n s')) ?y"
    using x(2) later by (simp add: session_in_force_def clk)
  ultimately have "wp (validate_session_csrf app token c' ip ua)
      (\<lambda>r _. r = (if hash_token app c' = hash_token app c then Csrf_valid else Csrf_mismatch)) (\<lambda>_ _. False) s'" for c'
    unfolding validate_session_csrf_def Let_def
    by (simp add: wp_bind wp_find_active_session_found [OF ok'] wp_ok)
  with c show ?thesis by (blast dest: wp_OkD)
qed

lemma csrf_issue_validate_witness:
  "\<exists>c s'. issue_csrf_token (demo_app in_memory_ops) (Some ''tok'') demo_running = (Inr c, s')
     \<and> (\<exists>s''. validate_session_csrf (demo_app in_memory_ops) ''tok'' c None None s' = (Inr Csrf_valid, s''))"
proof -
  let ?x = "demo_session 5 1 ''h:tok''"
  have ok: "db_ok (w_db demo_running)"
    using app_invD(1) [OF demo_database_inv] by (simp add: demo_world_def)
  have x: "?x \<in> set (auth_sessions (w_db demo_running))"
    "session_in_force (hash_token (demo_app in_memory_ops) ''tok'') (w_clock demo_running (w_clock_n demo_running)) ?x"
    "trunc_ms (w_clock demo_running (Suc (w_clock_n demo_running))) < s_expires_at ?x" by code_simp+
  have tok: "''tok'' \<noteq> []" by simp
  obtain c s' where c: "issue_csrf_token (demo_app in_memory_ops) (Some ''tok'') demo_running = (Inr c, s')"
    and v: "\<forall>c'. \<exists>s''. validate_session_csrf (demo_app in_memory_ops) ''tok'' c' None None s' =
      (Inr (if hash_token (demo_app in_memory_ops) c' = hash_token (demo_app in_memory_ops) c then Csrf_valid else Csrf_mismatch), s'')"
    using csrf_issue_validate [OF ok tok x, of None None] by blast
  from v [rule_format, of c] obtain s'' where
    "validate_session_csrf (demo_app in_memory_ops) ''tok'' c None None s' = (Inr Csrf_valid, s'')" by auto
  with c show ?thesis by blast
qed

end
