(* ===== verification/Authorization_Usecase.thy ===== *)
theory Authorization_Usecase
  imports Auth_Properties
begin

text \<open>
  \<open>AuthorizationUsecase\<close> (\<^verbatim>\<open>app/usecases/authorization_usecase.py\<close>) and \<open>role_audit_detail\<close>
  (\<^verbatim>\<open>app/usecases/authorization_audit.py\<close>): the catalog, the authorization of a user, and the
  replacement of a user's roles with one audit entry per change.
\<close>

definition role_audit_detail ::
    "string option \<Rightarrow> uuid option \<Rightarrow> uuid \<Rightarrow> string \<Rightarrow> string list \<Rightarrow> (string \<times> json) list" where
  "role_audit_detail source actor_user_id target_user_id role_code resulting_roles =
     (let detail = [(''actorUserId'', str_uuid_option actor_user_id),
                    (''targetUserId'', JStr (str_uuid target_user_id)),
                    (''roleCode'', JStr role_code),
                    (''resultingRoles'', JList (map JStr resulting_roles))]
      in case source of None \<Rightarrow> detail | Some s \<Rightarrow> (''source'', JStr s) # detail)"

definition list_roles :: "('l, 'c, role_with_permissions list) prog" where
  "list_roles = ok (roles_with_permissions_in DEFAULT_AUTHORIZATION_DEFINITIONS)"

definition list_permissions :: "('l, 'c, permission_definition list) prog" where
  "list_permissions = ok (map snd (sort_key fst (permission_catalog_by_code DEFAULT_AUTHORIZATION_PERMISSIONS)))"

definition get_user_authorization :: "uuid \<Rightarrow> ('l, 'c, user_authorization) prog" where
  "get_user_authorization user_id =
     bind (find_user_by_id_for_authentication user_id) (\<lambda>user. case user of
       None \<Rightarrow> raise (AuthorizationUserNotFoundError user_id)
     | Some u \<Rightarrow>
         if u_deleted_at u \<noteq> None then raise (AuthorizationUserNotFoundError user_id)
         else authorization_for_existing_user user_id)"

definition record_role_audit ::
    "session_context \<Rightarrow> uuid \<Rightarrow> auth_event_type \<Rightarrow> string \<Rightarrow> string list \<Rightarrow> string option \<Rightarrow> string option
      \<Rightarrow> ('l, 'c, unit) prog" where
  "record_role_audit actor_context target_user_id event_type role_code resulting_roles ip_address user_agent =
     audit (Some (u_id (cx_user actor_context))) (Some (s_id (cx_session actor_context))) event_type
       ip_address user_agent
       (Some (role_audit_detail None (Some (u_id (cx_user actor_context))) target_user_id role_code resulting_roles))"

definition missing_role_codes :: "string list \<Rightarrow> string set" where
  "missing_role_codes role_codes = set role_codes - fst ` set (role_catalog_by_code DEFAULT_AUTHORIZATION_DEFINITIONS)"

definition usecase_replace_user_roles ::
    "session_context \<Rightarrow> uuid \<Rightarrow> string list \<Rightarrow> string option \<Rightarrow> string option \<Rightarrow> ('l, 'c, role_replacement) prog" where
  "usecase_replace_user_roles actor_context target_user_id role_codes ip_address user_agent =
     (let normalized_role_codes = fromkeys role_codes in
      if missing_role_codes normalized_role_codes \<noteq> {}
      then raise (RoleNotFoundError (missing_role_codes normalized_role_codes))
      else transaction (
        bind (find_user_by_id_for_authentication target_user_id) (\<lambda>user. case user of
          None \<Rightarrow> raise (AuthorizationUserNotFoundError target_user_id)
        | Some u \<Rightarrow>
            if u_deleted_at u \<noteq> None then raise (AuthorizationUserNotFoundError target_user_id)
            else
              bind (replace_user_roles target_user_id normalized_role_codes (Some (u_id (cx_user actor_context)))) (\<lambda>result.
              seq (for_each (rr_granted_role_codes result) (\<lambda>role_code.
                     record_role_audit actor_context target_user_id ROLE_GRANTED role_code
                       (rr_current_role_codes result) ip_address user_agent))
             (seq (for_each (rr_revoked_role_codes result) (\<lambda>role_code.
                     record_role_audit actor_context target_user_id ROLE_REVOKED role_code
                       (rr_current_role_codes result) ip_address user_agent))
               (ok result))))))"

subsection \<open>The invariant is kept\<close>

lemma keeps_authorization_queries [keeps_intros]:
  "keeps (winv P L) list_roles" "keeps (winv P L) list_permissions" "keeps (winv P L) (get_user_authorization uid)"
  unfolding list_roles_def list_permissions_def get_user_authorization_def
  by (intro keeps_intros)+

lemma keeps_record_role_audit [keeps_intros]:
  "keeps (winv (app_inv S X) L) (record_role_audit cx uid ev c rs ip ua)"
  unfolding record_role_audit_def by (intro keeps_intros)

text \<open>Looking up a user that turns out not to be deleted, and what follows.\<close>

lemma keeps_live_user:
  fixes f :: "user \<Rightarrow> ('l, 'c, 'a) prog"
  assumes "\<And>u. u_id u = uid \<Longrightarrow> keeps (winv (app_inv S (insert uid X)) L) (f u)"
  shows "keeps (winv (app_inv S X) L) (bind (find_user_by_id_for_authentication uid) (\<lambda>user. case user of
      None \<Rightarrow> raise e | Some u \<Rightarrow> if u_deleted_at u \<noteq> None then raise e' else f u))"
  unfolding keeps_wp_iff
proof (intro allI impI)
  fix s :: "('l, 'c) world" assume inv: "winv (app_inv S X) L s"
  then have ok: "db_ok (w_db s)" by (simp add: winv_def app_inv_def)
  let ?I = "winv (app_inv S X) L"
  have live: "wp (f u) (\<lambda>_. ?I) (\<lambda>_. ?I) s" if "u \<in> set (users (w_db s))" "u_id u = uid" "u_deleted_at u = None" for u
  proof (rule keeps_wp_subset [OF assms])
    show "winv (app_inv S (insert uid X)) L s"
      using inv that live_idsI [of u "w_db s"] by (auto simp: winv_def app_inv_def)
  qed (use that in auto)
  show "wp (bind (find_user_by_id_for_authentication uid) (\<lambda>user. case user of
      None \<Rightarrow> raise e | Some u \<Rightarrow> if u_deleted_at u \<noteq> None then raise e' else f u)) (\<lambda>_. ?I) (\<lambda>_. ?I) s"
    unfolding wp_bind wp_find_user_by_id [OF ok] using inv live by (auto simp: wp_raise)
qed

lemma keeps_usecase_replace_user_roles [keeps_intros]:
  "keeps (winv (app_inv S X) L) (usecase_replace_user_roles cx uid codes ip ua)"
  unfolding usecase_replace_user_roles_def Let_def
  by (intro keeps_intros keeps_live_user keeps_replace_user_roles) simp_all


subsection \<open>The contract of role replacement\<close>

text \<open>The audit entries of a list of role changes.\<close>

definition role_entries ::
    "session_context \<Rightarrow> uuid \<Rightarrow> auth_event_type \<Rightarrow> string list \<Rightarrow> string list
      \<Rightarrow> (auth_event_type \<times> uuid option \<times> (string \<times> json) list option) list" where
  "role_entries actor target ev codes resulting =
     map (\<lambda>c. (ev, Some (u_id (cx_user actor)),
        Some (role_audit_detail None (Some (u_id (cx_user actor))) target c resulting))) codes"

abbreviation entry_of :: "auth_audit_log \<Rightarrow> auth_event_type \<times> uuid option \<times> (string \<times> json) list option" where
  "entry_of a \<equiv> (a_event_type a, a_user_id a, a_detail_json a)"

lemma wp_audit_one:
  assumes "\<And>t a. entry_of a = (ev, u, det) \<Longrightarrow> w_db t = (w_db s)\<lparr>auth_audit_logs := auth_audit_logs (w_db s) @ [a]\<rparr> \<Longrightarrow> Q () t"
  shows "wp (audit u sid ev ip ua det) Q (\<lambda>_ _. True) s"
  unfolding audit_def create_audit_log_def insert_audit_log_def
  by (auto simp: wp_simps wp_session_scope intro!: assms split: option.splits)

lemma wp_audits:
  fixes s :: "('l, 'c) world"
  assumes "\<And>t new. map entry_of new = map (\<lambda>x. (ev, u, det x)) xs \<Longrightarrow>
      w_db t = (w_db s)\<lparr>auth_audit_logs := auth_audit_logs (w_db s) @ new\<rparr> \<Longrightarrow> Q t"
  shows "wp (for_each xs (\<lambda>x. audit u sid ev ip ua (det x))) (\<lambda>_. Q) (\<lambda>_ _. True) s"
  using assms
proof (induction xs arbitrary: s)
  case Nil
  then show ?case by (simp add: wp_ok)
next
  case (Cons x xs)
  show ?case
    unfolding for_each.simps wp_seq
  proof (rule wp_audit_one)
    fix t :: "('l, 'c) world" and a
    assume a: "entry_of a = (ev, u, det x)" "w_db t = (w_db s)\<lparr>auth_audit_logs := auth_audit_logs (w_db s) @ [a]\<rparr>"
    show "wp (for_each xs (\<lambda>x. audit u sid ev ip ua (det x))) (\<lambda>_. Q) (\<lambda>_ _. True) t"
    proof (rule Cons.IH)
      fix t' :: "('l, 'c) world" and new
      assume "map entry_of new = map (\<lambda>x. (ev, u, det x)) xs" "w_db t' = (w_db t)\<lparr>auth_audit_logs := auth_audit_logs (w_db t) @ new\<rparr>"
      with a show "Q t'" by (intro Cons.prems [of "a # new"]) simp_all
    qed
  qed
qed

lemma wp_role_audits:
  fixes s :: "('l, 'c) world"
  assumes "\<And>t new. map entry_of new = role_entries cx uid ev codes rs \<Longrightarrow>
      auth_audit_logs (w_db t) = auth_audit_logs (w_db s) @ new \<Longrightarrow> user_roles (w_db t) = user_roles (w_db s) \<Longrightarrow> Q t"
  shows "wp (for_each codes (\<lambda>c. record_role_audit cx uid ev c rs ip ua)) (\<lambda>_. Q) (\<lambda>_ _. True) s"
  unfolding record_role_audit_def by (rule wp_audits) (rule assms, simp_all add: role_entries_def)

lemma replace_user_roles_keeps_logs:
  "keeps (winv (\<lambda>d. auth_audit_logs d = l) (\<lambda>_. True)) (replace_user_roles uid codes by)"
  unfolding replace_user_roles_def add_user_role_def insert_user_role_def update_users_def Let_def
  by (intro keeps_intros keeps_modify_db keeps_statement) simp_all

lemma roles_of_same: "user_roles d = user_roles d' \<Longrightarrow> roles_of d = roles_of d'"
  by (simp add: roles_of_def fun_eq_iff)

lemma wp_find_user_cases:
  assumes "db_ok (w_db s)" "uid \<notin> user_ids (w_db s) \<Longrightarrow> Q None s"
    "\<And>u. u \<in> set (users (w_db s)) \<Longrightarrow> u_id u = uid \<Longrightarrow> Q (Some u) s"
  shows "wp (find_user_by_id_for_authentication uid) Q E s"
proof (cases "uid \<in> user_ids (w_db s)")
  case True
  then obtain u where "u \<in> set (users (w_db s))" "u_id u = uid" by auto
  with assms(3) wp_find_user_by_id_found [OF assms(1) this] show ?thesis by blast
qed (simp add: wp_find_user_by_id_none assms)

lemma usecase_replace_user_roles_spec:
  fixes s :: "('l, 'c) world"
  assumes ok: "db_ok (w_db s)"
  shows "wp (usecase_replace_user_roles actor uid codes ip ua)
     (\<lambda>r t. missing_role_codes codes = {} \<and> uid \<in> live_ids (w_db s) \<and> roles_of (w_db t) uid = set codes
        \<and> (\<forall>v. v \<noteq> uid \<longrightarrow> roles_of (w_db t) v = roles_of (w_db s) v)
        \<and> (\<exists>new. auth_audit_logs (w_db t) = auth_audit_logs (w_db s) @ new \<and> map entry_of new =
             role_entries actor uid ROLE_GRANTED (sorted_strings (set codes - roles_of (w_db s) uid)) (sorted_strings (set codes))
             @ role_entries actor uid ROLE_REVOKED (sorted_strings (roles_of (w_db s) uid - set codes)) (sorted_strings (set codes))))
     (\<lambda>_ _. True) s"
proof -
  let ?R = "\<lambda>r t. uid \<in> live_ids (w_db s) \<and> roles_of (w_db t) uid = set codes
        \<and> (\<forall>v. v \<noteq> uid \<longrightarrow> roles_of (w_db t) v = roles_of (w_db s) v)
        \<and> (\<exists>new. auth_audit_logs (w_db t) = auth_audit_logs (w_db s) @ new \<and> map entry_of new =
             role_entries actor uid ROLE_GRANTED (sorted_strings (set codes - roles_of (w_db s) uid)) (sorted_strings (set codes))
             @ role_entries actor uid ROLE_REVOKED (sorted_strings (roles_of (w_db s) uid - set codes)) (sorted_strings (set codes)))"
  have miss: "missing_role_codes (fromkeys codes) = missing_role_codes codes" by (simp add: missing_role_codes_def)
  have body: "wp (bind (find_user_by_id_for_authentication uid) (\<lambda>user. case user of
          None \<Rightarrow> raise (AuthorizationUserNotFoundError uid)
        | Some u \<Rightarrow>
            if u_deleted_at u \<noteq> None then raise (AuthorizationUserNotFoundError uid)
            else
              bind (replace_user_roles uid (fromkeys codes) (Some (u_id (cx_user actor)))) (\<lambda>result.
              seq (for_each (rr_granted_role_codes result) (\<lambda>role_code.
                     record_role_audit actor uid ROLE_GRANTED role_code (rr_current_role_codes result) ip ua))
             (seq (for_each (rr_revoked_role_codes result) (\<lambda>role_code.
                     record_role_audit actor uid ROLE_REVOKED role_code (rr_current_role_codes result) ip ua))
               (ok result))))) ?R (\<lambda>_ _. True) (s\<lparr>w_in_tx := b\<rparr>)" for b
  proof -
    let ?s = "s\<lparr>w_in_tx := b\<rparr>"
    have ok': "db_ok (w_db ?s)" using ok by simp
    have "wp (bind (replace_user_roles uid (fromkeys codes) (Some (u_id (cx_user actor)))) (\<lambda>result.
              seq (for_each (rr_granted_role_codes result) (\<lambda>role_code.
                     record_role_audit actor uid ROLE_GRANTED role_code (rr_current_role_codes result) ip ua))
             (seq (for_each (rr_revoked_role_codes result) (\<lambda>role_code.
                     record_role_audit actor uid ROLE_REVOKED role_code (rr_current_role_codes result) ip ua))
               (ok result)))) ?R (\<lambda>_ _. True) ?s" if live: "uid \<in> live_ids (w_db s)"
    proof -
      have logs: "wp (replace_user_roles uid (fromkeys codes) (Some (u_id (cx_user actor))))
          (\<lambda>_. winv (\<lambda>d. auth_audit_logs d = auth_audit_logs (w_db s)) (\<lambda>_. True)) (\<lambda>_ _. True) ?s"
        by (rule wp_mono [OF keeps_wp [OF replace_user_roles_keeps_logs]]) (simp_all add: winv_def)
      show ?thesis
        unfolding wp_bind wp_seq wp_ok
        by (rule wp_mono [OF wp_conj [OF replace_user_roles_spec logs]]; (intro wp_role_audits)?)
          (auto simp: winv_def live dest!: roles_of_same)
    qed
    note step = this
    show ?thesis
      unfolding wp_bind [where m = "find_user_by_id_for_authentication i" for i]
    proof (rule wp_find_user_cases [OF ok'], goal_cases)
      case (2 u)
      then have "u_deleted_at u = None \<Longrightarrow> uid \<in> live_ids (w_db s)" using live_idsI [of u "w_db s"] by simp
      then show ?case using step by (simp add: wp_raise)
    qed (simp add: wp_raise)
  qed
  show ?thesis
  proof (cases "missing_role_codes codes = {}")
    case True
    show ?thesis
      unfolding usecase_replace_user_roles_def Let_def miss True
      by (simp only: simp_thms if_False) (rule wp_transactionI [where R = ?R, OF body], simp_all)
  qed (simp add: usecase_replace_user_roles_def Let_def miss wp_raise)
qed


text \<open>
  C22: replacing roles does what was asked and records it. When it returns, all requested codes
  are in the catalog, the target is an account that is not deleted, it has exactly the requested
  roles, nobody else's roles changed, and the audit log gained exactly one entry per granted and
  per revoked role, in order, each with the acting user, the target, the role and the resulting
  roles.
\<close>

theorem role_replacement_contract:
  fixes s s' :: "('l, 'c) world"
  assumes ok: "db_ok (w_db s)" and r: "usecase_replace_user_roles actor uid codes ip ua s = (Inr res, s')"
  shows "missing_role_codes codes = {} \<and> uid \<in> live_ids (w_db s) \<and> roles_of (w_db s') uid = set codes
    \<and> (\<forall>v. v \<noteq> uid \<longrightarrow> roles_of (w_db s') v = roles_of (w_db s) v)
    \<and> (\<exists>new. auth_audit_logs (w_db s') = auth_audit_logs (w_db s) @ new \<and> map entry_of new =
         role_entries actor uid ROLE_GRANTED (sorted_strings (set codes - roles_of (w_db s) uid)) (sorted_strings (set codes))
         @ role_entries actor uid ROLE_REVOKED (sorted_strings (roles_of (w_db s) uid - set codes)) (sorted_strings (set codes)))"
  by (rule wp_Ok [OF usecase_replace_user_roles_spec [OF ok] r])

definition demo_context :: session_context where
  "demo_context = \<lparr>cx_user = demo_user 1 ''ann@example.com'', cx_session = demo_session 5 1 ''h:tok'',
     cx_roles = {''admin''}, cx_permissions = {}\<rparr>"

lemma role_replacement_contract_witness:
  "\<exists>res s'. usecase_replace_user_roles demo_context 2 [''admin''] (Some ''10.0.0.1'') None demo_running = (Inr res, s')
     \<and> roles_of (w_db s') 2 = {''admin''} \<and> roles_of (w_db s') 1 = {}"
proof -
  have ok: "db_ok (w_db demo_running)"
    using app_invD(1) [OF demo_database_inv] by (simp add: demo_world_def)
  have "case usecase_replace_user_roles demo_context 2 [''admin''] (Some ''10.0.0.1'') None demo_running
    of (Inl e, s') \<Rightarrow> False | (Inr r, s') \<Rightarrow> True" by code_simp
  then obtain res s' where r: "usecase_replace_user_roles demo_context 2 [''admin''] (Some ''10.0.0.1'') None demo_running = (Inr res, s')"
    by (auto split: prod.splits sum.splits)
  have "roles_of (w_db demo_running) 1 = {}" by (simp add: roles_of_def demo_world_def demo_database_def empty_database_def)
  moreover from role_replacement_contract [OF ok r] have "roles_of (w_db s') 2 = {''admin''}"
    "roles_of (w_db s') 1 = roles_of (w_db demo_running) 1" by simp_all
  ultimately show ?thesis using r by blast
qed

end
