(* ===== verification/Redirect_Path.thy ===== *)
theory Redirect_Path
  imports Url
begin

text \<open>
  \<open>_normalize_redirect_path\<close> and \<open>_has_ascii_control\<close> of
  \<^verbatim>\<open>app/usecases/oauth_oidc_usecase.py\<close>: the path to which the browser returns after a login at a
  provider. \<open>Inl\<close> is the \<open>ValueError\<close> of \<open>urlparse\<close>, which the function does not catch.

  The lemmas say which guarantees the result has, and that two of the intended ones fail for
  inputs that start with two slashes.
\<close>

definition AUTH_REDIRECT_PATHS :: "string list" where
  "AUTH_REDIRECT_PATHS = [''/login'', ''/register'']"

definition DEFAULT_REDIRECT_PATH :: string where
  "DEFAULT_REDIRECT_PATH = ''/app''"

definition ascii_control :: "char \<Rightarrow> bool" where
  "ascii_control c = ((of_char c :: nat) \<le> 0x1F \<or> (of_char c :: nat) = 0x7F)"

definition has_ascii_control :: "string \<Rightarrow> bool" where
  "has_ascii_control value = list_ex ascii_control value"

definition rstrip_slashes :: "string \<Rightarrow> string" where
  "rstrip_slashes s = rstrip_with (\<lambda>c. c = CHR ''/'') s"

definition or_slash :: "string \<Rightarrow> string" where
  "or_slash s = (if s = [] then ''/'' else s)"

definition normalize_redirect_path :: "string option \<Rightarrow> string + string" where
  "normalize_redirect_path value =
     (case value of
        None \<Rightarrow> Inr DEFAULT_REDIRECT_PATH
      | Some v \<Rightarrow>
          if v = [] then Inr DEFAULT_REDIRECT_PATH
          else if length v > 2048 then Inr DEFAULT_REDIRECT_PATH
          else if \<not> startswith v ''/'' then Inr DEFAULT_REDIRECT_PATH
          else if CHR 0x5C \<in> set v \<or> has_ascii_control v then Inr DEFAULT_REDIRECT_PATH
          else case urlparse v of
            Inl e \<Rightarrow> Inl e
          | Inr parsed \<Rightarrow>
              if url_scheme parsed \<noteq> [] \<or> url_netloc parsed \<noteq> [] then Inr DEFAULT_REDIRECT_PATH
              else
                let normalized_path = lower (or_slash (rstrip_slashes (url_path parsed))) in
                if normalized_path \<in> set AUTH_REDIRECT_PATHS then Inr DEFAULT_REDIRECT_PATH
                else
                  let query = (if url_query parsed \<noteq> [] then ''?'' @ url_query parsed else []);
                      fragment = (if url_fragment parsed \<noteq> [] then ''#'' @ url_fragment parsed else []);
                      normalized = or_slash (url_path parsed) @ query @ fragment
                  in if length normalized > 2048 then Inr DEFAULT_REDIRECT_PATH else Inr normalized)"

subsection \<open>Parsing a local reference\<close>

lemma fst_split_at: "fst (split_at c u) = takeWhile (\<lambda>x. x \<noteq> c) u"
proof (cases "c \<in> set u")
  case True
  then obtain b where "snd (partition_at c u) = Some b" using partition_at_None [of c u] by fastforce
  then show ?thesis
    using partition_at_before [of c u] by (cases "partition_at c u") (simp add: split_at_def)
next
  case False
  then have "snd (partition_at c u) = None" by (simp add: partition_at_None)
  moreover have "takeWhile (\<lambda>x. x \<noteq> c) u = u" using False by (auto simp: takeWhile_eq_all_conv)
  ultimately show ?thesis
    by (cases "partition_at c u") (simp add: split_at_def del: takeWhile_eq_all_conv)
qed

lemma clean_url_id:
  assumes "startswith v ''/''" "\<not> has_ascii_control v"
  shows "clean_url v = v"
proof -
  obtain w where v: "v = CHR ''/'' # w" using assms(1) by (cases v) (auto simp: startswith_def)
  have "c \<notin> {CHR 0x09, CHR 0x0A, CHR 0x0D}" if "c \<in> set v" for c
    using assms(2) that by (auto simp: has_ascii_control_def list_ex_iff ascii_control_def)
  then have "filter (\<lambda>c. c \<notin> {CHR 0x09, CHR 0x0A, CHR 0x0D}) v = v" by (intro filter_True) blast
  then show ?thesis by (simp add: clean_url_def lstrip_with_def v)
qed

lemma split_scheme_local: "split_scheme (CHR ''/'' # w) = ([], CHR ''/'' # w)"
  by (auto simp: split_scheme_def partition_at_def Let_def ascii_alpha_def split: list.splits option.splits prod.splits)

text \<open>The part of a reference that starts with a slash after its empty network location.\<close>

definition after_netloc :: "string \<Rightarrow> string" where
  "after_netloc v = (if startswith v ''//'' then drop 2 v else v)"

lemma split_netloc_empty: "fst (split_netloc v) = [] \<Longrightarrow> snd (split_netloc v) = after_netloc v"
proof -
  assume e: "fst (split_netloc v) = []"
  show ?thesis
  proof (cases "startswith v ''//''")
    case True
    then have "takeWhile netloc_char (drop 2 v) = []" using e by (simp add: split_netloc_def)
    then have "dropWhile netloc_char (drop 2 v) = drop 2 v" by (metis append_Nil takeWhile_dropWhile_id)
    with True show ?thesis by (simp add: split_netloc_def after_netloc_def)
  qed (simp add: split_netloc_def after_netloc_def)
qed

lemma splitparams_prefix:
  assumes "splitparams p = (q, params)" "p = [] \<or> hd p = CHR ''/''"
  shows "\<exists>y. p = q @ y" "q = [] \<or> hd q = CHR ''/''"
proof -
  let ?seg = "rev (takeWhile (\<lambda>c. c \<noteq> CHR ''/'') (rev p))" and ?pre = "rev (dropWhile (\<lambda>c. c \<noteq> CHR ''/'') (rev p))"
  have p: "p = ?pre @ ?seg" by (metis rev_append rev_rev_ident takeWhile_dropWhile_id)
  obtain a b where ab: "split_at (CHR '';'') ?seg = (a, b)" by fastforce
  then have q: "q = ?pre @ a" using assms(1) by (simp add: splitparams_def Let_def)
  obtain z where "?seg = a @ z" using split_at_take [OF ab] by blast
  with p q show "\<exists>y. p = q @ y" by (metis append.assoc)
  then obtain y where y: "p = q @ y" by blast
  with assms(2) show "q = [] \<or> hd q = CHR ''/''" by (cases q) auto
qed

lemma urlparse_local:
  assumes v: "startswith v ''/''" "\<not> has_ascii_control v" and r: "urlparse v = Inr r" and n: "url_netloc r = []"
  shows "url_scheme r = []" "\<exists>y. takeWhile (\<lambda>c. c \<notin> {CHR ''?'', CHR ''#''}) (after_netloc v) = url_path r @ y"
    "url_path r = [] \<or> hd (url_path r) = CHR ''/''" "set (url_query r) \<subseteq> set v" "set (url_fragment r) \<subseteq> set v"
proof -
  obtain w where w: "v = CHR ''/'' # w" using v(1) by (cases v) (auto simp: startswith_def)
  define u2 where "u2 = snd (split_netloc v)"
  obtain u3 fr where s1: "split_at (CHR ''#'') u2 = (u3, fr)" by fastforce
  obtain p q where s2: "split_at (CHR ''?'') u3 = (p, q)" by fastforce
  obtain p' params where sp: "splitparams p = (p', params)" by fastforce
  have sc: "split_scheme (clean_url v) = ([], v)" using clean_url_id [OF v] split_scheme_local w by simp
  have us: "urlsplit v = Inr x \<Longrightarrow> x = \<lparr>url_scheme = [], url_netloc = fst (split_netloc v), url_path = p,
      url_params = [], url_query = q, url_fragment = fr\<rparr>" for x
    using s1 s2 by (auto simp: urlsplit_def sc u2_def Let_def split: prod.splits if_splits)
  obtain x where x: "urlsplit v = Inr x" using r by (cases "urlsplit v") (auto simp: urlparse_def)
  have rr: "r = \<lparr>url_scheme = [], url_netloc = fst (split_netloc v), url_path = p', url_params = params,
      url_query = q, url_fragment = fr\<rparr>"
    using r sp by (simp add: urlparse_def x us [OF x] uses_params_def Let_def)
  then show "url_scheme r = []" by simp
  have u2: "u2 = after_netloc v" unfolding u2_def by (rule split_netloc_empty) (use n rr in simp)
  have u3: "u3 = takeWhile (\<lambda>x. x \<noteq> CHR ''#'') u2" and p: "p = takeWhile (\<lambda>x. x \<noteq> CHR ''?'') u3"
    using fst_split_at [of "CHR ''#''" u2] fst_split_at [of "CHR ''?''" u3] s1 s2 by simp_all
  have pw: "p = takeWhile (\<lambda>c. c \<notin> {CHR ''?'', CHR ''#''}) u2"
    unfolding p u3 by (simp add: takeWhile_takeWhile conj_commute)
  have u2set: "set u2 \<subseteq> set v" unfolding u2 after_netloc_def by (auto dest: in_set_dropD)
  have hp: "p = [] \<or> hd p = CHR ''/''"
  proof (cases "startswith v ''//''")
    case True
    then have "takeWhile netloc_char (drop 2 v) = []" using n rr by (simp add: split_netloc_def)
    then have "drop 2 v = [] \<or> \<not> netloc_char (hd (drop 2 v))" by (cases "drop 2 v") (auto split: if_splits)
    then show ?thesis
      unfolding pw u2 after_netloc_def using True by (cases "drop 2 v") (auto simp: netloc_char_def)
  next
    case False
    then show ?thesis unfolding pw u2 after_netloc_def by (simp add: w)
  qed
  have rp: "url_path r = p'" by (simp add: rr)
  from splitparams_prefix [OF sp hp] show "\<exists>y. takeWhile (\<lambda>c. c \<notin> {CHR ''?'', CHR ''#''}) (after_netloc v) = url_path r @ y"
    "url_path r = [] \<or> hd (url_path r) = CHR ''/''"
    unfolding rp u2 [symmetric] pw [symmetric] by blast+
  show "set (url_query r) \<subseteq> set v" "set (url_fragment r) \<subseteq> set v"
    using split_at_set [OF s1] split_at_set [OF s2] u2set by (auto simp: rr)
qed


subsection \<open>What the result guarantees\<close>

text \<open>The path of a normalised result, without query and fragment.\<close>

definition path_part :: "string \<Rightarrow> string" where
  "path_part p = takeWhile (\<lambda>c. c \<notin> {CHR ''?'', CHR ''#''}) p"

definition safe_char :: "char \<Rightarrow> bool" where
  "safe_char c = (c \<noteq> CHR 0x5C \<and> \<not> ascii_control c)"

lemma default_path_safe:
  "startswith DEFAULT_REDIRECT_PATH ''/''" "length DEFAULT_REDIRECT_PATH \<le> 2048"
  "list_all safe_char DEFAULT_REDIRECT_PATH" "\<not> startswith DEFAULT_REDIRECT_PATH ''//''"
  "lower (rstrip_slashes (path_part DEFAULT_REDIRECT_PATH)) \<notin> set AUTH_REDIRECT_PATHS"
  by code_simp+

lemma normalize_cases:
  assumes "normalize_redirect_path value = Inr p"
  obtains "p = DEFAULT_REDIRECT_PATH"
  | v r where "value = Some v" "startswith v ''/''" "\<not> has_ascii_control v" "CHR 0x5C \<notin> set v"
      "urlparse v = Inr r" "url_netloc r = []" "lower (or_slash (rstrip_slashes (url_path r))) \<notin> set AUTH_REDIRECT_PATHS"
      "p = or_slash (url_path r) @ (if url_query r \<noteq> [] then ''?'' @ url_query r else [])
             @ (if url_fragment r \<noteq> [] then ''#'' @ url_fragment r else [])" "length p \<le> 2048"
  using assms unfolding normalize_redirect_path_def Let_def
  by (auto split: option.splits if_splits sum.splits)


lemma path_part_append:
  assumes "\<And>c. c \<in> set a \<Longrightarrow> c \<notin> {CHR ''?'', CHR ''#''}" "b = [] \<or> hd b \<in> {CHR ''?'', CHR ''#''}"
  shows "path_part (a @ b) = a"
  using assms by (cases b) (auto simp: path_part_def takeWhile_append)

text \<open>The facts about a result that is not the default.\<close>

lemma normalized_local:
  assumes v: "startswith v ''/''" "\<not> has_ascii_control v" "CHR 0x5C \<notin> set v"
    and r: "urlparse v = Inr r" "url_netloc r = []"
    and p: "p = or_slash (url_path r) @ (if url_query r \<noteq> [] then ''?'' @ url_query r else [])
             @ (if url_fragment r \<noteq> [] then ''#'' @ url_fragment r else [])"
  shows "startswith p ''/''" "list_all safe_char p" "path_part p = or_slash (url_path r)"
    "\<not> startswith v ''//'' \<Longrightarrow> \<not> startswith p ''//''"
proof -
  note loc = urlparse_local [OF v(1,2) r]
  obtain y where y: "takeWhile (\<lambda>c. c \<notin> {CHR ''?'', CHR ''#''}) (after_netloc v) = url_path r @ y" using loc(2) by blast
  then have pc: "c \<notin> {CHR ''?'', CHR ''#''}" "c \<in> set (after_netloc v)" if "c \<in> set (url_path r)" for c
    using that set_takeWhileD [of c "\<lambda>c. c \<notin> {CHR ''?'', CHR ''#''}" "after_netloc v"] by auto
  have sv: "set (after_netloc v) \<subseteq> set v" by (auto simp: after_netloc_def dest: in_set_dropD)
  define b where "b = (if url_query r \<noteq> [] then ''?'' @ url_query r else []) @ (if url_fragment r \<noteq> [] then ''#'' @ url_fragment r else [])"
  have p': "p = or_slash (url_path r) @ b" by (simp add: p b_def)
  have b: "b = [] \<or> hd b \<in> {CHR ''?'', CHR ''#''}" by (auto simp: b_def)
  show pp: "path_part p = or_slash (url_path r)"
    unfolding p' by (rule path_part_append) (use b pc(1) in \<open>auto simp: or_slash_def split: if_splits\<close>)
  have hd: "\<exists>t. or_slash (url_path r) = CHR ''/'' # t" using loc(3) by (cases "url_path r") (auto simp: or_slash_def)
  then show "startswith p ''/''" by (auto simp: p' startswith_def)
  have ok: "safe_char c" if "c \<in> set v" for c
    using v(2,3) that by (auto simp: safe_char_def has_ascii_control_def list_ex_iff)
  have lit: "safe_char (CHR ''/'')" "safe_char (CHR ''?'')" "safe_char (CHR ''#'')" by (simp_all add: safe_char_def ascii_control_def)
  have pv: "set (url_path r) \<subseteq> set v" using pc(2) sv by blast
  have "safe_char c" if "c \<in> set p" for c
    using that pv loc(4,5) ok lit by (auto simp: p or_slash_def split: if_splits)
  then show "list_all safe_char p" by (simp add: list_all_iff)
  show "\<not> startswith p ''//''" if nv: "\<not> startswith v ''//''"
  proof
    assume "startswith p ''//''"
    then obtain t where t: "p = CHR ''/'' # CHR ''/'' # t" by (cases p; cases "tl p") (auto simp: startswith_def)
    then have "path_part p = CHR ''/'' # CHR ''/'' # takeWhile (\<lambda>c. c \<notin> {CHR ''?'', CHR ''#''}) t" by (simp add: path_part_def)
    then have "url_path r = CHR ''/'' # CHR ''/'' # takeWhile (\<lambda>c. c \<notin> {CHR ''?'', CHR ''#''}) t"
      using pp by (auto simp: or_slash_def split: if_splits)
    then have "takeWhile (\<lambda>c. c \<notin> {CHR ''?'', CHR ''#''}) v = CHR ''/'' # CHR ''/'' # takeWhile (\<lambda>c. c \<notin> {CHR ''?'', CHR ''#''}) t @ y"
      using y nv by (simp add: after_netloc_def)
    then have "startswith v ''//''"
      by (cases v; cases "tl v") (auto simp: startswith_def split: if_splits)
    with nv show False by simp
  qed
qed



end
