(* ===== verification/Oidc_Usecase.thy ===== *)
theory Oidc_Usecase
  imports Auth_Properties Authorization_Usecase Redirect_Path
begin

text \<open>
  \<open>OAuthOidcUsecase\<close> (\<^verbatim>\<open>app/usecases/oauth_oidc_usecase.py\<close>): starting a login or a second
  authentication at an OpenID Connect provider, and completing it when the browser comes back.

  The provider client of \<open>OidcProviderClientInterface\<close> is a parameter: its answers are arbitrary
  functions of its state, and may be exceptions. The code challenge of PKCE is a parameter too.
\<close>

record oidc_authorization_start_result =
  sr_provider_id :: string
  sr_authorization_url :: string
  sr_browser_binding_cookie_name :: string
  sr_browser_binding_cookie_value :: string
  sr_browser_binding_cookie_max_age :: int

record oidc_callback_result =
  cr_redirect_path :: string
  cr_issued_session :: "issued_session option"
  cr_reauthenticated_context :: "session_context option"

definition purpose_str :: "oidc_purpose \<Rightarrow> string" where
  "purpose_str p = (case p of Login \<Rightarrow> ''login'' | Account_deletion_reauth \<Rightarrow> ''account_deletion_reauth'')"

text \<open>\<open>type(error).__name__\<close>\<close>

definition exn_name :: "exn \<Rightarrow> string" where
  "exn_name error =
     (case error of
        EmailAlreadyRegisteredError \<Rightarrow> ''EmailAlreadyRegisteredError''
      | InvalidCredentialsError \<Rightarrow> ''InvalidCredentialsError''
      | RateLimitExceededError _ \<Rightarrow> ''RateLimitExceededError''
      | AccountDeletionConfirmationMismatchError \<Rightarrow> ''AccountDeletionConfirmationMismatchError''
      | AccountDeletionReauthRequiredError \<Rightarrow> ''AccountDeletionReauthRequiredError''
      | AccountDeletionInvalidPasswordError \<Rightarrow> ''AccountDeletionInvalidPasswordError''
      | AccountDeletionOidcReauthRequiredError _ \<Rightarrow> ''AccountDeletionOidcReauthRequiredError''
      | WeakPasswordError _ \<Rightarrow> ''WeakPasswordError''
      | UserNotFoundError _ \<Rightarrow> ''UserNotFoundError''
      | AuthSessionNotFoundError _ \<Rightarrow> ''AuthSessionNotFoundError''
      | RoleNotFoundError _ \<Rightarrow> ''RoleNotFoundError''
      | AuthorizationUserNotFoundError _ \<Rightarrow> ''AuthorizationUserNotFoundError''
      | OidcProviderNotConfiguredError _ \<Rightarrow> ''OidcProviderNotConfiguredError''
      | OidcProviderUnavailableError \<Rightarrow> ''OidcProviderUnavailableError''
      | OidcProviderMetadataError \<Rightarrow> ''OidcProviderMetadataError''
      | OidcStateMismatchError \<Rightarrow> ''OidcStateMismatchError''
      | OidcBrowserBindingMismatchError \<Rightarrow> ''OidcBrowserBindingMismatchError''
      | OidcTokenExchangeError \<Rightarrow> ''OidcTokenExchangeError''
      | OidcProviderAccessDeniedError \<Rightarrow> ''OidcProviderAccessDeniedError''
      | OidcClaimsValidationError \<Rightarrow> ''OidcClaimsValidationError''
      | OidcEmailNotVerifiedError \<Rightarrow> ''OidcEmailNotVerifiedError''
      | OidcProvisioningDisabledError \<Rightarrow> ''OidcProvisioningDisabledError''
      | OidcIdentityLinkRequiredError \<Rightarrow> ''OidcIdentityLinkRequiredError''
      | OidcIdentityLinkDisabledError \<Rightarrow> ''OidcIdentityLinkDisabledError''
      | OidcIdentityUnavailableError \<Rightarrow> ''OidcIdentityUnavailableError''
      | OidcAuthorizationRateLimitedError \<Rightarrow> ''OidcAuthorizationRateLimitedError''
      | OidcReauthSubjectMismatchError \<Rightarrow> ''OidcReauthSubjectMismatchError''
      | OidcReauthAuthenticationRequiredError \<Rightarrow> ''OidcReauthAuthenticationRequiredError''
      | OidcReauthAuthTimeRequiredError \<Rightarrow> ''OidcReauthAuthTimeRequiredError''
      | OidcReauthStaleError \<Rightarrow> ''OidcReauthStaleError''
      | OidcCallbackFlowError _ _ _ \<Rightarrow> ''OidcCallbackFlowError''
      | SampleItemNotFoundError \<Rightarrow> ''SampleItemNotFoundError''
      | InvalidSampleItemCursorError \<Rightarrow> ''InvalidSampleItemCursorError''
      | IntegrityError \<Rightarrow> ''IntegrityError''
      | StaleDataError \<Rightarrow> ''StaleDataError''
      | StatementError \<Rightarrow> ''StatementError''
      | MultipleResultsFound \<Rightarrow> ''MultipleResultsFound''
      | ValueError _ \<Rightarrow> ''ValueError''
      | AttributeError \<Rightarrow> ''AttributeError''
      | Exit _ \<Rightarrow> ''Exit'')"

subsection \<open>Claims\<close>

definition trusted_verified_email :: "oidc_provider \<Rightarrow> oidc_verified_claims \<Rightarrow> exn + string" where
  "trusted_verified_email provider claims =
     (case vc_email claims of
        None \<Rightarrow> Inl OidcEmailNotVerifiedError
      | Some e \<Rightarrow>
          if \<not> op_trust_verified_email provider \<or> \<not> vc_email_verified claims then Inl OidcEmailNotVerifiedError
          else
            let normalized_email = normalize_email e in
            if normalized_email = [] then Inl OidcEmailNotVerifiedError else Inr normalized_email)"

text \<open>The instant of linking is set when the row is written.\<close>

definition identity_for_claims :: "oidc_provider \<Rightarrow> oidc_verified_claims \<Rightarrow> uuid \<Rightarrow> ('l, 'c, auth_identity) prog" where
  "identity_for_claims provider claims user_id =
     bind uuid4 (\<lambda>i.
     ok \<lparr>i_id = i, i_user_id = user_id, i_provider_id = op_provider_id provider,
         i_provider_subject = vc_subject claims, i_email = map_option normalize_email (vc_email claims),
         i_is_email_verified = vc_email_verified claims, i_claims_json = vc_claims_json claims,
         i_linked_at = 0, i_last_logged_in_at = None\<rparr>)"

subsection \<open>Audit entries\<close>

definition audit_oidc_failure ::
    "auth_event_type \<Rightarrow> string \<Rightarrow> oidc_purpose \<Rightarrow> exn \<Rightarrow> string option \<Rightarrow> string option \<Rightarrow> uuid option \<Rightarrow> uuid option
      \<Rightarrow> ('l, 'c, unit) prog" where
  "audit_oidc_failure event_type provider_id purpose error ip_address user_agent user_id session_id =
     audit user_id session_id event_type ip_address user_agent
       (Some [(''provider_id'', JStr provider_id), (''purpose'', JStr (purpose_str purpose)),
              (''error'', JStr (exn_name error))])"

definition audit_oidc_event ::
    "auth_event_type \<Rightarrow> uuid \<Rightarrow> uuid \<Rightarrow> string \<Rightarrow> oidc_purpose \<Rightarrow> string option \<Rightarrow> string option
      \<Rightarrow> ('l, 'c, unit) prog" where
  "audit_oidc_event event_type user_id session_id provider_id purpose ip_address user_agent =
     audit (Some user_id) (Some session_id) event_type ip_address user_agent
       (Some [(''provider_id'', JStr provider_id), (''purpose'', JStr (purpose_str purpose))])"

text \<open>The entry for a failed callback: a reauthentication names its user and session.\<close>

definition audit_callback_failure ::
    "auth_oidc_state \<Rightarrow> oidc_provider \<Rightarrow> session_context option \<Rightarrow> exn \<Rightarrow> string option \<Rightarrow> string option
      \<Rightarrow> ('l, 'c, unit) prog" where
  "audit_callback_failure oidc_state provider current_session error ip_address user_agent =
     (if o_purpose oidc_state = Account_deletion_reauth then
        audit_oidc_failure OIDC_REAUTH_FAILED (op_provider_id provider) (o_purpose oidc_state) error ip_address user_agent
          (case current_session of Some cx \<Rightarrow> Some (u_id (cx_user cx)) | None \<Rightarrow> o_expected_user_id oidc_state)
          (case current_session of Some cx \<Rightarrow> Some (s_id (cx_session cx)) | None \<Rightarrow> o_expected_session_id oidc_state)
      else
        audit_oidc_failure OIDC_LOGIN_FAILED (op_provider_id provider) (o_purpose oidc_state) error ip_address user_agent
          None None)"

subsection \<open>Starting\<close>

definition start_authorization ::
    "('l, 'c) app \<Rightarrow> string \<Rightarrow> string option \<Rightarrow> oidc_purpose \<Rightarrow> session_context option \<Rightarrow> string option \<Rightarrow> string option
      \<Rightarrow> ('l, 'c, oidc_authorization_start_result) prog" where
  "start_authorization app provider_id redirect_path purpose current_session ip_address language_code =
     (case get_provider (oidc_settings_of app) provider_id of
        None \<Rightarrow> raise (OidcProviderNotConfiguredError provider_id)
      | Some provider \<Rightarrow>
          if purpose = Account_deletion_reauth \<and> current_session = None
          then raise OidcReauthAuthenticationRequiredError
          else
          let ip = rate_limit_ip ip_address;
              limiter = auth_rate_limiter app;
              ttl = AUTH_OIDC_STATE_TTL_SECONDS (oidc_settings_of app);
              reauth = (purpose = Account_deletion_reauth);
              login_hint = (if reauth then map_option (\<lambda>cx. normalize_email (u_email (cx_user cx))) current_session
                            else None)
          in
          bind (ask_limiter (is_oidc_authorization_allowed limiter ip)) (\<lambda>allowed.
          if \<not> allowed then raise OidcAuthorizationRateLimitedError
          else
          bind generate_token (\<lambda>state.
          bind generate_token (\<lambda>browser_binding.
          bind generate_token (\<lambda>nonce.
          bind generate_token (\<lambda>pkce_verifier.
          let state_hash = hash_token app state in
          bind utcnow (\<lambda>now.
          bind (call_client (build_authorization_url (oidc_provider_client app) (op_provider_id provider) state nonce
                  (s256_code_challenge app pkce_verifier)
                  (if reauth then Some ''login'' else None) (if reauth then Some 0 else None) login_hint)) (\<lambda>url.
          seq (transaction (
            bind (lift (case normalize_redirect_path redirect_path of Inl e \<Rightarrow> Inl (ValueError e) | Inr p \<Rightarrow> Inr p)) (\<lambda>path.
            bind uuid4 (\<lambda>i.
            bind (create_oidc_authorization_state \<lparr>o_id = i, o_state_hash = state_hash,
              o_browser_binding_hash = hash_token app browser_binding, o_nonce_hash = hash_token app nonce,
              o_pkce_verifier = pkce_verifier, o_provider_id = op_provider_id provider, o_purpose = purpose,
              o_expected_user_id = map_option (\<lambda>cx. u_id (cx_user cx)) current_session,
              o_expected_session_id = map_option (\<lambda>cx. s_id (cx_session cx)) current_session,
              o_redirect_path = path, o_login_hint = login_hint,
              o_language_code = (if purpose = Login then language_code else None),
              o_expires_at = now + seconds ttl, o_consumed_at = None\<rparr>) (\<lambda>_.
            tell_limiter (record_oidc_authorization limiter ip))))))
         (ok \<lparr>sr_provider_id = op_provider_id provider, sr_authorization_url = url,
              sr_browser_binding_cookie_name = ''oidc_binding_'' @ take 16 state_hash,
              sr_browser_binding_cookie_value = browser_binding,
              sr_browser_binding_cookie_max_age = ttl\<rparr>)))))))))"

subsection \<open>Completing\<close>

definition consume_callback_state ::
    "('l, 'c) app \<Rightarrow> oidc_provider \<Rightarrow> string \<Rightarrow> string option \<Rightarrow> ('l, 'c, auth_oidc_state) prog" where
  "consume_callback_state app provider state browser_binding_cookie_value =
     (case browser_binding_cookie_value of
        None \<Rightarrow> raise OidcBrowserBindingMismatchError
      | Some binding \<Rightarrow>
          bind utcnow (\<lambda>consumed_at.
          bind (transaction (
            consume_oidc_authorization_state (hash_token app state) (hash_token app binding) consumed_at))
          (\<lambda>(status, found).
          if status \<in> {State_mismatch, Expired, Already_consumed} then raise OidcStateMismatchError
          else if status = Browser_binding_mismatch then raise OidcBrowserBindingMismatchError
          else case found of
            None \<Rightarrow> raise OidcStateMismatchError
          | Some oidc_state \<Rightarrow>
              if o_provider_id oidc_state \<noteq> op_provider_id provider then raise OidcStateMismatchError
              else ok oidc_state)))"

definition resolve_login_user_and_identity ::
    "oidc_provider \<Rightarrow> oidc_verified_claims \<Rightarrow> string option \<Rightarrow> ('l, 'c, user \<times> auth_identity \<times> auth_event_type list) prog" where
  "resolve_login_user_and_identity provider claims language_code =
     bind (find_identity_by_provider_subject (op_provider_id provider) (vc_subject claims)) (\<lambda>found. case found of
       Some identity \<Rightarrow>
         bind (find_user_by_id_for_authentication (i_user_id identity)) (\<lambda>user. case user of
           None \<Rightarrow> raise OidcIdentityUnavailableError
         | Some u \<Rightarrow>
             if u_deleted_at u \<noteq> None \<or> \<not> u_is_active u then raise OidcIdentityUnavailableError
             else ok (u, identity, []))
     | None \<Rightarrow>
         bind (lift (trusted_verified_email provider claims)) (\<lambda>normalized_email.
         bind (find_user_by_verified_email_for_oidc_link normalized_email) (\<lambda>linked. case linked of
           Some linked_user \<Rightarrow>
             if op_link_mode provider = Link_disabled then raise OidcIdentityLinkDisabledError
             else if op_link_mode provider \<noteq> Link_auto then raise OidcIdentityLinkRequiredError
             else
               bind (identity_for_claims provider claims (u_id linked_user)) (\<lambda>new_identity.
               bind (create_auth_identity new_identity) (\<lambda>identity.
               ok (linked_user, identity, [OIDC_IDENTITY_LINKED])))
         | None \<Rightarrow>
             bind (find_user_by_email_for_oidc_collision normalized_email) (\<lambda>colliding.
             if colliding \<noteq> None then raise OidcIdentityUnavailableError
             else if \<not> allows_auto_provision provider then raise OidcProvisioningDisabledError
             else
               bind (catch (create_user normalized_email None
                       (case truthy language_code of None \<Rightarrow> DEFAULT_LANGUAGE_CODE | Some c \<Rightarrow> c))
                     (\<lambda>e. if e = EmailAlreadyRegisteredError then raise OidcIdentityUnavailableError else raise e)) (\<lambda>user.
               bind (identity_for_claims provider claims (u_id user)) (\<lambda>new_identity.
               bind (create_auth_identity new_identity) (\<lambda>identity.
               ok (user, identity, [OIDC_USER_PROVISIONED]))))))))"

definition complete_login_callback ::
    "('l, 'c) app \<Rightarrow> oidc_provider \<Rightarrow> auth_oidc_state \<Rightarrow> oidc_verified_claims \<Rightarrow> string option \<Rightarrow> string option \<Rightarrow> string option
      \<Rightarrow> ('l, 'c, oidc_callback_result) prog" where
  "complete_login_callback app provider oidc_state claims current_session_token ip_address user_agent =
     (let language_code = (case o_language_code oidc_state of
            None \<Rightarrow> None | Some c \<Rightarrow> if is_supported_language_code c then Some c else None) in
      bind (transaction (
        bind (resolve_login_user_and_identity provider claims language_code) (\<lambda>(user0, identity, setup_audits).
        bind utcnow (\<lambda>login_at.
        bind (record_user_login (u_id user0) login_at) (\<lambda>user.
        bind (replace_auth_session app user current_session_token ip_address user_agent)
          (\<lambda>(session, session_token, csrf_token).
        seq (record_oidc_login (u_id user) (i_id identity) (s_id session) login_at (vc_auth_time claims))
       (seq (for_each setup_audits (\<lambda>event_type.
               audit_oidc_event event_type (u_id user) (s_id session) (op_provider_id provider) (o_purpose oidc_state)
                 ip_address user_agent))
       (seq (audit_oidc_event OIDC_LOGIN_SUCCESS (u_id user) (s_id session) (op_provider_id provider)
               (o_purpose oidc_state) ip_address user_agent)
         (ok (user, session, session_token, csrf_token))))))))))
      (\<lambda>(user, session, session_token, csrf_token).
      bind (authorization_for_existing_user (u_id user)) (\<lambda>authorization.
      ok \<lparr>cr_redirect_path = o_redirect_path oidc_state,
          cr_issued_session = Some \<lparr>is_user = user, is_session = session, is_session_token = session_token,
            is_csrf_token = csrf_token, is_roles = ua_roles authorization,
            is_permissions = ua_permissions authorization\<rparr>,
          cr_reauthenticated_context = None\<rparr>)))"

definition complete_reauth_callback ::
    "('l, 'c) app \<Rightarrow> oidc_provider \<Rightarrow> auth_oidc_state \<Rightarrow> oidc_verified_claims \<Rightarrow> session_context option \<Rightarrow> string option
      \<Rightarrow> string option \<Rightarrow> ('l, 'c, oidc_callback_result) prog" where
  "complete_reauth_callback app provider oidc_state claims current_session ip_address user_agent =
     (case current_session of
        None \<Rightarrow> raise OidcReauthAuthenticationRequiredError
      | Some cx \<Rightarrow>
          if o_expected_user_id oidc_state \<noteq> Some (u_id (cx_user cx))
             \<or> o_expected_session_id oidc_state \<noteq> Some (s_id (cx_session cx))
          then raise OidcReauthSubjectMismatchError
          else
          bind (find_identity_by_provider_subject (op_provider_id provider) (vc_subject claims)) (\<lambda>found. case found of
            None \<Rightarrow> raise OidcReauthSubjectMismatchError
          | Some identity \<Rightarrow>
              if i_user_id identity \<noteq> u_id (cx_user cx) then raise OidcReauthSubjectMismatchError
              else case vc_auth_time claims of
                None \<Rightarrow> raise OidcReauthAuthTimeRequiredError
              | Some auth_time \<Rightarrow>
                  bind utcnow (\<lambda>now.
                  if now - auth_time > seconds (AUTH_OIDC_REAUTH_FRESHNESS_SECONDS (oidc_settings_of app))
                  then raise OidcReauthStaleError
                  else
                  bind utcnow (\<lambda>reauthenticated_at.
                  seq (transaction (
                    seq (record_oidc_reauth (s_id (cx_session cx)) auth_time)
                      (audit_oidc_event OIDC_REAUTH_SUCCESS (u_id (cx_user cx)) (s_id (cx_session cx))
                        (op_provider_id provider) (o_purpose oidc_state) ip_address user_agent)))
                    (ok \<lparr>cr_redirect_path = o_redirect_path oidc_state, cr_issued_session = None,
                        cr_reauthenticated_context = Some cx\<rparr>)))))"

text \<open>The body of the \<open>try\<close> of \<open>complete_callback\<close>.\<close>

definition callback_flow ::
    "('l, 'c) app \<Rightarrow> oidc_provider \<Rightarrow> auth_oidc_state \<Rightarrow> string \<Rightarrow> session_context option \<Rightarrow> string option \<Rightarrow> string option
      \<Rightarrow> string option \<Rightarrow> ('l, 'c, oidc_callback_result) prog" where
  "callback_flow app provider oidc_state code current_session current_session_token ip_address user_agent =
     bind (call_client (exchange_code (oidc_provider_client app) (op_provider_id provider) code
             (o_pkce_verifier oidc_state))) (\<lambda>id_token.
     bind (call_client (validate_id_token (oidc_provider_client app) (op_provider_id provider) id_token
             (o_nonce_hash oidc_state) (o_purpose oidc_state = Account_deletion_reauth))) (\<lambda>claims.
     if o_purpose oidc_state = Account_deletion_reauth
     then complete_reauth_callback app provider oidc_state claims current_session ip_address user_agent
     else complete_login_callback app provider oidc_state claims current_session_token ip_address user_agent))"

definition complete_callback ::
    "('l, 'c) app \<Rightarrow> string \<Rightarrow> string \<Rightarrow> string \<Rightarrow> string option \<Rightarrow> session_context option \<Rightarrow> string option \<Rightarrow> string option
      \<Rightarrow> string option \<Rightarrow> ('l, 'c, oidc_callback_result) prog" where
  "complete_callback app provider_id state code browser_binding_cookie_value current_session current_session_token
     ip_address user_agent =
     (case get_provider (oidc_settings_of app) provider_id of
        None \<Rightarrow> raise (OidcProviderNotConfiguredError provider_id)
      | Some provider \<Rightarrow>
          bind (consume_callback_state app provider state browser_binding_cookie_value) (\<lambda>oidc_state.
          catch (callback_flow app provider oidc_state code current_session current_session_token ip_address user_agent)
            (\<lambda>exc.
             seq (audit_callback_failure oidc_state provider current_session exc ip_address user_agent)
               (raise (OidcCallbackFlowError exc (o_purpose oidc_state) (o_redirect_path oidc_state))))))"

definition complete_error_callback ::
    "('l, 'c) app \<Rightarrow> string \<Rightarrow> string \<Rightarrow> string option \<Rightarrow> exn \<Rightarrow> session_context option \<Rightarrow> string option \<Rightarrow> string option
      \<Rightarrow> ('l, 'c, unit) prog" where
  "complete_error_callback app provider_id state browser_binding_cookie_value provider_error current_session
     ip_address user_agent =
     (case get_provider (oidc_settings_of app) provider_id of
        None \<Rightarrow> raise (OidcProviderNotConfiguredError provider_id)
      | Some provider \<Rightarrow>
          bind (consume_callback_state app provider state browser_binding_cookie_value) (\<lambda>oidc_state.
          seq (audit_callback_failure oidc_state provider current_session provider_error ip_address user_agent)
            (raise (OidcCallbackFlowError provider_error (o_purpose oidc_state) (o_redirect_path oidc_state)))))"


subsection \<open>The invariant is kept\<close>

lemma keeps_oidc_audits [keeps_intros]:
  "keeps (winv (app_inv S X) L) (audit_oidc_failure ev pid pu e ip ua u si)"
  "keeps (winv (app_inv S X) L) (audit_oidc_event ev uid sid pid pu ip ua)"
  "keeps (winv (app_inv S X) L) (audit_callback_failure st pr cs e ip ua)"
  unfolding audit_callback_failure_def audit_oidc_failure_def audit_oidc_event_def by (intro keeps_intros)+

lemma keeps_identity_for_claims [keeps_intros]: "keeps (winv P L) (identity_for_claims pr cl uid)"
  unfolding identity_for_claims_def by (intro keeps_intros)

lemma keeps_consume_callback_state [keeps_intros]:
  "keeps (winv (app_inv S X) L) (consume_callback_state app pr st b)"
  unfolding consume_callback_state_def by (intro keeps_intros)

lemma keeps_complete_reauth [keeps_intros]:
  "keeps (winv (app_inv S X) L) (complete_reauth_callback app pr st cl cs ip ua)"
  unfolding complete_reauth_callback_def by (intro keeps_intros)

text \<open>Attaching a new identity to a user that is live.\<close>

lemma keeps_attach_identity:
  fixes f :: "auth_identity \<Rightarrow> ('l, 'c, 'a) prog"
  assumes uid: "uid \<in> X" and f: "\<And>i. keeps (winv (app_inv S X) L) (f i)"
  shows "keeps (winv (app_inv S X) L) (bind (identity_for_claims pr cl uid) (\<lambda>i. bind (create_auth_identity i) f))"
  unfolding keeps_wp_iff
proof (intro allI impI)
  fix s :: "('l, 'c) world" assume inv: "winv (app_inv S X) L s"
  have "keeps (winv (app_inv S X) L) (bind (create_auth_identity i) f)" if "i_user_id i = uid" for i
    using that uid by (intro keeps_bind keeps_create_auth_identity f) simp
  then show "wp (bind (identity_for_claims pr cl uid) (\<lambda>i. bind (create_auth_identity i) f))
      (\<lambda>_. winv (app_inv S X) L) (\<lambda>_. winv (app_inv S X) L) s"
    unfolding identity_for_claims_def wp_bind [where m = "bind a b" for a b] wp_bind [where m = uuid4] wp_uuid4 wp_ok
    by (intro keeps_wp) (use inv in simp_all)
qed

lemma if_bexI:
  assumes "\<not> (\<exists>x \<in> A. P x) \<Longrightarrow> N" "\<And>x. x \<in> A \<Longrightarrow> P x \<Longrightarrow> M x"
  shows "if \<exists>x \<in> A. P x then \<exists>x \<in> A. P x \<and> M x else N"
proof (cases "\<exists>x \<in> A. P x")
  case True
  with assms(2) have "\<exists>x \<in> A. P x \<and> M x" by blast
  with True show ?thesis by (simp only: if_True)
next
  case False
  with assms(1) [OF False] show ?thesis by simp
qed

text \<open>The search for an account to link finds only accounts that are live and active.\<close>

lemma wp_find_for_link:
  assumes ok: "db_ok (w_db s)"
    and none: "\<not> (\<exists>u \<in> set (users (w_db s)). lower (u_email u) = normalize_email em \<and> u_deleted_at u = None \<and> u_is_active u) \<Longrightarrow> Q None s"
    and some: "\<And>u. u \<in> set (users (w_db s)) \<Longrightarrow> lower (u_email u) = normalize_email em \<Longrightarrow> u_deleted_at u = None \<Longrightarrow>
      u_is_active u \<Longrightarrow> Q (Some u) s"
  shows "wp (find_user_by_verified_email_for_oidc_link em) Q E s"
  unfolding find_user_by_verified_email_for_oidc_link_def Let_def wp_find_by_active_email [OF ok]
  by (rule if_bexI) (use none some in auto)

lemma wp_find_for_collision:
  fixes s :: "('l, 'c) world"
  assumes ok: "db_ok (w_db s)"
    and none: "\<not> (\<exists>u \<in> set (users (w_db s)). lower (u_email u) = normalize_email em \<and> u_deleted_at u = None) \<Longrightarrow> Q None s"
    and some: "\<And>u. Q (Some u) s"
  shows "wp (find_user_by_email_for_oidc_collision em) Q E s"
proof -
  have "(find_user_by_email_for_oidc_collision em :: ('l, 'c, user option) prog) = find_user_by_email (normalize_email em)"
    by (simp add: find_user_by_email_for_oidc_collision_def find_user_by_email_def)
  moreover have "wp (find_user_by_email (normalize_email em)) Q E s"
    unfolding wp_find_user_by_email [OF ok] by (rule if_bexI) (use none some in auto)
  ultimately show ?thesis by simp
qed

lemma keeps_bind_link:
  fixes f :: "user option \<Rightarrow> ('l, 'c, 'a) prog"
  assumes "keeps (winv (app_inv S X) L) (f None)"
    "\<And>u. keeps (winv (app_inv S (insert (u_id u) X)) L) (f (Some u))"
  shows "keeps (winv (app_inv S X) L) (bind (find_user_by_verified_email_for_oidc_link em) f)"
proof (rule keeps_bind_live [where Y = "\<lambda>r. case r of None \<Rightarrow> X | Some u \<Rightarrow> insert (u_id u) X"])
  fix s :: "('l, 'c) world" assume inv: "winv (app_inv S X) L s"
  then have ok: "db_ok (w_db s)" by (simp add: winv_def app_inv_def)
  show "wp (find_user_by_verified_email_for_oidc_link em)
     (\<lambda>r. winv (app_inv S (case r of None \<Rightarrow> X | Some u \<Rightarrow> insert (u_id u) X)) L) (\<lambda>_. winv (app_inv S X) L) s"
    by (rule wp_find_for_link [OF ok]) (use inv in \<open>auto simp: winv_def app_inv_def intro: live_idsI\<close>)
qed (use assms in \<open>auto split: option.splits\<close>)

lemma keeps_resolve_login [keeps_intros]:
  "keeps (winv (app_inv S X) L) (resolve_login_user_and_identity pr cl lang :: ('l, 'c, user \<times> auth_identity \<times> auth_event_type list) prog)"
proof -
  have created: "keeps (winv (app_inv S X) L) (bind (catch (create_user e ph lg)
      (\<lambda>x. if x = EmailAlreadyRegisteredError then raise y else raise x)) f)"
    if f: "\<And>u. keeps (winv (app_inv S (insert (u_id u) X)) L) (f u)" for e ph lg y
      and f :: "user \<Rightarrow> ('l, 'c, user \<times> auth_identity \<times> auth_event_type list) prog"
  proof (rule keeps_bind_live [where Y = "\<lambda>u. insert (u_id u) X"])
    fix s :: "('l, 'c) world" assume inv: "winv (app_inv S X) L s"
    show "wp (catch (create_user e ph lg) (\<lambda>x. if x = EmailAlreadyRegisteredError then raise y else raise x))
        (\<lambda>u. winv (app_inv S (insert (u_id u) X)) L) (\<lambda>_. winv (app_inv S X) L) s"
      unfolding wp_catch by (rule wp_mono [OF wp_create_user_live [OF inv]]) (simp_all add: wp_raise)
  qed (use f in auto)
  show ?thesis
    unfolding resolve_login_user_and_identity_def
    by (intro keeps_intros keeps_bind_link created keeps_attach_identity) (auto intro!: keeps_intros keeps_attach_identity)
qed


lemma keeps_complete_login_callback [keeps_intros]:
  "S = auth_settings_of app \<Longrightarrow> keeps (winv (app_inv S X) L) (complete_login_callback app pr st cl cur ip ua)"
  unfolding complete_login_callback_def Let_def
  by (intro keeps_intros keeps_after_login keeps_replace_auth_session) simp_all

lemma keeps_callback_flow [keeps_intros]:
  "S = auth_settings_of app \<Longrightarrow> keeps (winv (app_inv S X) L) (callback_flow app pr st code cs cur ip ua)"
  unfolding callback_flow_def by (intro keeps_intros)

lemma keeps_complete_callback [keeps_intros]:
  "S = auth_settings_of app \<Longrightarrow> keeps (winv (app_inv S X) L) (complete_callback app pid st code b cs cur ip ua)"
  "keeps (winv (app_inv S X) L) (complete_error_callback app pid st b e cs ip ua)"
  unfolding complete_callback_def complete_error_callback_def by (intro keeps_intros; assumption?)+

context auth_app
begin

lemma keeps_start_authorization: "keeps (inv_live X) (start_authorization app pid path pu cs ip lang)"
  unfolding start_authorization_def Let_def
  by (intro keeps_intros) simp_all

end

end
