(* ===== verification/Text_Codec.thy ===== *)
theory Text_Codec
  imports Data_Model
begin

text \<open>
  The textual formats of the standard library that the program writes and reads: URL-safe base64
  (\<^verbatim>\<open>base64\<close>), the JSON text of a dictionary of strings (\<^verbatim>\<open>json.dumps\<close>) and \<^verbatim>\<open>uuid.UUID\<close> of a string.
  The parser of JSON and \<open>datetime.fromisoformat\<close> (the instant and whether the text has an offset) are the
  fields of \<open>text_lib\<close>; \<open>loads_dumps\<close> and \<open>reads_isoformat\<close> state what their documentation promises: each undoes
  its printer.
\<close>

subsection \<open>Base64\<close>

text \<open>\<open>base64.urlsafe_b64decode\<close>: characters outside of the alphabet are skipped, the first complete padding ends the data.\<close>

definition b64_value :: "char \<Rightarrow> nat option" where
  "b64_value c =
     (let n = of_char c :: nat in
      if 65 \<le> n \<and> n \<le> 90 then Some (n - 65)
      else if 97 \<le> n \<and> n \<le> 122 then Some (n - 71)
      else if 48 \<le> n \<and> n \<le> 57 then Some (n + 4)
      else if c = CHR ''+'' \<or> c = CHR ''-'' then Some 62
      else if c = CHR ''/'' \<or> c = CHR ''_'' then Some 63
      else None)"

fun a2b_base64 :: "nat \<Rightarrow> nat \<Rightarrow> nat \<Rightarrow> string \<Rightarrow> string option" where
  "a2b_base64 quad_pos leftchar pads [] = (if quad_pos = 0 then Some [] else None)"
| "a2b_base64 quad_pos leftchar pads (c # cs) =
     (if c = CHR ''='' then
        if quad_pos \<ge> 2 then
          if quad_pos + Suc pads \<ge> 4 then Some [] else a2b_base64 quad_pos leftchar (Suc pads) cs
        else a2b_base64 quad_pos leftchar pads cs
      else case b64_value c of
        None \<Rightarrow> a2b_base64 quad_pos leftchar pads cs
      | Some v \<Rightarrow>
          if quad_pos = 0 then a2b_base64 1 v 0 cs
          else if quad_pos = 1 then map_option ((#) (char_of (leftchar * 4 + v div 16))) (a2b_base64 2 (v mod 16) 0 cs)
          else if quad_pos = 2 then map_option ((#) (char_of (leftchar * 16 + v div 4))) (a2b_base64 3 (v mod 4) 0 cs)
          else map_option ((#) (char_of (leftchar * 64 + v))) (a2b_base64 0 0 0 cs))"

definition urlsafe_b64decode :: "string \<Rightarrow> string option" where
  "urlsafe_b64decode s = a2b_base64 0 0 0 s"

definition b64_char :: "nat \<Rightarrow> char" where
  "b64_char v =
     (if v < 26 then char_of (65 + v) else if v < 52 then char_of (71 + v) else if v < 62 then char_of (v - 4)
      else if v = 62 then CHR ''-'' else CHR ''_'')"

fun b2a_base64 :: "nat list \<Rightarrow> string" where
  "b2a_base64 [] = []"
| "b2a_base64 [a] = [b64_char (a div 4), b64_char (a mod 4 * 16), CHR ''='', CHR ''='']"
| "b2a_base64 [a, b] = [b64_char (a div 4), b64_char (a mod 4 * 16 + b div 16), b64_char (b mod 16 * 4), CHR ''='']"
| "b2a_base64 (a # b # c # rest) =
     [b64_char (a div 4), b64_char (a mod 4 * 16 + b div 16), b64_char (b mod 16 * 4 + c div 64), b64_char (c mod 64)]
     @ b2a_base64 rest"

definition urlsafe_b64encode :: "string \<Rightarrow> string" where
  "urlsafe_b64encode s = b2a_base64 (map of_char s)"

lemma b64_value_char:
  assumes "v < 64"
  shows "b64_value (b64_char v) = Some v" "b64_char v \<noteq> CHR ''=''"
proof -
  have code: "(of_char (char_of n :: char) :: nat) = n" if "n < 256" for n :: nat using that by simp
  consider "v < 26" | "26 \<le> v" "v < 52" | "52 \<le> v" "v < 62" | "v = 62" | "v = 63" using assms by linarith
  then show val: "b64_value (b64_char v) = Some v" by cases (auto simp: b64_char_def b64_value_def code Let_def)
  have "b64_value (CHR ''='') = None" by (simp add: b64_value_def)
  with val show "b64_char v \<noteq> CHR ''=''" by force
qed

lemma a2b_b2a: "\<forall>n \<in> set ns. n < 256 \<Longrightarrow> a2b_base64 0 0 0 (b2a_base64 ns) = Some (map char_of ns)"
proof (induction ns rule: b2a_base64.induct)
  case (2 a)
  then have "a div 4 < 64" "a mod 4 * 16 < 64" by auto
  then show ?case by (simp add: b64_value_char)
next
  case (3 a b)
  then have "a div 4 < 64" "a mod 4 * 16 + b div 16 < 64" "b mod 16 * 4 < 64" by auto
  moreover have "(a mod 4 * 16 + b div 16) div 16 = a mod 4" "(a mod 4 * 16 + b div 16) mod 16 = b div 16" using 3 by auto
  ultimately show ?case by (simp add: b64_value_char)
next
  case (4 a b c rest)
  then have "a div 4 < 64" "a mod 4 * 16 + b div 16 < 64" "b mod 16 * 4 + c div 64 < 64" "c mod 64 < 64" by auto
  moreover have "(a mod 4 * 16 + b div 16) div 16 = a mod 4" "(a mod 4 * 16 + b div 16) mod 16 = b div 16"
    "(b mod 16 * 4 + c div 64) div 4 = b mod 16" "(b mod 16 * 4 + c div 64) mod 4 = c div 64" using 4 by auto
  ultimately show ?case using 4 by (simp add: b64_value_char)
qed simp

lemma b64_roundtrip: "urlsafe_b64decode (urlsafe_b64encode s) = Some s"
  unfolding urlsafe_b64decode_def urlsafe_b64encode_def by (subst a2b_b2a) (auto simp: comp_def)

lemma b64_ascii: "v < 64 \<Longrightarrow> (of_char (b64_char v) :: nat) < 128"
  by (auto simp: b64_char_def)

lemma b64_alphabet: "\<forall>n \<in> set ns. n < 256 \<Longrightarrow> \<forall>c \<in> set (b2a_base64 ns). (of_char c :: nat) < 128"
  by (induction ns rule: b2a_base64.induct) (auto intro!: b64_ascii)

subsection \<open>JSON text\<close>

text \<open>\<open>json.dumps\<close> of a dictionary from strings to strings: separators with a space, and escapes for everything outside of printable ASCII.\<close>

definition json_escape :: "char \<Rightarrow> string" where
  "json_escape c =
     (let n = of_char c :: nat in
      if n = 34 \<or> n = 92 then [CHR 0x5C, c]
      else if n = 10 then [CHR 0x5C, CHR ''n''] else if n = 13 then [CHR 0x5C, CHR ''r''] else if n = 9 then [CHR 0x5C, CHR ''t'']
      else if n = 8 then [CHR 0x5C, CHR ''b''] else if n = 12 then [CHR 0x5C, CHR ''f'']
      else if n < 32 \<or> n > 126 then [CHR 0x5C, CHR ''u''] @ hex_padded 4 n
      else [c])"

definition json_dumps_str :: "string \<Rightarrow> string" where
  "json_dumps_str s = [CHR 0x22] @ concat (map json_escape s) @ [CHR 0x22]"

fun join_with :: "string \<Rightarrow> string list \<Rightarrow> string" where
  "join_with sep [] = []"
| "join_with sep [x] = x"
| "join_with sep (x # xs) = x @ sep @ join_with sep xs"

definition json_dumps :: "(string \<times> string) list \<Rightarrow> string" where
  "json_dumps d = ''{'' @ join_with '', '' (map (\<lambda>(k, v). json_dumps_str k @ '': '' @ json_dumps_str v) d) @ ''}''"

record text_lib =
  lib_json_loads :: "string \<Rightarrow> json option"
  lib_fromisoformat :: "string \<Rightarrow> (datetime \<times> bool) option"

definition loads_dumps :: "text_lib \<Rightarrow> (string \<times> string) list \<Rightarrow> bool" where
  "loads_dumps lib d = (lib_json_loads lib (json_dumps d) = Some (JObj (map (\<lambda>(k, v). (k, JStr v)) d)))"

definition reads_isoformat :: "text_lib \<Rightarrow> datetime \<Rightarrow> bool" where
  "reads_isoformat lib t = (lib_fromisoformat lib (isoformat t) = Some (t, True))"

subsection \<open>UUIDs\<close>

text \<open>\<open>str.replace(p, "")\<close>\<close>

function remove_sub :: "string \<Rightarrow> string \<Rightarrow> string" where
  "remove_sub p [] = []"
| "remove_sub p (c # cs) =
     (if p \<noteq> [] \<and> startswith (c # cs) p then remove_sub p (drop (length p - 1) cs) else c # remove_sub p cs)"
  by pat_completeness auto
termination
  by (relation "measure (\<lambda>(p, s). length s)") auto

text \<open>\<open>int(s, 16)\<close>: white space around, a sign, a prefix \<open>0x\<close>, and underscores between digits.\<close>

definition hexit_of :: "char \<Rightarrow> int option" where
  "hexit_of c =
     (let n = of_char c :: nat in
      if 48 \<le> n \<and> n \<le> 57 then Some (int n - 48)
      else if 97 \<le> n \<and> n \<le> 102 then Some (int n - 87)
      else if 65 \<le> n \<and> n \<le> 70 then Some (int n - 55)
      else None)"

fun int16_digits :: "int \<Rightarrow> bool \<Rightarrow> string \<Rightarrow> int option" where
  "int16_digits acc after_digit [] = (if after_digit then Some acc else None)"
| "int16_digits acc after_digit (c # cs) =
     (case hexit_of c of
        Some d \<Rightarrow> int16_digits (acc * 16 + d) True cs
      | None \<Rightarrow> if c = CHR ''_'' \<and> after_digit then int16_digits acc False cs else None)"

definition hex_prefixed :: "string \<Rightarrow> int option" where
  "hex_prefixed s =
     (case s of
        CHR ''0'' # x # cs \<Rightarrow>
          if x = CHR ''x'' \<or> x = CHR ''X'' then int16_digits 0 False (case cs of [] \<Rightarrow> [] | u # rest \<Rightarrow> if u = CHR ''_'' then rest else cs)
          else int16_digits 0 False s
      | _ \<Rightarrow> int16_digits 0 False s)"

definition py_int16 :: "string \<Rightarrow> int option" where
  "py_int16 s =
     (case strip s of
        [] \<Rightarrow> None
      | c # cs \<Rightarrow>
          if c = CHR ''-'' then map_option uminus (hex_prefixed cs)
          else if c = CHR ''+'' then hex_prefixed cs
          else hex_prefixed (c # cs))"

definition uuid_of_text :: "string \<Rightarrow> uuid option" where
  "uuid_of_text s =
     (let hex = remove_sub ''-'' (strip_with (\<lambda>c. c \<in> {CHR ''{'', CHR ''}''}) (remove_sub ''uuid:'' (remove_sub ''urn:'' s))) in
      if length hex \<noteq> 32 then None
      else case py_int16 hex of
        None \<Rightarrow> None
      | Some n \<Rightarrow> if 0 \<le> n \<and> n < 2 ^ 128 then Some (nat n) else None)"

subsection \<open>Reading a UUID that was printed\<close>

definition of_digits :: "int list \<Rightarrow> int" where
  "of_digits ds = foldl (\<lambda>a d. a * 16 + d) 0 ds"

abbreviation hexits :: "int list \<Rightarrow> bool" where
  "hexits ds \<equiv> \<forall>d \<in> set ds. 0 \<le> d \<and> d < 16"

lemma hexit_of_char:
  assumes "0 \<le> d" "d < 16"
  shows "hexit_of (digit_char d) = Some d"
proof -
  have "\<forall>d \<in> set [0..15]. hexit_of (digit_char d) = Some d" by code_simp
  then show ?thesis using assms by simp
qed

lemma int16_digits_value:
  "hexits ds \<Longrightarrow> ds \<noteq> [] \<or> b \<Longrightarrow> int16_digits acc b (map digit_char ds) = Some (foldl (\<lambda>a d. a * 16 + d) acc ds)"
  by (induction ds arbitrary: acc b) (auto simp: hexit_of_char)

lemma show_num_digits:
  assumes "0 \<le> n"
  shows "\<exists>ds. show_num 16 n = map digit_char ds \<and> hexits ds \<and> ds \<noteq> [] \<and> of_digits ds = n"
  using assms
proof (induction "16 :: int" n rule: show_num.induct)
  case (1 n)
  show ?case
  proof (cases "n < 16")
    case True
    then show ?thesis using 1 by (intro exI [of _ "[n]"]) (simp add: show_num.simps of_digits_def)
  next
    case False
    have "0 \<le> n div 16" using 1 by simp
    with 1 False obtain ds where "show_num 16 (n div 16) = map digit_char ds" "hexits ds" "ds \<noteq> []" "of_digits ds = n div 16" by auto
    then show ?thesis
      using False by (intro exI [of _ "ds @ [n mod 16]"]) (auto simp: show_num.simps [of 16 n] of_digits_def)
  qed
qed

lemma show_num_length: "0 \<le> n \<Longrightarrow> n < 16 ^ Suc k \<Longrightarrow> length (show_num 16 n) \<le> Suc k"
proof (induction k arbitrary: n)
  case 0
  then show ?case by (simp add: show_num.simps)
next
  case (Suc k)
  then have "n div 16 < 16 ^ Suc k" by (simp add: div_less_iff_less_mult mult.commute)
  with Suc show ?case by (cases "n < 16") (simp_all add: show_num.simps [of 16 n])
qed

lemma foldl_zeros: "foldl (\<lambda>a d. a * 16 + d) (0 :: int) (replicate k 0) = 0"
  by (induction k) simp_all

lemma hex_padded_digits:
  assumes "u < 2 ^ 128"
  obtains ds where "hex_padded 32 u = map digit_char ds" "hexits ds" "length ds = 32" "of_digits ds = int u"
proof -
  obtain ds where ds: "show_num 16 (int u) = map digit_char ds" "hexits ds" "of_digits ds = int u" using show_num_digits [of "int u"] by auto
  have "int u < 16 ^ Suc 31" using assms by simp
  then have "length ds \<le> 32" using show_num_length [of "int u" 31] ds(1) by simp
  moreover have "CHR ''0'' = digit_char 0" by code_simp
  ultimately show thesis
    using ds by (intro that [of "replicate (32 - length ds) 0 @ ds"]) (auto simp: hex_padded_def of_digits_def foldl_zeros)
qed

lemma hexit_of_not:
  assumes "hexit_of c \<noteq> None"
  shows "c \<notin> {CHR ''u'', CHR ''{'', CHR ''}'', CHR ''-'', CHR ''+'', CHR ''x'', CHR ''X''}" "\<not> is_space c"
proof -
  show "c \<notin> {CHR ''u'', CHR ''{'', CHR ''}'', CHR ''-'', CHR ''+'', CHR ''x'', CHR ''X''}"
    using assms by (auto simp: hexit_of_def)
  show "\<not> is_space c" using assms by (auto simp: hexit_of_def is_space_def Let_def split: if_splits)
qed

lemma remove_sub_absent: "c \<notin> set s \<Longrightarrow> remove_sub (c # p) s = s"
  by (induction "c # p" s rule: remove_sub.induct) (auto simp: startswith_def)

lemma remove_dash: "remove_sub [c] s = filter (\<lambda>x. x \<noteq> c) s"
  by (induction "[c]" s rule: remove_sub.induct) (auto simp: startswith_def)

lemma strip_with_none: "\<forall>c \<in> set s. \<not> p c \<Longrightarrow> strip_with p s = s"
proof -
  have "\<forall>c \<in> set s. \<not> p c \<Longrightarrow> dropWhile p s = s" for s by (cases s) auto
  from this [of s] this [of "rev s"] show "\<forall>c \<in> set s. \<not> p c \<Longrightarrow> strip_with p s = s"
    by (simp add: strip_with_def lstrip_with_def rstrip_with_def)
qed

lemma str_uuid_dashes: "filter (\<lambda>x. x \<noteq> CHR ''-'') (str_uuid u) = filter (\<lambda>x. x \<noteq> CHR ''-'') (hex_padded 32 u)"
proof -
  have "take 8 s @ take 4 (drop 8 s) @ take 4 (drop 12 s) @ take 4 (drop 16 s) @ drop 20 s = s" for s :: string
  proof -
    have d: "take k (drop n s) @ drop (k + n) s = drop n s" for k n by (metis append_take_drop_id drop_drop)
    show ?thesis using d [of 4 16] d [of 4 12] d [of 4 8] by simp
  qed
  from arg_cong [OF this, of "filter (\<lambda>x. x \<noteq> CHR ''-'')" "hex_padded 32 u"] show ?thesis by (simp add: str_uuid_def Let_def)
qed

lemma str_uuid_chars: "set (str_uuid u) \<subseteq> insert (CHR ''-'') (set (hex_padded 32 u))"
  by (auto simp: str_uuid_def Let_def dest: in_set_takeD in_set_dropD)

theorem uuid_roundtrip:
  assumes "u < 2 ^ 128"
  shows "uuid_of_text (str_uuid u) = Some u"
proof -
  obtain ds where ds: "hex_padded 32 u = map digit_char ds" "hexits ds" "length ds = 32" "of_digits ds = int u"
    by (rule hex_padded_digits [OF assms])
  let ?h = "map digit_char ds"
  have hex: "hexit_of c \<noteq> None" if "c \<in> set ?h" for c using that ds(2) by (auto simp: hexit_of_char)
  have chars: "c = CHR ''-'' \<or> hexit_of c \<noteq> None" if "c \<in> set (str_uuid u)" for c using that str_uuid_chars [of u] hex ds(1) by auto
  have "CHR ''u'' \<notin> set (str_uuid u)" using chars hexit_of_not(1) by fastforce
  then have "remove_sub ''uuid:'' (remove_sub ''urn:'' (str_uuid u)) = str_uuid u" by (simp add: remove_sub_absent)
  moreover have "strip_with (\<lambda>c. c \<in> {CHR ''{'', CHR ''}''}) (str_uuid u) = str_uuid u"
    by (rule strip_with_none) (use chars hexit_of_not(1) in fastforce)
  moreover have "filter (\<lambda>x. x \<noteq> CHR ''-'') ?h = ?h" by (rule filter_True) (use hex hexit_of_not(1) in fastforce)
  ultimately have h: "remove_sub ''-'' (strip_with (\<lambda>c. c \<in> {CHR ''{'', CHR ''}''}) (remove_sub ''uuid:'' (remove_sub ''urn:'' (str_uuid u)))) = ?h"
    by (simp add: remove_dash str_uuid_dashes ds(1))
  have "strip ?h = ?h" unfolding strip_def by (rule strip_with_none) (use hex hexit_of_not(2) in blast)
  moreover obtain c x cs where c: "?h = c # x # cs" using ds(3) by (cases ?h; cases "tl ?h") auto
  moreover have "c \<notin> {CHR ''-'', CHR ''+''}" "x \<notin> {CHR ''x'', CHR ''X''}" using hex [of c] hex [of x] hexit_of_not(1) c by fastforce+
  ultimately have "py_int16 ?h = int16_digits 0 False ?h"
    by (auto simp: py_int16_def hex_prefixed_def split: list.splits char.splits bool.splits)
  also have "\<dots> = Some (int u)" using int16_digits_value [OF ds(2), of False 0] ds(3,4) by (cases ds) (auto simp: of_digits_def)
  finally show ?thesis using assms ds(3) unfolding uuid_of_text_def Let_def h by simp
qed

end
