(* ===== verification/Sample_Items.thy ===== *)
theory Sample_Items
  imports Invariants Text_Codec
begin

text \<open>
  \<open>SampleItemRepository\<close> (\<^verbatim>\<open>app/services/sample_item_repository.py\<close>) and \<open>SampleItemUsecase\<close>
  (\<^verbatim>\<open>app/usecases/sample_item_usecase.py\<close>): the resource of the template, owned by a user and listed
  page by page with a cursor, an opaque string (URL-safe base64 of a JSON object).

  Items are written by their owner only; a page holds the next items in the order of
  registration, newest first; following the cursors lists every item exactly once.
\<close>

record sample_item_cursor =
  cu_registered_at :: datetime
  cu_id :: uuid

record sample_item_update_changes =
  sc_title :: "string option"
  sc_description :: "string option"
  sc_is_completed :: "bool option"
  sc_fields_set :: "string set"

subsection \<open>Repository\<close>

definition before_cursor :: "sample_item_cursor option \<Rightarrow> sample_item \<Rightarrow> bool" where
  "before_cursor cursor m =
     (case cursor of
        None \<Rightarrow> True
      | Some c \<Rightarrow> m_registered_at m < trunc_ms (cu_registered_at c) \<or>
                  (m_registered_at m = trunc_ms (cu_registered_at c) \<and> m_id m < cu_id c))"

definition items_newest_first :: "sample_item list \<Rightarrow> sample_item list" where
  "items_newest_first ms = rev (sort_key (\<lambda>m. (m_registered_at m, m_id m)) ms)"

definition list_by_owner :: "uuid \<Rightarrow> nat \<Rightarrow> sample_item_cursor option \<Rightarrow> ('l, 'c, sample_item list) prog" where
  "list_by_owner owner_user_id fetch_limit cursor =
     session_scope (query (\<lambda>d.
       take fetch_limit (items_newest_first
         (filter (\<lambda>m. m_owner_user_id m = owner_user_id \<and> before_cursor cursor m) (sample_items d)))))"

definition get_by_id_for_owner :: "uuid \<Rightarrow> uuid \<Rightarrow> ('l, 'c, sample_item option) prog" where
  "get_by_id_for_owner item_id owner_user_id =
     session_scope (query_one (\<lambda>d.
       filter (\<lambda>m. m_id m = item_id \<and> m_owner_user_id m = owner_user_id) (sample_items d)))"

text \<open>
  The two instants are defaults of their columns. The object is not refreshed, so the result
  carries them unrounded.
\<close>

definition create_item_row :: "sample_item \<Rightarrow> ('l, 'c, sample_item) prog" where
  "create_item_row item =
     session_scope (
       bind utcnow (\<lambda>registered_at. bind utcnow (\<lambda>modified_at.
       seq (insert_sample_item (item\<lparr>m_registered_at := trunc_ms registered_at, m_modified_at := trunc_ms modified_at\<rparr>))
         (ok (item\<lparr>m_registered_at := registered_at, m_modified_at := modified_at\<rparr>)))))"

definition update_item_row :: "sample_item \<Rightarrow> ('l, 'c, sample_item) prog" where
  "update_item_row item =
     session_scope (
       bind utcnow (\<lambda>now.
       bind (query (\<lambda>d. List.find (\<lambda>m. m_id m = m_id item) (sample_items d))) (\<lambda>found. case found of
         None \<Rightarrow> raise StaleDataError
       | Some _ \<Rightarrow>
           seq (modify_db (\<lambda>d. d\<lparr>sample_items := update_rows (\<lambda>m. m_id m = m_id item)
                  (\<lambda>m. m\<lparr>m_title := m_title item, m_description := m_description item,
                        m_is_completed := m_is_completed item, m_modified_at := trunc_ms now\<rparr>) (sample_items d)\<rparr>))
             (ok (item\<lparr>m_modified_at := now\<rparr>)))))"

definition delete_item_row :: "sample_item \<Rightarrow> ('l, 'c, unit) prog" where
  "delete_item_row item =
     session_scope (modify_db (\<lambda>d. d\<lparr>sample_items := filter (\<lambda>m. m_id m \<noteq> m_id item) (sample_items d)\<rparr>))"

definition delete_all_for_owner :: "uuid \<Rightarrow> ('l, 'c, unit) prog" where
  "delete_all_for_owner owner_user_id =
     session_scope (modify_db (\<lambda>d. d\<lparr>sample_items :=
       filter (\<lambda>m. m_owner_user_id m \<noteq> owner_user_id) (sample_items d)\<rparr>))"

subsection \<open>Use case\<close>

definition cursor_of_item :: "sample_item \<Rightarrow> sample_item_cursor" where
  "cursor_of_item m = \<lparr>cu_registered_at = m_registered_at m, cu_id = m_id m\<rparr>"

definition cursor_payload :: "sample_item \<Rightarrow> (string \<times> string) list" where
  "cursor_payload item = [(''created_at'', isoformat (m_registered_at item)), (''id'', str_uuid (m_id item))]"

definition encode_cursor :: "sample_item \<Rightarrow> string" where
  "encode_cursor item = urlsafe_b64encode (json_dumps (cursor_payload item))"

text \<open>
  \<open>UUID(None)\<close> raises a \<open>TypeError\<close>, which is caught; \<open>UUID\<close> of any other value that is not a string asks
  for its method \<open>replace\<close>, and the \<open>AttributeError\<close> is not caught.
\<close>

definition decode_cursor :: "text_lib \<Rightarrow> string \<Rightarrow> exn + sample_item_cursor" where
  "decode_cursor lib cursor =
     (let invalid = Inl InvalidSampleItemCursorError in
      if \<not> list_all (\<lambda>c. (of_char c :: nat) < 128) cursor then invalid
      else case Option.bind (urlsafe_b64decode cursor) (lib_json_loads lib) of
        Some (JObj payload) \<Rightarrow>
          (case map_of payload ''created_at'' of
             Some (JStr created_at) \<Rightarrow>
               (case lib_fromisoformat lib created_at of
                  Some (registered_at, aware) \<Rightarrow>
                    if \<not> aware then invalid
                    else (case map_of payload ''id'' of
                       None \<Rightarrow> invalid
                     | Some JNull \<Rightarrow> invalid
                     | Some (JStr i) \<Rightarrow>
                         (case uuid_of_text i of
                            None \<Rightarrow> invalid
                          | Some u \<Rightarrow> Inr \<lparr>cu_registered_at = registered_at, cu_id = u\<rparr>)
                     | Some _ \<Rightarrow> Inl AttributeError)
                | None \<Rightarrow> invalid)
           | _ \<Rightarrow> invalid)
      | _ \<Rightarrow> invalid)"

definition next_cursor_for_items :: "sample_item list \<Rightarrow> nat \<Rightarrow> string option" where
  "next_cursor_for_items items limit =
     (if length items \<le> limit then None else Some (encode_cursor (items ! (limit - 1))))"

definition list_items ::
    "text_lib \<Rightarrow> uuid \<Rightarrow> nat \<Rightarrow> string option \<Rightarrow> ('l, 'c, sample_item list \<times> string option) prog" where
  "list_items lib owner_user_id limit cursor =
     bind (case cursor of
             None \<Rightarrow> ok None
           | Some c \<Rightarrow> if c = [] then ok None
                       else lift (map_sum id Some (decode_cursor lib c)))
       (\<lambda>decoded_cursor.
     bind (list_by_owner owner_user_id (limit + 1) decoded_cursor) (\<lambda>items.
     ok (take limit items, next_cursor_for_items items limit)))"

definition create_item :: "uuid \<Rightarrow> string \<Rightarrow> string option \<Rightarrow> ('l, 'c, sample_item) prog" where
  "create_item owner_user_id title description =
     bind uuid4 (\<lambda>i.
     create_item_row \<lparr>m_id = i, m_owner_user_id = owner_user_id, m_title = title, m_description = description,
       m_is_completed = False, m_registered_at = 0, m_modified_at = 0\<rparr>)"

definition get_item :: "uuid \<Rightarrow> uuid \<Rightarrow> ('l, 'c, sample_item) prog" where
  "get_item owner_user_id item_id =
     bind (get_by_id_for_owner item_id owner_user_id) (\<lambda>item. case item of
       None \<Rightarrow> raise SampleItemNotFoundError | Some m \<Rightarrow> ok m)"

definition apply_item_changes :: "sample_item_update_changes \<Rightarrow> sample_item \<Rightarrow> exn + sample_item" where
  "apply_item_changes changes item =
     sum_bind
       (if ''title'' \<in> sc_fields_set changes then
          (case sc_title changes of
             None \<Rightarrow> Inl (ValueError ''title cannot be None when included in fields_set'')
           | Some t \<Rightarrow> Inr (item\<lparr>m_title := t\<rparr>))
        else Inr item) (\<lambda>item1.
     let item2 = (if ''description'' \<in> sc_fields_set changes
                  then item1\<lparr>m_description := sc_description changes\<rparr> else item1) in
     if ''is_completed'' \<in> sc_fields_set changes then
       (case sc_is_completed changes of
          None \<Rightarrow> Inl (ValueError ''is_completed cannot be None when included in fields_set'')
        | Some b \<Rightarrow> Inr (item2\<lparr>m_is_completed := b\<rparr>))
     else Inr item2)"

definition update_item :: "uuid \<Rightarrow> uuid \<Rightarrow> sample_item_update_changes \<Rightarrow> ('l, 'c, sample_item) prog" where
  "update_item owner_user_id item_id changes =
     (if sc_fields_set changes = {} then get_item owner_user_id item_id
      else transaction (
        bind (get_item owner_user_id item_id) (\<lambda>item.
        bind (lift (apply_item_changes changes item)) update_item_row)))"

definition delete_item :: "uuid \<Rightarrow> uuid \<Rightarrow> ('l, 'c, unit) prog" where
  "delete_item owner_user_id item_id =
     transaction (bind (get_item owner_user_id item_id) delete_item_row)"

subsection \<open>The invariant is kept\<close>

lemma app_inv_filter_items:
  assumes "app_inv S X d"
  shows "app_inv S X (d\<lparr>sample_items := filter P (sample_items d)\<rparr>)"
  using assms
  by (intro app_inv_sample_items) (auto simp: app_inv_def db_ok_def sample_items_ok_def distinct_map_filter)

lemma app_inv_update_items:
  assumes "app_inv S X d" "\<And>m. m_id (g m) = m_id m" "\<And>m. m_owner_user_id (g m) = m_owner_user_id m"
  shows "app_inv S X (d\<lparr>sample_items := update_rows P g (sample_items d)\<rparr>)"
  using assms
  by (intro app_inv_sample_items) (auto simp: app_inv_def db_ok_def sample_items_ok_def)

lemma keeps_item_queries [keeps_intros]:
  "keeps (winv P L) (list_by_owner uid n c)" "keeps (winv P L) (get_by_id_for_owner i uid)"
  "keeps (winv P L) (get_item uid i)"
  unfolding get_item_def list_by_owner_def get_by_id_for_owner_def by (intro keeps_intros)+

lemma keeps_item_rows [keeps_intros]:
  "keeps (winv (app_inv S X) L) (create_item_row m)" "keeps (winv (app_inv S X) L) (update_item_row m)"
  "keeps (winv (app_inv S X) L) (delete_item_row m)" "keeps (winv (app_inv S X) L) (delete_all_for_owner uid)"
  unfolding create_item_row_def update_item_row_def delete_item_row_def delete_all_for_owner_def
  by (intro keeps_intros keeps_modify_db app_inv_filter_items app_inv_update_items; simp)+

lemma keeps_item_operations [keeps_intros]:
  "keeps (winv (app_inv S X) L) (create_item uid title desc)"
  "keeps (winv (app_inv S X) L) (update_item uid i ch)"
  "keeps (winv (app_inv S X) L) (delete_item uid i)"
  "keeps (winv (app_inv S X) L) (list_items lib uid n c)"
  unfolding create_item_def update_item_def delete_item_def list_items_def by (intro keeps_intros)+

subsection \<open>Ownership\<close>

definition items_of :: "database \<Rightarrow> uuid \<Rightarrow> sample_item list" where
  "items_of d uid = filter (\<lambda>m. m_owner_user_id m = uid) (sample_items d)"

lemma wp_get_item:
  assumes "db_ok (w_db s)"
  shows "wp (get_item uid i) Q E s \<longleftrightarrow>
    (if \<exists>m \<in> set (sample_items (w_db s)). m_id m = i \<and> m_owner_user_id m = uid
     then \<exists>m \<in> set (sample_items (w_db s)). m_id m = i \<and> m_owner_user_id m = uid \<and> Q m s
     else E SampleItemNotFoundError s)"
proof -
  have d: "distinct (map m_id (sample_items (w_db s)))" by (rule db_ok_distinct(9) [OF assms])
  show ?thesis
    unfolding get_item_def get_by_id_for_owner_def wp_bind
    by (subst wp_scoped_query_unique [where rows = sample_items and f = m_id and k = i]) (auto simp: d wp_simps)
qed

lemma items_of_update_other:
  assumes "distinct (map m_id (sample_items d))" "m \<in> set (sample_items d)" "m_owner_user_id m = uid" "v \<noteq> uid"
    and "\<And>x. m_owner_user_id (g x) = m_owner_user_id x"
  shows "items_of (d\<lparr>sample_items := update_rows (\<lambda>x. m_id x = m_id m) g (sample_items d)\<rparr>) v = items_of d v"
proof -
  have "(if m_id x = m_id m then g x else x) = x" if "x \<in> set (sample_items d)" "m_owner_user_id x = v" for x
  proof -
    from that assms have "x \<noteq> m" by auto
    with that(1) assms(1,2) show ?thesis by (auto simp: distinct_map dest: inj_onD)
  qed
  then have "filter (\<lambda>x. m_owner_user_id x = v) (update_rows (\<lambda>x. m_id x = m_id m) g xs) =
      filter (\<lambda>x. m_owner_user_id x = v) xs" if "set xs \<subseteq> set (sample_items d)" for xs
    using that by (induction xs) (auto simp: update_rows_def assms(5))
  then show ?thesis by (simp add: items_of_def)
qed

lemma items_of_delete_other:
  assumes "distinct (map m_id (sample_items d))" "m \<in> set (sample_items d)" "m_owner_user_id m = uid" "v \<noteq> uid"
  shows "items_of (d\<lparr>sample_items := filter (\<lambda>x. m_id x \<noteq> m_id m) (sample_items d)\<rparr>) v = items_of d v"
proof -
  have "m_id x \<noteq> m_id m" if "x \<in> set (sample_items d)" "m_owner_user_id x = v" for x
    using that assms by (metis distinct_map inj_onD)
  then show ?thesis
    unfolding items_of_def by (auto simp: filter_filter intro!: filter_cong)
qed

lemma apply_item_changes_keys:
  "apply_item_changes ch m = Inr m' \<Longrightarrow> m_id m' = m_id m \<and> m_owner_user_id m' = m_owner_user_id m"
  by (auto simp: apply_item_changes_def sum_bind_Inr Let_def split: if_splits option.splits)

lemma update_item_others:
  assumes ok: "db_ok (w_db s)" and tx: "\<not> w_in_tx s" and v: "v \<noteq> uid"
  shows "wp (update_item uid i ch) (\<lambda>_ t. items_of (w_db t) v = items_of (w_db s) v)
           (\<lambda>_ t. items_of (w_db t) v = items_of (w_db s) v) s"
proof (cases "sc_fields_set ch = {}")
  case True
  then show ?thesis by (auto simp: update_item_def wp_get_item [OF ok])
next
  case False
  have "db_ok (w_db (s\<lparr>w_in_tx := True\<rparr>))" using ok by simp
  from wp_get_item [OF this] False tx show ?thesis
    by (auto simp: update_item_def wp_transaction wp_simps update_item_row_def wp_session_scope
        items_of_update_other [OF db_ok_distinct(9) [OF ok] _ _ v] dest!: apply_item_changes_keys
        split: sum.splits option.splits)
qed

lemma delete_item_others:
  assumes ok: "db_ok (w_db s)" and tx: "\<not> w_in_tx s" and v: "v \<noteq> uid"
  shows "wp (delete_item uid i) (\<lambda>_ t. items_of (w_db t) v = items_of (w_db s) v)
           (\<lambda>_ t. items_of (w_db t) v = items_of (w_db s) v) s"
proof -
  have "db_ok (w_db (s\<lparr>w_in_tx := True\<rparr>))" using ok by simp
  from wp_get_item [OF this] tx show ?thesis
    by (auto simp: delete_item_def wp_transaction wp_simps delete_item_row_def wp_session_scope
        items_of_delete_other [OF db_ok_distinct(9) [OF ok] _ _ v])
qed

lemma item_not_found:
  assumes ok: "db_ok (w_db s)" and tx: "\<not> w_in_tx s" and none: "i \<notin> m_id ` set (items_of (w_db s) uid)"
  shows "wp (update_item uid i ch) (\<lambda>_ _. False) (\<lambda>e t. e = SampleItemNotFoundError \<and> w_db t = w_db s) s"
    and "wp (delete_item uid i) (\<lambda>_ _. False) (\<lambda>e t. e = SampleItemNotFoundError \<and> w_db t = w_db s) s"
proof -
  have n: "\<not> (\<exists>m \<in> set (sample_items (w_db s)). m_id m = i \<and> m_owner_user_id m = uid)"
    using none by (auto simp: items_of_def)
  have "db_ok (w_db (s\<lparr>w_in_tx := True\<rparr>))" using ok by simp
  note g = wp_get_item [OF this] wp_get_item [OF ok]
  show "wp (update_item uid i ch) (\<lambda>_ _. False) (\<lambda>e t. e = SampleItemNotFoundError \<and> w_db t = w_db s) s"
    using n tx by (auto simp: update_item_def wp_transaction wp_simps g)
  show "wp (delete_item uid i) (\<lambda>_ _. False) (\<lambda>e t. e = SampleItemNotFoundError \<and> w_db t = w_db s) s"
    using n tx by (auto simp: delete_item_def wp_transaction wp_simps g)
qed

text \<open>
  Nobody touches another user's items. Updating and deleting an item through its owner
  \<open>uid\<close> leaves the items of every other user as they are, and an identifier that does not name an
  item of \<open>uid\<close> is answered with \<open>SampleItemNotFoundError\<close> and no change of the database.
\<close>

theorem items_of_others_untouched:
  assumes "db_ok (w_db s)" and "\<not> w_in_tx s"
  shows "(v \<noteq> uid \<longrightarrow>
            items_of (w_db (snd (update_item uid i ch s))) v = items_of (w_db s) v \<and>
            items_of (w_db (snd (delete_item uid i s))) v = items_of (w_db s) v)
    \<and> (i \<notin> m_id ` set (items_of (w_db s) uid) \<longrightarrow>
         fst (update_item uid i ch s) = Inl SampleItemNotFoundError \<and> w_db (snd (update_item uid i ch s)) = w_db s \<and>
         fst (delete_item uid i s) = Inl SampleItemNotFoundError \<and> w_db (snd (delete_item uid i s)) = w_db s)"
  using update_item_others [OF assms, of v uid i ch] delete_item_others [OF assms, of v uid i]
    item_not_found(1) [OF assms, of i uid ch] item_not_found(2) [OF assms, of i uid]
  by (auto simp: wp_same dest!: wp_raisesD)

definition demo_item :: "uuid \<Rightarrow> uuid \<Rightarrow> sample_item" where
  "demo_item i uid = \<lparr>m_id = i, m_owner_user_id = uid, m_title = ''t'', m_description = None,
     m_is_completed = False, m_registered_at = 1000 * int i, m_modified_at = 1000 * int i\<rparr>"

definition demo_items_world :: "(unit, unit) world" where
  "demo_items_world = (demo_world () ())\<lparr>w_db := demo_database\<lparr>sample_items :=
     [demo_item 7 1, demo_item 9 1, demo_item 8 2, demo_item 11 1]\<rparr>\<rparr>"

lemma demo_items_ok: "db_ok (w_db demo_items_world)"
  unfolding db_ok_def by code_simp

lemma items_of_others_untouched_witness:
  "items_of (w_db (snd (delete_item 1 7 demo_items_world))) 2 = items_of (w_db demo_items_world) 2
   \<and> fst (delete_item 1 8 demo_items_world) = Inl SampleItemNotFoundError"
proof -
  have tx: "\<not> w_in_tx demo_items_world" by (simp add: demo_items_world_def demo_world_def)
  have "8 \<notin> m_id ` set (items_of (w_db demo_items_world) 1)" by code_simp
  with items_of_others_untouched [OF demo_items_ok tx, of 2 1 7] items_of_others_untouched [OF demo_items_ok tx, of 1 1 8]
  show ?thesis by simp
qed

subsection \<open>Following the cursors\<close>

text \<open>What a client collects that follows the cursors, with at most \<open>fuel\<close> requests.\<close>

fun all_pages ::
    "text_lib \<Rightarrow> uuid \<Rightarrow> nat \<Rightarrow> nat \<Rightarrow> string option \<Rightarrow> ('l, 'c) world
      \<Rightarrow> sample_item list option" where
  "all_pages lib uid limit 0 cursor s = None"
| "all_pages lib uid limit (Suc fuel) cursor s =
     (case list_items lib uid limit cursor s of
        (Inl e, s') \<Rightarrow> None
      | (Inr (items, None), s') \<Rightarrow> Some items
      | (Inr (items, Some c), s') \<Rightarrow>
          map_option (\<lambda>rest. items @ rest) (all_pages lib uid limit fuel (Some c) s'))"

lemma filter_below_sorted:
  assumes "sorted_wrt (\<lambda>a b. f b < f a) xs" "k < length xs"
  shows "filter (\<lambda>x. f x < (f (xs ! k) :: 'k :: linorder)) xs = drop (Suc k) xs"
  using assms
proof (induction xs arbitrary: k)
  case (Cons x xs)
  show ?case
  proof (cases k)
    case 0
    with Cons.prems have "\<forall>y \<in> set xs. f y < f x" by simp
    then have "filter (\<lambda>y. f y < f x) xs = xs" by simp
    with 0 show ?thesis by simp
  next
    case (Suc n)
    with Cons.prems have n: "n < length xs" "sorted_wrt (\<lambda>a b. f b < f a) xs" "f (xs ! n) < f x" by simp_all
    from n(3) have "\<not> f x < f (xs ! n)" by (rule less_not_sym)
    with Cons.IH [OF n(2,1)] Suc show ?thesis by simp
  qed
qed simp

definition item_key :: "sample_item \<Rightarrow> datetime \<times> uuid" where
  "item_key m = (m_registered_at m, m_id m)"

lemma items_newest_first_filter:
  "items_newest_first (filter P ms) = filter P (items_newest_first ms)"
  by (simp add: items_newest_first_def filter_sort [symmetric] rev_filter)

lemma items_newest_first_sorted:
  assumes "distinct (map m_id ms)"
  shows "sorted_wrt (\<lambda>a b. item_key b < item_key a) (items_newest_first ms)"
proof -
  have d: "distinct (map item_key (sort_key item_key ms))"
    using assms by (auto simp: distinct_map item_key_def inj_on_def)
  then have "sorted_wrt (<) (map item_key (sort_key item_key ms))"
    by (simp add: strict_sorted_iff)
  then have "sorted_wrt (\<lambda>a b. item_key a < item_key b) (sort_key item_key ms)"
    by (simp add: sorted_wrt_map)
  moreover have "items_newest_first ms = rev (sort_key item_key ms)"
    by (simp add: items_newest_first_def item_key_def [abs_def])
  ultimately show ?thesis by (simp add: sorted_wrt_rev)
qed

lemma before_cursor_key:
  "trunc_ms (m_registered_at x) = m_registered_at x \<Longrightarrow>
     before_cursor (Some (cursor_of_item x)) m \<longleftrightarrow> item_key m < item_key x"
  by (auto simp: before_cursor_def cursor_of_item_def item_key_def)

lemma list_items_run:
  assumes c: "(case cursor of None \<Rightarrow> position = None | Some c \<Rightarrow> c \<noteq> [] \<and> map_sum id Some (decode_cursor lib c) = Inr position)"
    and rest: "filter (before_cursor position) (items_newest_first (items_of (w_db s) uid)) = rest"
  shows "list_items lib uid limit cursor s =
    (Inr (take limit rest, next_cursor_for_items (take (limit + 1) rest) limit), s)"
proof -
  have f: "filter (\<lambda>m. m_owner_user_id m = uid \<and> before_cursor position m) (sample_items (w_db s)) =
      filter (before_cursor position) (items_of (w_db s) uid)"
    by (simp add: items_of_def conj_commute)
  have g: "items_newest_first (filter (\<lambda>m. m_owner_user_id m = uid \<and> before_cursor position m)
      (sample_items (w_db s))) = rest"
    by (simp only: f items_newest_first_filter rest)
  have "list_by_owner uid (limit + 1) position s = (Inr (take (limit + 1) rest), s)"
    unfolding list_by_owner_def session_scope_def query_def gets_def g by simp
  then show ?thesis using c
    by (auto simp: list_items_def bind_def ok_def lift_def min_def split: option.splits)
qed

lemma all_pages_from:
  fixes s :: "('l, 'c) world" and uid :: uuid
  defines "xs \<equiv> items_newest_first (items_of (w_db s) uid)"
  assumes sorted: "sorted_wrt (\<lambda>a b. item_key b < item_key a) xs"
    and codec: "\<And>m. m \<in> set xs \<Longrightarrow> decode_cursor lib (encode_cursor m) = Inr (cursor_of_item m) \<and> encode_cursor m \<noteq> []"
    and rounded: "\<And>m. m \<in> set xs \<Longrightarrow> trunc_ms (m_registered_at m) = m_registered_at m"
    and limit: "1 \<le> limit"
    and pos: "filter (before_cursor position) xs = drop n xs"
    and cur: "(case cursor of None \<Rightarrow> position = None | Some c \<Rightarrow> c \<noteq> [] \<and> map_sum id Some (decode_cursor lib c) = Inr position)"
    and fuel: "length xs - n < fuel"
  shows "all_pages lib uid limit fuel cursor s = Some (drop n xs)"
  using pos cur fuel
proof (induction fuel arbitrary: cursor position n)
  case (Suc fuel)
  note run = list_items_run [where s = s, OF Suc.prems(2) Suc.prems(1) [unfolded xs_def], folded xs_def]
  show ?case
  proof (cases "length (drop n xs) \<le> limit")
    case True
    then show ?thesis by (simp add: run next_cursor_for_items_def)
  next
    case False
    let ?k = "n + (limit - 1)"
    have k: "?k < length xs" using False limit by simp
    let ?m = "xs ! ?k"
    have m: "?m \<in> set xs" using k by simp
    have nth: "take (limit + 1) (drop n xs) ! (limit - 1) = ?m" using False limit by simp
    have "filter (before_cursor (Some (cursor_of_item ?m))) xs = filter (\<lambda>x. item_key x < item_key ?m) xs"
      by (intro filter_cong refl before_cursor_key rounded m)
    also have "\<dots> = drop (Suc ?k) xs" by (rule filter_below_sorted [OF sorted k])
    also have "\<dots> = drop (n + limit) xs" using limit by simp
    finally have pos': "filter (before_cursor (Some (cursor_of_item ?m))) xs = drop (n + limit) xs" .
    have "all_pages lib uid limit fuel (Some (encode_cursor ?m)) s = Some (drop (n + limit) xs)"
      by (rule Suc.IH [OF pos']) (use codec [OF m] Suc.prems(3) limit False in auto)
    moreover have "take limit (drop n xs) @ drop (n + limit) xs = drop n xs"
      by (metis add.commute append_take_drop_id drop_drop)
    moreover have "next_cursor_for_items (take (limit + 1) (drop n xs)) limit = Some (encode_cursor ?m)"
      using False unfolding next_cursor_for_items_def nth by simp
    ultimately show ?thesis by (simp add: run)
  qed
qed simp

lemma cursor_roundtrip:
  assumes "loads_dumps lib (cursor_payload m)" "reads_isoformat lib (m_registered_at m)" "m_id m < 2 ^ 128"
  shows "decode_cursor lib (encode_cursor m) = Inr (cursor_of_item m) \<and> encode_cursor m \<noteq> []"
proof -
  have "list_all (\<lambda>c. (of_char c :: nat) < 128) (encode_cursor m)"
    using b64_alphabet [of "map of_char (json_dumps (cursor_payload m))"] by (simp add: encode_cursor_def urlsafe_b64encode_def list_all_iff)
  moreover have "urlsafe_b64decode (encode_cursor m) = Some (json_dumps (cursor_payload m))" by (simp add: encode_cursor_def b64_roundtrip)
  moreover have "encode_cursor m \<noteq> []"
  proof
    assume "encode_cursor m = []"
    with calculation(2) have "json_dumps (cursor_payload m) = []" by (simp add: urlsafe_b64decode_def)
    then show False by (simp add: json_dumps_def)
  qed
  ultimately show ?thesis
    using assms by (simp add: decode_cursor_def loads_dumps_def reads_isoformat_def cursor_payload_def uuid_roundtrip cursor_of_item_def)
qed

text \<open>
  C33: Following the cursors lists everything once. With a page size of at least one, a client that follows the
  cursors from the first page collects exactly the items of the owner, newest first, and stops
  after at most one request more than there are items. What this asks of the standard library is that JSON and ISO 8601
  texts that were printed for these items are read back.
\<close>

theorem cursor_pages_complete:
  fixes s :: "('l, 'c) world"
  assumes ok: "db_ok (w_db s)" and limit: "1 \<le> limit"
    and stored: "\<forall>m \<in> set (sample_items (w_db s)). trunc_ms (m_registered_at m) = m_registered_at m \<and> m_id m < 2 ^ 128"
    and library: "\<forall>m \<in> set (sample_items (w_db s)). loads_dumps lib (cursor_payload m) \<and> reads_isoformat lib (m_registered_at m)"
  shows "all_pages lib uid limit (Suc (length (items_of (w_db s) uid))) None s =
         Some (items_newest_first (items_of (w_db s) uid))"
proof -
  let ?xs = "items_newest_first (items_of (w_db s) uid)"
  have set_xs: "set ?xs \<subseteq> set (sample_items (w_db s))" by (auto simp: items_newest_first_def items_of_def)
  have "distinct (map m_id (items_of (w_db s) uid))"
    unfolding items_of_def by (rule distinct_map_filter) (rule db_ok_distinct(9) [OF ok])
  then have sorted: "sorted_wrt (\<lambda>a b. item_key b < item_key a) ?xs" by (rule items_newest_first_sorted)
  have len: "length ?xs = length (items_of (w_db s) uid)" by (simp add: items_newest_first_def)
  have pos: "filter (before_cursor None) ?xs = drop 0 ?xs" by (simp add: before_cursor_def)
  have codec: "decode_cursor lib (encode_cursor m) = Inr (cursor_of_item m) \<and> encode_cursor m \<noteq> []" if "m \<in> set ?xs" for m
    using that set_xs stored library by (intro cursor_roundtrip) auto
  have "all_pages lib uid limit (Suc (length (items_of (w_db s) uid))) None s = Some (drop 0 ?xs)"
    by (rule all_pages_from [OF sorted codec _ limit pos]) (use stored set_xs len in auto)
  then show ?thesis by simp
qed

text \<open>A library that reads back what is printed for the given items.\<close>

definition demo_lib :: "sample_item list \<Rightarrow> text_lib" where
  "demo_lib items = \<lparr>
     lib_json_loads = map_of (map (\<lambda>m. (json_dumps (cursor_payload m), JObj (map (\<lambda>(k, v). (k, JStr v)) (cursor_payload m)))) items),
     lib_fromisoformat = map_of (map (\<lambda>m. (isoformat (m_registered_at m), (m_registered_at m, True))) items)\<rparr>"

definition demo_paging :: "(unit, unit) world" where
  "demo_paging = (demo_world () ())\<lparr>w_db := demo_database\<lparr>sample_items := [demo_item 7 1, demo_item 9 1]\<rparr>\<rparr>"

lemma demo_payloads:
  "json_dumps (cursor_payload (demo_item 7 1)) \<noteq> json_dumps (cursor_payload (demo_item 9 1))" "isoformat 7000 \<noteq> isoformat 9000"
proof -
  have iso: "isoformat 7000 = ''1970-01-01T00:00:00.007000+00:00''" "isoformat 9000 = ''1970-01-01T00:00:00.009000+00:00''" by code_simp+
  then show "isoformat 7000 \<noteq> isoformat 9000" by simp
  have "cursor_payload (demo_item 7 1) = [(''created_at'', ''1970-01-01T00:00:00.007000+00:00''), (''id'', ''00000000-0000-0000-0000-000000000007'')]"
    "cursor_payload (demo_item 9 1) = [(''created_at'', ''1970-01-01T00:00:00.009000+00:00''), (''id'', ''00000000-0000-0000-0000-000000000009'')]"
    unfolding cursor_payload_def using iso by (simp_all add: demo_item_def) code_simp+
  then show "json_dumps (cursor_payload (demo_item 7 1)) \<noteq> json_dumps (cursor_payload (demo_item 9 1))"
    by (simp add: json_dumps_def json_dumps_str_def json_escape_def)
qed

lemma cursor_pages_complete_witness:
  "all_pages (demo_lib (sample_items (w_db demo_paging))) 1 1 (Suc (length (items_of (w_db demo_paging) 1))) None demo_paging
     = Some [demo_item 9 1, demo_item 7 1]"
proof -
  have items: "sample_items (w_db demo_paging) = [demo_item 7 1, demo_item 9 1]" by (simp add: demo_paging_def)
  have "db_ok (w_db demo_paging)" unfolding db_ok_def by code_simp
  moreover have "\<forall>m \<in> set (sample_items (w_db demo_paging)). trunc_ms (m_registered_at m) = m_registered_at m \<and> m_id m < 2 ^ 128"
    by (simp add: items demo_item_def trunc_ms_def unix_ms_bind_param_def unix_ms_result_value_def)
  moreover have "\<forall>m \<in> set (sample_items (w_db demo_paging)). loads_dumps (demo_lib (sample_items (w_db demo_paging))) (cursor_payload m)
      \<and> reads_isoformat (demo_lib (sample_items (w_db demo_paging))) (m_registered_at m)"
    using demo_payloads by (auto simp: items loads_dumps_def reads_isoformat_def demo_lib_def) (simp_all add: demo_item_def)
  moreover have "items_newest_first (items_of (w_db demo_paging) 1) = [demo_item 9 1, demo_item 7 1]" by code_simp
  ultimately show ?thesis using cursor_pages_complete [of demo_paging 1 _ 1] by simp
qed

text \<open>
  C34: A cursor can make the listing fail in a way it is not meant to. Every malformed cursor is meant to be
  refused with \<open>InvalidSampleItemCursorError\<close>; but when it is the encoding of an object with a valid instant
  and an identifier that is a number, the listing ends with an \<open>AttributeError\<close>.
\<close>

theorem cursor_numeric_id:
  assumes "lib_json_loads lib body = Some (JObj payload)" "body \<noteq> []"
    and "map_of payload ''created_at'' = Some (JStr t)" "lib_fromisoformat lib t = Some (instant, True)"
    and "map_of payload ''id'' = Some (JInt n)"
  shows "list_items lib uid limit (Some (urlsafe_b64encode body)) s = (Inl AttributeError, s)"
proof -
  have "list_all (\<lambda>c. (of_char c :: nat) < 128) (urlsafe_b64encode body)"
    using b64_alphabet [of "map of_char body"] by (simp add: urlsafe_b64encode_def list_all_iff)
  then have "decode_cursor lib (urlsafe_b64encode body) = Inl AttributeError"
    using assms by (simp add: decode_cursor_def b64_roundtrip)
  moreover have "urlsafe_b64encode body \<noteq> []"
  proof
    assume "urlsafe_b64encode body = []"
    with b64_roundtrip [of body] assms(2) show False by (simp add: urlsafe_b64decode_def)
  qed
  ultimately show ?thesis by (simp add: list_items_def bind_def lift_def)
qed

lemma cursor_numeric_id_witness:
  "list_items \<lparr>lib_json_loads = (\<lambda>_. Some (JObj [(''created_at'', JStr ''1970-01-01T00:00:00+00:00''), (''id'', JInt 5)])),
       lib_fromisoformat = (\<lambda>_. Some (0, True))\<rparr> 1 10 (Some (urlsafe_b64encode ''{...}'')) demo_items_world = (Inl AttributeError, demo_items_world)"
  by (rule cursor_numeric_id [where payload = "[(''created_at'', JStr ''1970-01-01T00:00:00+00:00''), (''id'', JInt 5)]"
      and t = "''1970-01-01T00:00:00+00:00''" and n = 5 and instant = 0]) simp_all

end
