(* ===== verification/Account_Deletion.thy ===== *)
theory Account_Deletion
  imports Authorization_Usecase Sample_Items
begin

text \<open>
  \<open>AccountDeletionUsecase\<close> (\<^verbatim>\<open>app/usecases/account_deletion_usecase.py\<close>). An account is deleted
  by its owner after a confirmation and a second authentication: the password, or for an account
  without one a fresh authentication at a linked provider.

  The five repository calls that remove an account, which \<open>AdminUserUsecase.delete_user\<close> makes
  too, are \<open>erase_user\<close>. Between its calls the invariant does not hold: a deleted account still
  has sessions in force until the last call. The lemmas show that the transaction restores it,
  that nothing of the account stays usable and that no other account is touched.
\<close>

definition erase_user :: "uuid \<Rightarrow> datetime \<Rightarrow> uuid option \<Rightarrow> string option \<Rightarrow> ('l, 'c, unit) prog" where
  "erase_user user_id deleted_at session_id ip_address =
     seq (delete_all_for_owner user_id)
    (bind (delete_roles_for_user user_id) (\<lambda>_.
     bind (delete_auth_identities_for_user user_id) (\<lambda>_.
     bind (mark_user_deleted user_id deleted_at session_id ip_address) (\<lambda>_.
     bind (revoke_sessions_for_user user_id deleted_at) (\<lambda>_. ok ())))))"

fun linked_details ::
    "(string \<times> oidc_provider) list \<Rightarrow> auth_identity list \<Rightarrow> string set \<Rightarrow> (string \<times> string) list" where
  "linked_details providers_by_id [] seen_provider_ids = []"
| "linked_details providers_by_id (identity # identities) seen_provider_ids =
     (if i_provider_id identity \<in> seen_provider_ids then linked_details providers_by_id identities seen_provider_ids
      else case map_of providers_by_id (i_provider_id identity) of
        None \<Rightarrow> linked_details providers_by_id identities seen_provider_ids
      | Some provider \<Rightarrow>
          (op_provider_id provider, op_display_name provider)
          # linked_details providers_by_id identities (insert (i_provider_id identity) seen_provider_ids))"

definition linked_provider_details :: "('l, 'c) app \<Rightarrow> uuid \<Rightarrow> ('l, 'c, (string \<times> string) list) prog" where
  "linked_provider_details app user_id =
     bind (find_identities_by_user_id user_id) (\<lambda>identities.
     ok (linked_details (dict_by op_provider_id (os_providers (oidc_settings_of app))) identities {}))"

definition require_fresh_oidc_reauth :: "('l, 'c) app \<Rightarrow> session_context \<Rightarrow> ('l, 'c, unit) prog" where
  "require_fresh_oidc_reauth app auth_context =
     (let refused = bind (linked_provider_details app (u_id (cx_user auth_context))) (\<lambda>details.
            raise (AccountDeletionOidcReauthRequiredError details))
      in case s_last_oidc_authenticated_at (cx_session auth_context) of
           None \<Rightarrow> refused
         | Some auth_time \<Rightarrow>
             bind utcnow (\<lambda>now.
             if now - auth_time > seconds (AUTH_OIDC_REAUTH_FRESHNESS_SECONDS (oidc_settings_of app))
             then refused else ok ()))"

text \<open>The second authentication, by the password or by a fresh one at a provider.\<close>

definition require_reauth ::
    "('l, 'c) app \<Rightarrow> session_context \<Rightarrow> string option \<Rightarrow> string option \<Rightarrow> string option \<Rightarrow> ('l, 'c, unit) prog" where
  "require_reauth app auth_context password ip_address user_agent =
     (let user = cx_user auth_context;
          normalized_user_email = normalize_email (u_email user);
          ip = rate_limit_ip ip_address;
          limiter = auth_rate_limiter app
      in case u_password_hash user of
           Some password_hash \<Rightarrow>
             bind (ask_limiter (is_account_deletion_reauth_allowed limiter ip normalized_user_email)) (\<lambda>allowed.
             if \<not> allowed then raise (RateLimitExceededError (AUTH_RATE_LIMIT_WINDOW_SECONDS (auth_settings_of app)))
             else case truthy password of
               None \<Rightarrow> raise AccountDeletionReauthRequiredError
             | Some p \<Rightarrow>
                 if verify_password app p password_hash then ok ()
                 else
                   seq (tell_limiter (record_failure limiter ip normalized_user_email False))
                  (seq (audit (Some (u_id user)) (Some (s_id (cx_session auth_context)))
                          ACCOUNT_DELETION_REAUTH_FAILED ip_address user_agent None)
                     (raise AccountDeletionInvalidPasswordError)))
         | None \<Rightarrow> require_fresh_oidc_reauth app auth_context)"

definition delete_account ::
    "('l, 'c) app \<Rightarrow> session_context \<Rightarrow> string \<Rightarrow> string option \<Rightarrow> string option \<Rightarrow> string option
      \<Rightarrow> ('l, 'c, unit) prog" where
  "delete_account app auth_context confirm_email password ip_address user_agent =
     (let normalized_user_email = normalize_email (u_email (cx_user auth_context));
          normalized_confirm_email = normalize_email confirm_email
      in
      if normalized_user_email \<noteq> normalized_confirm_email then raise AccountDeletionConfirmationMismatchError
      else
      seq (require_reauth app auth_context password ip_address user_agent)
     (bind utcnow (\<lambda>deleted_at.
      transaction (erase_user (u_id (cx_user auth_context)) deleted_at
        (Some (s_id (cx_session auth_context))) ip_address))))"

subsection \<open>Erasing keeps the invariant\<close>

text \<open>The state of the database while the account \<open>uid\<close> is being removed.\<close>

definition erasing :: "auth_settings \<Rightarrow> uuid \<Rightarrow> database \<Rightarrow> bool" where
  "erasing S uid d =
     (db_ok d \<and> (\<forall>s \<in> set (auth_sessions d). lifetime_ok S s) \<and>
      (\<forall>s \<in> set (auth_sessions d). s_user_id s \<in> dead_ids d \<longrightarrow> s_user_id s = uid \<or> s_revoked_at s \<noteq> None) \<and>
      (\<forall>r \<in> set (user_roles d). r_user_id r \<notin> dead_ids d \<and> r_user_id r \<noteq> uid) \<and>
      (\<forall>i \<in> set (auth_identities d). i_user_id i \<notin> dead_ids d \<and> i_user_id i \<noteq> uid))"

lemma erasing_audit:
  assumes "erasing S uid d" "audit_logs_ok (d\<lparr>auth_audit_logs := l\<rparr>)"
  shows "erasing S uid (d\<lparr>auth_audit_logs := l\<rparr>)"
  using assms db_ok_audit_logs [of d l] by (auto simp: erasing_def)

lemma dead_ids_mark:
  assumes "\<And>u. u_id (g u) = u_id u"
  shows "dead_ids (d\<lparr>users := update_rows (\<lambda>u. u_id u = uid \<and> P u) g (users d)\<rparr>) \<subseteq> insert uid (dead_ids d)"
  by (auto simp: dead_ids_def set_update_rows assms split: if_splits)

lemma erasing_mark:
  assumes e: "erasing S uid d" and g: "\<And>u. u_id (g u) = u_id u"
    and ok: "users_ok (d\<lparr>users := update_rows (\<lambda>u. u_id u = uid \<and> P u) g (users d)\<rparr>)"
  shows "erasing S uid (d\<lparr>users := update_rows (\<lambda>u. u_id u = uid \<and> P u) g (users d)\<rparr>)"
proof -
  let ?d = "d\<lparr>users := update_rows (\<lambda>u. u_id u = uid \<and> P u) g (users d)\<rparr>"
  have "db_ok d" using e by (simp add: erasing_def)
  from db_ok_users_grow [OF this ok] g have "db_ok ?d" by simp
  moreover have "dead_ids ?d \<subseteq> insert uid (dead_ids d)" using g by (rule dead_ids_mark)
  ultimately show ?thesis using e by (auto simp: erasing_def)
qed

lemma keeps_mark_user_deleted_erasing:
  "keeps (winv (erasing S uid) L) (mark_user_deleted uid t si ip)"
  unfolding mark_user_deleted_def create_audit_log_def insert_audit_log_def update_users_def Let_def
  by (intro keeps_intros keeps_statement) (simp_all add: erasing_audit erasing_mark)

lemma app_inv_erasing: "erasing S uid d \<Longrightarrow> all_revoked uid d \<Longrightarrow> app_inv S {} d"
  by (auto simp: erasing_def all_revoked_def app_inv_def tombstones_ok_def)

lemma wp_revoke_erasing:
  assumes "winv (erasing S uid) L s"
  shows "wp (revoke_sessions_for_user uid t) (\<lambda>_. winv (app_inv S {}) L) (\<lambda>_ u. L (w_lim u)) s"
proof -
  let ?P = "\<lambda>x. s_user_id x = uid \<and> s_revoked_at x = None" and ?g = "\<lambda>x. x\<lparr>s_revoked_at := Some (trunc_ms t)\<rparr>"
  let ?d = "(w_db s)\<lparr>auth_sessions := update_rows ?P ?g (auth_sessions (w_db s))\<rparr>"
  have e: "erasing S uid (w_db s)" and l: "L (w_lim s)" using assms by (simp_all add: winv_def)
  then have ok: "db_ok (w_db s)" by (simp add: erasing_def)
  have so: "sessions_ok ?d" by (rule sessions_ok_update [OF ok]) simp_all
  have "db_ok ?d" by (rule db_ok_sessions [OF ok so]) simp
  moreover have "\<forall>x \<in> set (auth_sessions ?d). lifetime_ok S x \<and> (s_user_id x \<in> dead_ids ?d \<longrightarrow> s_user_id x = uid \<or> s_revoked_at x \<noteq> None)"
    using e by simp (intro ball_update_rowsI, auto simp: erasing_def lifetime_ok_def)
  ultimately have "erasing S uid ?d" using e by (simp add: erasing_def)
  moreover have "all_revoked uid ?d"
    unfolding all_revoked_def by simp (intro ball_update_rowsI, simp)
  ultimately have "app_inv S {} ?d" by (rule app_inv_erasing)
  then show ?thesis using l so
    by (simp add: revoke_sessions_for_user_def update_sessions_def wp_session_scope wp_simps Let_def winv_def)
qed

lemma erasing_start:
  assumes "app_inv S X d"
  shows "erasing S uid (d\<lparr>sample_items := filter (\<lambda>m. m_owner_user_id m \<noteq> uid) (sample_items d),
     user_roles := filter (\<lambda>r. r_user_id r \<noteq> uid) (user_roles d),
     auth_identities := filter (\<lambda>i. i_user_id i \<noteq> uid) (auth_identities d)\<rparr>)"
  using assms
  by (auto simp: erasing_def app_inv_def tombstones_ok_def db_ok_def users_ok_def active_emails_def sessions_ok_def
      identities_ok_def oidc_states_ok_def audit_logs_ok_def user_roles_ok_def sample_items_ok_def distinct_map_filter)

lemma wp_erase_user:
  assumes "winv (app_inv S X) L s"
  shows "wp (erase_user uid t si ip) (\<lambda>_. winv (app_inv S {}) L) (\<lambda>_ u. L (w_lim u)) s"
proof -
  have "winv (erasing S uid) L (s\<lparr>w_db := (w_db s)\<lparr>sample_items := filter (\<lambda>m. m_owner_user_id m \<noteq> uid) (sample_items (w_db s)),
     user_roles := filter (\<lambda>r. r_user_id r \<noteq> uid) (user_roles (w_db s)),
     auth_identities := filter (\<lambda>i. i_user_id i \<noteq> uid) (auth_identities (w_db s))\<rparr>\<rparr>)"
    using assms erasing_start [of S X "w_db s"] by (simp add: winv_def)
  from keeps_wp [OF keeps_mark_user_deleted_erasing this, of t si ip]
  have "wp (mark_user_deleted uid t si ip) (\<lambda>_. wp (bind (revoke_sessions_for_user uid t) (\<lambda>_. ok ()))
      (\<lambda>_. winv (app_inv S {}) L) (\<lambda>_ u. L (w_lim u))) (\<lambda>_ u. L (w_lim u))
      (s\<lparr>w_db := (w_db s)\<lparr>sample_items := filter (\<lambda>m. m_owner_user_id m \<noteq> uid) (sample_items (w_db s)),
     user_roles := filter (\<lambda>r. r_user_id r \<noteq> uid) (user_roles (w_db s)),
     auth_identities := filter (\<lambda>i. i_user_id i \<noteq> uid) (auth_identities (w_db s))\<rparr>\<rparr>)"
    by (rule wp_mono) (simp_all add: wp_discard wp_revoke_erasing winvD(2))
  then show ?thesis
    by (simp add: erase_user_def delete_all_for_owner_def delete_roles_for_user_def delete_auth_identities_for_user_def
        wp_session_scope wp_simps wp_discard)
qed


lemma wp_erase_transaction:
  assumes inv: "winv (app_inv S X) L s" and tx: "\<not> w_in_tx s"
  shows "wp (bind utcnow (\<lambda>t. transaction (erase_user uid t si ip)))
     (\<lambda>_. winv (app_inv S {}) L) (\<lambda>_. winv (app_inv S {}) L) s"
proof -
  let ?s = "s\<lparr>w_clock_n := Suc (w_clock_n s)\<rparr>"
  have "winv (app_inv S X) L (?s\<lparr>w_in_tx := True\<rparr>)" using inv by simp
  note e = wp_erase_user [OF this]
  have "wp (transaction (erase_user uid t si ip)) (\<lambda>_. winv (app_inv S {}) L) (\<lambda>_. winv (app_inv S {}) L) ?s" for t
    using tx winv_subset [OF inv, of "{}"]
    by (simp add: wp_transaction) (rule wp_mono [OF e], simp_all add: winv_def)
  then show ?thesis by (simp add: wp_bind wp_utcnow)
qed

lemma keeps_linked_provider_details [keeps_intros]: "keeps (winv P L) (linked_provider_details app uid)"
  unfolding linked_provider_details_def by (intro keeps_intros)

context auth_app
begin

text \<open>The second authentication does not touch the database when it succeeds.\<close>

lemma require_reauth_inv:
  assumes inv: "inv_live {} s" and tx: "\<not> w_in_tx s"
  shows "wp (require_reauth app cx password ip ua) (\<lambda>_ t. inv_live {} t \<and> \<not> w_in_tx t) (\<lambda>_. inv_live {}) s"
proof -
  have refused: "wp (bind (linked_provider_details app u) (\<lambda>d. raise (f d))) Q (\<lambda>_. inv_live {}) t" if "inv_live {} t" for u f t
    and Q :: "unit \<Rightarrow> ('l, 'c) world \<Rightarrow> bool"
    unfolding wp_bind
    by (rule wp_mono [OF keeps_wp [OF keeps_linked_provider_details that]]) (simp_all add: wp_raise)
  have failed: "wp (seq (tell_limiter (record_failure (auth_rate_limiter app) i e b)) (seq (audit u si ev ip ua det) (raise x)))
      Q (\<lambda>_. inv_live {}) t" if "inv_live {} t" for i e b u si ev det x t and Q :: "unit \<Rightarrow> ('l, 'c) world \<Rightarrow> bool"
    unfolding wp_seq wp_tell_limiter
    by (rule wp_mono [OF keeps_wp [OF keeps_audit]]) (use that in \<open>simp_all add: wp_raise winv_def\<close>)
  note unf = require_reauth_def require_fresh_oidc_reauth_def Let_def
  show ?thesis
  proof (cases "u_password_hash (cx_user cx)")
    case None
    with inv tx show ?thesis
      unfolding unf by (cases "s_last_oidc_authenticated_at (cx_session cx)")
        (auto simp: wp_bind [where m = utcnow] wp_utcnow wp_ok intro!: refused)
  next
    case (Some h)
    with inv tx show ?thesis
      unfolding unf by (cases "truthy password")
        (auto simp: wp_bind wp_ask_limiter wp_raise wp_ok winv_def intro!: failed)
  qed
qed

lemma delete_account_inv:
  assumes inv: "inv_live {} s" and tx: "\<not> w_in_tx s"
  shows "inv_live {} (snd (delete_account app cx confirm password ip ua s))"
proof -
  have "wp (delete_account app cx confirm password ip ua) (\<lambda>_. inv_live {}) (\<lambda>_. inv_live {}) s"
    unfolding delete_account_def Let_def wp_if wp_raise wp_seq
    using inv by (auto intro!: wp_mono [OF require_reauth_inv [OF inv tx]] wp_erase_transaction)
  then show ?thesis by (simp add: wp_same)
qed

end

subsection \<open>What a deletion leaves\<close>

definition erased :: "uuid \<Rightarrow> database \<Rightarrow> bool" where
  "erased uid d = (uid \<in> dead_ids d \<and> all_revoked uid d \<and> roles_of d uid = {} \<and>
     (\<forall>i \<in> set (auth_identities d). i_user_id i \<noteq> uid) \<and> (\<forall>m \<in> set (sample_items d). m_owner_user_id m \<noteq> uid))"

definition others_same :: "uuid \<Rightarrow> database \<Rightarrow> database \<Rightarrow> bool" where
  "others_same uid d d' =
     (filter (\<lambda>u. u_id u \<noteq> uid) (users d') = filter (\<lambda>u. u_id u \<noteq> uid) (users d) \<and>
      filter (\<lambda>x. s_user_id x \<noteq> uid) (auth_sessions d') = filter (\<lambda>x. s_user_id x \<noteq> uid) (auth_sessions d) \<and>
      filter (\<lambda>r. r_user_id r \<noteq> uid) (user_roles d') = filter (\<lambda>r. r_user_id r \<noteq> uid) (user_roles d) \<and>
      filter (\<lambda>i. i_user_id i \<noteq> uid) (auth_identities d') = filter (\<lambda>i. i_user_id i \<noteq> uid) (auth_identities d) \<and>
      filter (\<lambda>m. m_owner_user_id m \<noteq> uid) (sample_items d') = filter (\<lambda>m. m_owner_user_id m \<noteq> uid) (sample_items d))"

lemma filter_update_other:
  "(\<And>x. P x \<Longrightarrow> \<not> Q x \<and> \<not> Q (g x)) \<Longrightarrow> filter Q (update_rows P g xs) = filter Q xs"
  by (induction xs) (auto simp: update_rows_def)

lemma all_revoked_revoke:
  "all_revoked uid (d\<lparr>auth_sessions := update_rows (\<lambda>x. s_user_id x = uid \<and> s_revoked_at x = None)
     (\<lambda>x. x\<lparr>s_revoked_at := Some t\<rparr>) xs\<rparr>)"
  unfolding all_revoked_def by simp (intro ball_update_rowsI, simp)

lemma dead_after_mark:
  assumes "filter (\<lambda>u. u_id u = uid \<and> u_deleted_at u = None) us \<noteq> []"
  shows "uid \<in> dead_ids (d\<lparr>users := update_rows (\<lambda>u. u_id u = uid \<and> u_deleted_at u = None)
     (\<lambda>u. u\<lparr>u_deleted_at := Some t, u_modified_at := t\<rparr>) us\<rparr>)"
proof -
  from assms obtain u where u: "u \<in> set us" "u_id u = uid" "u_deleted_at u = None" by (auto simp: filter_empty_conv)
  then have "u\<lparr>u_deleted_at := Some t, u_modified_at := t\<rparr> \<in> set (update_rows (\<lambda>u. u_id u = uid \<and> u_deleted_at u = None)
     (\<lambda>u. u\<lparr>u_deleted_at := Some t, u_modified_at := t\<rparr>) us)" unfolding set_update_rows by (intro image_eqI [of _ _ u]) simp_all
  then show ?thesis using u(2) unfolding dead_ids_def by (intro image_eqI [of _ _ "u\<lparr>u_deleted_at := Some t, u_modified_at := t\<rparr>"]) simp_all
qed

lemma dead_if_unmarked:
  assumes "filter (\<lambda>u. u_id u = uid \<and> u_deleted_at u = None) (users d) = []"
    "List.find (\<lambda>u. u_id u = uid) (users d) = Some u"
  shows "uid \<in> dead_ids d"
proof -
  from find_id_Some [OF assms(2)] have u: "u \<in> set (users d)" "u_id u = uid" by auto
  with assms(1) have "u_deleted_at u \<noteq> None" by (auto simp: filter_empty_conv)
  with u show ?thesis by (auto simp: dead_ids_def)
qed


lemma wp_mark_effect:
  fixes s :: "('l, 'c) world"
  assumes Q: "\<And>u t us l. w_db t = (w_db s)\<lparr>users := us, auth_audit_logs := l\<rparr> \<Longrightarrow> uid \<in> dead_ids ((w_db s)\<lparr>users := us\<rparr>) \<Longrightarrow>
      filter (\<lambda>u. u_id u \<noteq> uid) us = filter (\<lambda>u. u_id u \<noteq> uid) (users (w_db s)) \<Longrightarrow> Q u t"
  shows "wp (mark_user_deleted uid tm si ip) Q (\<lambda>_ _. True) s"
proof -
  let ?P = "\<lambda>u. u_id u = uid \<and> u_deleted_at u = None"
  let ?g = "\<lambda>u. u\<lparr>u_deleted_at := Some (trunc_ms tm), u_modified_at := trunc_ms tm\<rparr>"
  let ?us = "update_rows ?P ?g (users (w_db s))"
  have oth: "filter (\<lambda>u. u_id u \<noteq> uid) ?us = filter (\<lambda>u. u_id u \<noteq> uid) (users (w_db s))"
    by (rule filter_update_other) simp
  show ?thesis
  proof (cases "filter ?P (users (w_db s)) = []")
    case True
    then have us: "?us = users (w_db s)"
      unfolding update_rows_def filter_empty_conv by (intro map_idI) auto
    have "Q u s" if "List.find (\<lambda>u. u_id u = uid) (users (w_db s)) = Some u" for u
      by (rule Q [where us = "users (w_db s)" and l = "auth_audit_logs (w_db s)"]) (use dead_if_unmarked [OF True that] in simp_all)
    with True us show ?thesis
      unfolding mark_user_deleted_def update_users_def Let_def
      by (simp add: wp_simps wp_session_scope split: option.splits)
  next
    case False
    note dead = dead_after_mark [OF this]
    from False show ?thesis
      unfolding mark_user_deleted_def update_users_def create_audit_log_def insert_audit_log_def Let_def
      by (auto simp: wp_simps wp_session_scope intro!: Q oth dead split: option.splits)
  qed
qed

lemma wp_erase_effect:
  "wp (erase_user uid tm si ip) (\<lambda>_ t. erased uid (w_db t) \<and> others_same uid (w_db s) (w_db t)) (\<lambda>_ _. True) s"
proof -
  have sess: "filter (\<lambda>x. s_user_id x \<noteq> uid) (update_rows (\<lambda>x. s_user_id x = uid \<and> s_revoked_at x = None)
      (\<lambda>x. x\<lparr>s_revoked_at := Some r\<rparr>) xs) = filter (\<lambda>x. s_user_id x \<noteq> uid) xs" for r xs
    by (rule filter_update_other) simp
  show ?thesis
    unfolding erase_user_def delete_all_for_owner_def delete_roles_for_user_def delete_auth_identities_for_user_def
    by (simp add: wp_session_scope wp_simps wp_discard)
      (rule wp_mark_effect, auto simp: revoke_sessions_for_user_def update_sessions_def Let_def wp_session_scope wp_simps
        erased_def others_same_def all_revoked_revoke roles_of_def sess dead_ids_def)
qed

definition reauthenticated :: "('l, 'c) app \<Rightarrow> session_context \<Rightarrow> string option \<Rightarrow> datetime \<Rightarrow> bool" where
  "reauthenticated app cx password now =
     (case u_password_hash (cx_user cx) of
        Some h \<Rightarrow> (case password of None \<Rightarrow> False | Some p \<Rightarrow> p \<noteq> [] \<and> verify_password app p h)
      | None \<Rightarrow> (case s_last_oidc_authenticated_at (cx_session cx) of None \<Rightarrow> False
          | Some t \<Rightarrow> now - t \<le> seconds (AUTH_OIDC_REAUTH_FRESHNESS_SECONDS (oidc_settings_of app))))"

lemma require_reauth_evidence:
  fixes s :: "('l, 'c) world"
  shows "wp (require_reauth app cx password ip ua)
    (\<lambda>_ t. w_db t = w_db s \<and> reauthenticated app cx password (w_clock s (w_clock_n s))) (\<lambda>_ _. True) s"
proof -
  have refused: "wp (bind m (\<lambda>d. raise (f d))) Q (\<lambda>_ _. True) t" for m :: "('l, 'c, (string \<times> string) list) prog" and f t
    and Q :: "unit \<Rightarrow> ('l, 'c) world \<Rightarrow> bool"
    by (simp add: wp_def bind_def raise_def split: prod.splits sum.splits)
  note unf = require_reauth_def require_fresh_oidc_reauth_def Let_def reauthenticated_def truthy_def
  show ?thesis
  proof (cases "u_password_hash (cx_user cx)")
    case None
    then show ?thesis
      unfolding unf by (auto simp: wp_bind [where m = utcnow] wp_utcnow wp_ok refused split: option.splits)
  next
    case (Some h)
    then show ?thesis
      unfolding unf by (auto simp: wp_bind wp_ask_limiter wp_raise wp_ok wp_or_raise split: option.splits)
  qed
qed

lemma delete_account_spec:
  fixes s :: "('l, 'c) world"
  shows "wp (delete_account app cx confirm password ip ua)
     (\<lambda>_ t. normalize_email confirm = normalize_email (u_email (cx_user cx))
        \<and> reauthenticated app cx password (w_clock s (w_clock_n s))
        \<and> erased (u_id (cx_user cx)) (w_db t) \<and> others_same (u_id (cx_user cx)) (w_db s) (w_db t)) (\<lambda>_ _. True) s"
proof -
  let ?uid = "u_id (cx_user cx)"
  have tx: "wp (transaction (erase_user ?uid tm si ip)) (\<lambda>_ t. erased ?uid (w_db t) \<and> others_same ?uid (w_db u) (w_db t)) (\<lambda>_ _. True) u"
    for tm si and u :: "('l, 'c) world"
    by (rule wp_transactionI, rule wp_mono [OF wp_erase_effect]) simp_all
  show ?thesis
  proof (cases "normalize_email (u_email (cx_user cx)) = normalize_email confirm")
    case True
    show ?thesis
      unfolding delete_account_def Let_def True wp_seq
      by (simp add: wp_seq) (rule wp_mono [OF require_reauth_evidence], simp_all add: wp_bind wp_utcnow,
          rule wp_mono [OF tx], simp_all)
  qed (simp add: delete_account_def Let_def wp_raise)
qed

text \<open>
  C4: a deletion is confirmed, authenticated twice, complete and confined. When \<open>delete_account\<close>
  returns, the confirmation was the account's address, the password was verified or, for an
  account without password, the session's provider authentication is no older than allowed;
  the account is marked deleted and has no session in force, role, linked identity or item; and
  the rows of all other accounts are as they were.
\<close>

theorem account_deletion_complete:
  fixes s s' :: "('l, 'c) world"
  assumes "delete_account app cx confirm password ip ua s = (Inr (), s')"
  shows "normalize_email confirm = normalize_email (u_email (cx_user cx))
     \<and> reauthenticated app cx password (w_clock s (w_clock_n s))
     \<and> erased (u_id (cx_user cx)) (w_db s') \<and> others_same (u_id (cx_user cx)) (w_db s) (w_db s')"
  by (rule wp_Ok [OF delete_account_spec assms])

lemma account_deletion_complete_witness:
  "\<exists>s'. delete_account (demo_app in_memory_ops) demo_context ''ANN@example.com'' (Some ''correct horse battery'') None None demo_running = (Inr (), s')
     \<and> erased 1 (w_db s') \<and> others_same 1 (w_db demo_running) (w_db s')"
proof -
  have "case delete_account (demo_app in_memory_ops) demo_context ''ANN@example.com'' (Some ''correct horse battery'') None None demo_running
    of (Inl e, s') \<Rightarrow> False | (Inr r, s') \<Rightarrow> True" by code_simp
  then obtain s' where r: "delete_account (demo_app in_memory_ops) demo_context ''ANN@example.com'' (Some ''correct horse battery'') None None demo_running = (Inr (), s')"
    by (auto split: prod.splits sum.splits)
  have "u_id (cx_user demo_context) = 1" by (simp add: demo_context_def demo_user_def)
  with account_deletion_complete [OF r] r show ?thesis by auto
qed

end
