(* ===== verification/Auth_Controller.thy ===== *)
theory Auth_Controller
  imports Http Oidc_Usecase Account_Deletion
begin

text \<open>
  \<^verbatim>\<open>app/controllers/auth_controller.py\<close>: the endpoints under \<^verbatim>\<open>/api/auth\<close>. Payloads are the values
  that the schemas of \<^verbatim>\<open>app/models/auth_schemas.py\<close> have validated. In query strings text stands for
  its UTF-8 encoding; a \<open>Location\<close> header holds the target before Starlette quotes it.
\<close>

subsection \<open>Query strings\<close>

text \<open>\<open>urllib.parse.unquote_plus\<close>, \<open>quote_plus\<close>, \<open>parse_qsl\<close> and \<open>urlencode\<close>.\<close>

fun percent_decode :: "string \<Rightarrow> string" where
  "percent_decode (c # a # b # rest) =
     (if c = CHR ''%'' then
        (case (hex_value a, hex_value b) of
           (Some x, Some y) \<Rightarrow> char_of (nat (16 * x + y)) # percent_decode rest
         | _ \<Rightarrow> c # percent_decode (a # b # rest))
      else c # percent_decode (a # b # rest))"
| "percent_decode s = s"

definition unquote_plus :: "string \<Rightarrow> string" where
  "unquote_plus s = percent_decode (map (\<lambda>c. if c = CHR ''+'' then CHR '' '' else c) s)"

definition unreserved :: "char \<Rightarrow> bool" where
  "unreserved c = (ascii_alpha c \<or> ascii_digit c \<or> c \<in> {CHR ''_'', CHR ''.'', CHR ''-'', CHR ''~''})"

definition hex_digit :: "nat \<Rightarrow> char" where
  "hex_digit n = (if n < 10 then char_of (48 + n) else char_of (55 + n))"

definition quote_plus :: "string \<Rightarrow> string" where
  "quote_plus s = concat (map (\<lambda>c.
     if unreserved c then [c] else if c = CHR '' '' then ''+''
     else [CHR ''%'', hex_digit (of_char c div 16), hex_digit (of_char c mod 16)]) s)"

definition parse_qsl :: "string \<Rightarrow> (string \<times> string) list" where
  "parse_qsl qs =
     map (\<lambda>name_value. case split_at (CHR ''='') name_value of (n, v) \<Rightarrow> (unquote_plus n, unquote_plus v))
       (filter (\<lambda>x. x \<noteq> []) (split_on (CHR ''&'') qs))"

definition urlencode :: "(string \<times> string) list \<Rightarrow> string" where
  "urlencode items = join ''&'' (map (\<lambda>(k, v). quote_plus k @ ''='' @ quote_plus v) items)"

text \<open>\<open>urlunparse(("", "", path, "", query, fragment))\<close>\<close>

definition urlunparse_local :: "string \<Rightarrow> string \<Rightarrow> string \<Rightarrow> string" where
  "urlunparse_local path qs fragment =
     (if startswith path ''//'' then ''//'' @ path else path)
     @ (if qs = [] then [] else ''?'' @ qs) @ (if fragment = [] then [] else ''#'' @ fragment)"

text \<open>A Python \<open>dict\<close> of strings keeps the position of the first insertion of a key.\<close>

definition dict_of :: "(string \<times> string) list \<Rightarrow> (string \<times> string) list" where
  "dict_of items = fold (\<lambda>(k, v) d. AList.update k v d) items []"

definition merge_redirect_query :: "string \<Rightarrow> (string \<times> string option) list \<Rightarrow> string + string" where
  "merge_redirect_query redirect_path updates =
     (case urlparse redirect_path of
        Inl e \<Rightarrow> Inl e
      | Inr parsed \<Rightarrow>
          let query_items = fold (\<lambda>(key, value) d. case value of
                 None \<Rightarrow> AList.delete key d | Some v \<Rightarrow> AList.update key v d) updates (dict_of (parse_qsl (url_query parsed)))
          in Inr (urlunparse_local (or_slash (url_path parsed)) (urlencode query_items) (url_fragment parsed)))"

subsection \<open>Errors of the OpenID Connect flows\<close>

definition unwrap_oidc_error :: "exn \<Rightarrow> exn" where
  "unwrap_oidc_error error = (case error of OidcCallbackFlowError e _ _ \<Rightarrow> e | _ \<Rightarrow> error)"

definition OIDC_KNOWN_ERRORS :: "string list" where
  "OIDC_KNOWN_ERRORS =
     [''OidcProviderNotConfiguredError'', ''OidcAuthorizationRateLimitedError'', ''OidcStateMismatchError'',
      ''OidcBrowserBindingMismatchError'', ''OidcTokenExchangeError'', ''OidcProviderAccessDeniedError'',
      ''OidcClaimsValidationError'', ''OidcEmailNotVerifiedError'', ''OidcProvisioningDisabledError'',
      ''OidcIdentityLinkRequiredError'', ''OidcIdentityLinkDisabledError'', ''OidcIdentityUnavailableError'',
      ''OidcReauthAuthenticationRequiredError'', ''OidcReauthSubjectMismatchError'', ''OidcReauthAuthTimeRequiredError'',
      ''OidcReauthStaleError'', ''OidcProviderUnavailableError'', ''OidcProviderMetadataError'']"

definition is_known_oidc_error :: "exn \<Rightarrow> bool" where
  "is_known_oidc_error error = (exn_name (unwrap_oidc_error error) \<in> set OIDC_KNOWN_ERRORS)"

definition oidc_loggable_error_description :: "string option \<Rightarrow> string option" where
  "oidc_loggable_error_description error_description =
     (case error_description of
        None \<Rightarrow> None
      | Some d \<Rightarrow>
          let normalized = join '' '' (split_space d) in
          Some (if length normalized > 512 then take 512 normalized @ ''...'' else normalized))"

definition oidc_error_code_for_exception :: "exn \<Rightarrow> string" where
  "oidc_error_code_for_exception error =
     (case unwrap_oidc_error error of
        OidcProviderNotConfiguredError _ \<Rightarrow> ''OIDC_PROVIDER_NOT_CONFIGURED''
      | OidcAuthorizationRateLimitedError \<Rightarrow> ''OIDC_AUTHORIZATION_RATE_LIMITED''
      | OidcStateMismatchError \<Rightarrow> ''OIDC_STATE_MISMATCH''
      | OidcBrowserBindingMismatchError \<Rightarrow> ''OIDC_BROWSER_BINDING_MISMATCH''
      | OidcTokenExchangeError \<Rightarrow> ''OIDC_TOKEN_EXCHANGE_FAILED''
      | OidcProviderAccessDeniedError \<Rightarrow> ''OIDC_PROVIDER_ACCESS_DENIED''
      | OidcClaimsValidationError \<Rightarrow> ''OIDC_CLAIMS_VALIDATION_FAILED''
      | OidcEmailNotVerifiedError \<Rightarrow> ''OIDC_EMAIL_NOT_VERIFIED''
      | OidcProvisioningDisabledError \<Rightarrow> ''OIDC_PROVISIONING_DISABLED''
      | OidcIdentityLinkRequiredError \<Rightarrow> ''OIDC_IDENTITY_LINK_REQUIRED''
      | OidcIdentityLinkDisabledError \<Rightarrow> ''OIDC_IDENTITY_LINK_DISABLED''
      | OidcIdentityUnavailableError \<Rightarrow> ''OIDC_IDENTITY_UNAVAILABLE''
      | OidcReauthAuthenticationRequiredError \<Rightarrow> ''OIDC_REAUTH_AUTHENTICATION_REQUIRED''
      | OidcReauthSubjectMismatchError \<Rightarrow> ''OIDC_REAUTH_SUBJECT_MISMATCH''
      | OidcReauthAuthTimeRequiredError \<Rightarrow> ''OIDC_REAUTH_AUTH_TIME_REQUIRED''
      | OidcReauthStaleError \<Rightarrow> ''OIDC_REAUTH_STALE''
      | OidcProviderUnavailableError \<Rightarrow> ''OIDC_PROVIDER_UNAVAILABLE''
      | OidcProviderMetadataError \<Rightarrow> ''OIDC_PROVIDER_METADATA_INVALID''
      | _ \<Rightarrow> ''OIDC_UNEXPECTED_ERROR'')"

definition oidc_redirect :: "string \<Rightarrow> response" where
  "oidc_redirect redirect_path = \<lparr>rs_status = 303, rs_headers = [(''location'', redirect_path)], rs_cookies = [], rs_body = None\<rparr>"

definition merged_redirect :: "string \<Rightarrow> (string \<times> string option) list \<Rightarrow> ('l, 'c, response) http" where
  "merged_redirect path updates =
     lift (case merge_redirect_query path updates of Inl e \<Rightarrow> Inl (Unhandled (ValueError e)) | Inr t \<Rightarrow> Inr (oidc_redirect t))"

definition oidc_start_failure_redirect :: "string \<Rightarrow> exn \<Rightarrow> ('l, 'c, response) http" where
  "oidc_start_failure_redirect redirect_path error =
     merged_redirect redirect_path [(''oidc_error'', Some (oidc_error_code_for_exception error)), (''oidc_reauth'', None)]"

definition oidc_binding_cookie_name_for_state :: "('l, 'c) app \<Rightarrow> string \<Rightarrow> string" where
  "oidc_binding_cookie_name_for_state app state = ''oidc_binding_'' @ take 16 (hash_token app state)"

definition with_cookies :: "response \<Rightarrow> (set_cookie list \<Rightarrow> ('l, 'c, set_cookie list) http) \<Rightarrow> ('l, 'c, response) http" where
  "with_cookies r f = bind (f (rs_cookies r)) (\<lambda>cs. ok (r\<lparr>rs_cookies := cs\<rparr>))"

definition oidc_callback_failure_redirect :: "('l, 'c) app \<Rightarrow> exn \<Rightarrow> string option \<Rightarrow> ('l, 'c, response) http" where
  "oidc_callback_failure_redirect app error binding_cookie_name =
     (let error_code = oidc_error_code_for_exception error;
          (purpose, redirect_path) = (case error of OidcCallbackFlowError _ p path \<Rightarrow> (p, path) | _ \<Rightarrow> (Login, ''/app''))
      in
      bind (merged_redirect (if purpose = Account_deletion_reauth then redirect_path else ''/login'')
              [(''oidc_error'', Some error_code), (''oidc_reauth'', None)]) (\<lambda>response.
      case binding_cookie_name of
        None \<Rightarrow> ok response
      | Some key \<Rightarrow> with_cookies response (clear_oidc_binding_cookie app key)))"

subsection \<open>Bodies\<close>

definition auth_user_response :: "user \<Rightarrow> string set \<Rightarrow> string set \<Rightarrow> json" where
  "auth_user_response u roles permissions =
     JObj [(''id'', JStr (str_uuid (u_id u))), (''email'', JStr (u_email u)),
           (''roles'', JList (map JStr (sorted_strings roles))), (''permissions'', JList (map JStr (sorted_strings permissions))),
           (''language_code'', JStr (u_language_code u))]"

definition csrf_token_response :: "string \<Rightarrow> json" where
  "csrf_token_response token = JObj [(''csrf_token'', JStr token)]"

subsection \<open>OpenID Connect endpoints\<close>

definition list_oidc_providers :: "('l, 'c) app \<Rightarrow> ('l, 'c, response) http" where
  "list_oidc_providers app =
     ok (json_response 200 no_store [] (JObj [(''data'', JList (map (\<lambda>p.
       JObj [(''provider_id'', JStr (op_provider_id p)), (''display_name'', JStr (op_display_name p))])
       (os_providers (oidc_settings_of app))))]))"

text \<open>Inside the \<open>try\<close> an error of the address settings is reported like any other.\<close>

definition client_ip_in_try :: "('l, 'c) app \<Rightarrow> request \<Rightarrow> ('l, 'c, string option) prog" where
  "client_ip_in_try app r =
     (case resolve_client_ip r (AUTH_TRUSTED_PROXY_IPS (auth_settings_of app)) of
        None \<Rightarrow> raise (ValueError ''AUTH_TRUSTED_PROXY_IPS'') | Some ip \<Rightarrow> ok ip)"

text \<open>The redirect to the provider with its binding cookie, or the redirect that reports the failure.\<close>

definition started :: "('l, 'c) app \<Rightarrow> string \<Rightarrow> ('l, 'c, oidc_authorization_start_result) prog \<Rightarrow> ('l, 'c, response) http" where
  "started app failure_path start =
     (\<lambda>s. case start s of
        (Inl e, s') \<Rightarrow> oidc_start_failure_redirect failure_path e s'
      | (Inr result, s') \<Rightarrow>
          with_cookies (oidc_redirect (sr_authorization_url result))
            (set_oidc_binding_cookie app (sr_browser_binding_cookie_name result) (sr_browser_binding_cookie_value result)
              (sr_browser_binding_cookie_max_age result)) s')"

definition start_oidc_login :: "('l, 'c) app \<Rightarrow> request \<Rightarrow> string \<Rightarrow> string option \<Rightarrow> string option \<Rightarrow> ('l, 'c, response) http" where
  "start_oidc_login app r provider_id redirect language_code_param =
     (let language_code = (case language_code_param of
            None \<Rightarrow> None | Some c \<Rightarrow> Some (if is_supported_language_code c then c else DEFAULT_LANGUAGE_CODE)) in
      started app ''/login''
        (bind (client_ip_in_try app r) (\<lambda>ip.
         start_authorization app provider_id redirect Login None ip language_code)))"

definition start_oidc_reauth :: "('l, 'c) app \<Rightarrow> request \<Rightarrow> string \<Rightarrow> string option \<Rightarrow> ('l, 'c, response) http" where
  "start_oidc_reauth app r provider_id redirect =
     bind (current_session app r) (\<lambda>auth_context. case auth_context of
       None \<Rightarrow> oidc_start_failure_redirect ''/login'' OidcReauthAuthenticationRequiredError
     | Some cx \<Rightarrow>
         started app ''/app/settings''
           (bind (client_ip_in_try app r) (\<lambda>ip.
            start_authorization app provider_id redirect Account_deletion_reauth (Some cx) ip None)))"

text \<open>\<open>except Exception as callback_error\<close> around authentication and callback.\<close>

definition reporting_failures ::
    "('l, 'c) app \<Rightarrow> string \<Rightarrow> ('l, 'c, 'a) prog \<Rightarrow> ('a \<Rightarrow> ('l, 'c, response) http) \<Rightarrow> ('l, 'c, response) http" where
  "reporting_failures app cookie_name m f =
     (\<lambda>s. case m s of
        (Inl e, s') \<Rightarrow> oidc_callback_failure_redirect app e (Some cookie_name) s'
      | (Inr x, s') \<Rightarrow> f x s')"

definition callback_response :: "('l, 'c) app \<Rightarrow> request \<Rightarrow> string \<Rightarrow> oidc_callback_result \<Rightarrow> ('l, 'c, response) http" where
  "callback_response app r cookie_name result =
     (case cr_issued_session result of
        Some issued \<Rightarrow>
          bind (merged_redirect (cr_redirect_path result) [(''oidc_error'', None), (''oidc_reauth'', None)]) (\<lambda>response.
          bind (with_cookies response (set_session_cookie app (is_session_token issued))) (\<lambda>response.
          bind (with_cookies response (set_csrf_cookie app (is_csrf_token issued))) (\<lambda>response.
          with_cookies response (clear_oidc_binding_cookie app cookie_name))))
      | None \<Rightarrow>
          bind (calling (issue_csrf_token app (session_cookie app r)) Unhandled) (\<lambda>csrf_token.
          bind (merged_redirect (cr_redirect_path result) [(''oidc_error'', None), (''oidc_reauth'', Some ''success'')]) (\<lambda>response.
          bind (with_cookies response (set_csrf_cookie app csrf_token)) (\<lambda>response.
          with_cookies response (clear_oidc_binding_cookie app cookie_name)))))"

text \<open>
  The part of the callback after a possible error of the provider, with the name of the binding cookie
  as it is at that point.
\<close>

definition complete_oidc_code ::
    "('l, 'c) app \<Rightarrow> request \<Rightarrow> string \<Rightarrow> string option \<Rightarrow> string option \<Rightarrow> string option \<Rightarrow> ('l, 'c, response) http" where
  "complete_oidc_code app r provider_id state code binding_cookie_name =
     (case (state, code) of
        (Some st, Some cd) \<Rightarrow>
          let cookie_name = oidc_binding_cookie_name_for_state app st in
          reporting_failures app cookie_name
            (bind (client_ip_in_try app r) (\<lambda>ip.
             bind (authenticate_session app (session_cookie app r) ip (get_user_agent r)) (\<lambda>current.
             complete_callback app provider_id st cd (cookies_get r cookie_name) current (session_cookie app r) ip (get_user_agent r))))
            (callback_response app r cookie_name)
      | _ \<Rightarrow> oidc_callback_failure_redirect app OidcStateMismatchError binding_cookie_name)"

definition complete_oidc_callback ::
    "('l, 'c) app \<Rightarrow> request \<Rightarrow> string \<Rightarrow> string option \<Rightarrow> string option \<Rightarrow> string option \<Rightarrow> ('l, 'c, response) http" where
  "complete_oidc_callback app r provider_id state code error =
     (case error of
        None \<Rightarrow> complete_oidc_code app r provider_id state code (map_option (oidc_binding_cookie_name_for_state app) (truthy state))
      | Some _ \<Rightarrow>
          (case state of
             None \<Rightarrow> oidc_callback_failure_redirect app OidcStateMismatchError None
           | Some st \<Rightarrow>
               let cookie_name = oidc_binding_cookie_name_for_state app st in
               reporting_failures app cookie_name
                 (bind (client_ip_in_try app r) (\<lambda>ip.
                  bind (authenticate_session app (session_cookie app r) ip (get_user_agent r)) (\<lambda>current.
                  complete_error_callback app provider_id st (cookies_get r cookie_name) OidcProviderAccessDeniedError current
                    ip (get_user_agent r))))
                 (\<lambda>_. complete_oidc_code app r provider_id state code (Some cookie_name))))"

subsection \<open>Accounts and sessions\<close>

definition get_csrf :: "('l, 'c) app \<Rightarrow> request \<Rightarrow> ('l, 'c, response) http" where
  "get_csrf app r =
     (let existing = truthy (cookies_get r csrf_cookie_name);
          session_token = session_cookie app r;
          reissue =
            bind (calling (issue_csrf_token app session_token) Unhandled) (\<lambda>csrf_token.
            bind (set_csrf_cookie app csrf_token []) (\<lambda>cookies.
            ok (json_response 200 no_store cookies (csrf_token_response csrf_token))))
      in
      case existing of
        None \<Rightarrow> reissue
      | Some token \<Rightarrow>
          (case truthy session_token of
             None \<Rightarrow> ok (json_response 200 no_store [] (csrf_token_response token))
           | Some st \<Rightarrow>
               bind (get_client_ip app r) (\<lambda>ip.
               bind (calling (validate_session_csrf app st token ip (get_user_agent r)) Unhandled) (\<lambda>csrf_status.
               if csrf_status \<in> {Csrf_valid, Csrf_no_session}
               then ok (json_response 200 no_store [] (csrf_token_response token))
               else reissue))))"

definition get_me :: "('l, 'c) app \<Rightarrow> request \<Rightarrow> ('l, 'c, response) http" where
  "get_me app r =
     bind (require_current_session app r) (\<lambda>cx.
     ok (json_response 200 no_store [] (auth_user_response (cx_user cx) (cx_roles cx) (cx_permissions cx))))"

definition update_me :: "('l, 'c) app \<Rightarrow> request \<Rightarrow> auth_user_update_changes \<Rightarrow> ('l, 'c, response) http" where
  "update_me app r payload =
     bind (require_current_session app r) (\<lambda>cx0.
     bind (calling (update_current_user cx0 payload) Unhandled) (\<lambda>cx.
     ok (json_response 200 no_store [] (auth_user_response (cx_user cx) (cx_roles cx) (cx_permissions cx)))))"

text \<open>\<open>str(error.retry_after_seconds or AUTH_RATE_LIMIT_WINDOW_SECONDS)\<close>\<close>

definition retry_after :: "('l, 'c) app \<Rightarrow> int \<Rightarrow> (string \<times> string) list" where
  "retry_after app n =
     [(''Retry-After'', str_loc (Loc_int (if n = 0 then AUTH_RATE_LIMIT_WINDOW_SECONDS (auth_settings_of app) else n)))]"

definition delete_me_error :: "('l, 'c) app \<Rightarrow> exn \<Rightarrow> http_error" where
  "delete_me_error app e =
     (case e of
        AccountDeletionConfirmationMismatchError \<Rightarrow>
          api_error 400 ''account_deletion_confirmation_mismatch'' ''Account deletion confirmation did not match''
      | AccountDeletionReauthRequiredError \<Rightarrow>
          api_error 400 ''account_deletion_reauth_required'' ''Password confirmation is required''
      | AccountDeletionInvalidPasswordError \<Rightarrow>
          api_error 400 ''account_deletion_invalid_password'' ''Password confirmation failed''
      | AccountDeletionOidcReauthRequiredError providers \<Rightarrow>
          HTTPException 400 ''account_deletion_oidc_reauth_required'' ''OIDC reauthentication is required'' [] []
            [(''providers'', JList (map (\<lambda>(i, n). JObj [(''provider_id'', JStr i), (''display_name'', JStr n)]) providers))]
      | RateLimitExceededError n \<Rightarrow>
          HTTPException 429 ''account_deletion_reauth_rate_limited'' ''Too many account deletion confirmation attempts''
            (retry_after app n) [] []
      | _ \<Rightarrow> Unhandled e)"

text \<open>The two cookies that an endpoint clears or sets.\<close>

definition signed_out :: "('l, 'c) app \<Rightarrow> ('l, 'c, response) http" where
  "signed_out app =
     bind (clear_session_cookie app []) (\<lambda>cs. bind (clear_csrf_cookie app cs) (\<lambda>cookies. ok (empty_response 204 cookies)))"

definition signed_in :: "('l, 'c) app \<Rightarrow> int \<Rightarrow> issued_session \<Rightarrow> ('l, 'c, response) http" where
  "signed_in app status issued =
     bind (set_session_cookie app (is_session_token issued) []) (\<lambda>cs.
     bind (set_csrf_cookie app (is_csrf_token issued) cs) (\<lambda>cookies.
     ok (json_response status [] cookies (auth_user_response (is_user issued) (is_roles issued) (is_permissions issued)))))"

definition delete_me :: "('l, 'c) app \<Rightarrow> request \<Rightarrow> string \<Rightarrow> string option \<Rightarrow> ('l, 'c, response) http" where
  "delete_me app r confirm_email password =
     bind (require_current_session app r) (\<lambda>cx.
     bind (get_client_ip app r) (\<lambda>ip.
     seq (calling (delete_account app cx confirm_email password ip (get_user_agent r)) (delete_me_error app))
       (signed_out app)))"

definition register_error :: "('l, 'c) app \<Rightarrow> exn \<Rightarrow> http_error" where
  "register_error app e =
     (case e of
        EmailAlreadyRegisteredError \<Rightarrow> api_error 409 ''email_already_registered'' ''Email already registered''
      | RateLimitExceededError n \<Rightarrow>
          HTTPException 429 ''register_rate_limited'' ''Too many register attempts'' (retry_after app n) [] []
      | WeakPasswordError _ \<Rightarrow> api_error 422 ''weak_password'' ''Password does not meet requirements''
      | _ \<Rightarrow> Unhandled e)"

definition register_endpoint :: "('l, 'c) app \<Rightarrow> request \<Rightarrow> string \<Rightarrow> string \<Rightarrow> string \<Rightarrow> ('l, 'c, response) http" where
  "register_endpoint app r email password language_code =
     bind (get_client_ip app r) (\<lambda>ip.
     bind (calling (register app email password language_code (session_cookie app r) ip (get_user_agent r)) (register_error app))
       (signed_in app 201))"

definition login_error :: "('l, 'c) app \<Rightarrow> exn \<Rightarrow> http_error" where
  "login_error app e =
     (case e of
        InvalidCredentialsError \<Rightarrow> api_error 401 ''invalid_credentials'' ''The email or password is incorrect.''
      | RateLimitExceededError n \<Rightarrow>
          HTTPException 429 ''login_rate_limited'' ''Too many login attempts'' (retry_after app n) [] []
      | _ \<Rightarrow> Unhandled e)"

definition login_endpoint :: "('l, 'c) app \<Rightarrow> request \<Rightarrow> string \<Rightarrow> string \<Rightarrow> ('l, 'c, response) http" where
  "login_endpoint app r email password =
     bind (get_client_ip app r) (\<lambda>ip.
     bind (calling (login app email password (session_cookie app r) ip (get_user_agent r)) (login_error app))
       (signed_in app 200))"

definition logout_endpoint :: "('l, 'c) app \<Rightarrow> request \<Rightarrow> ('l, 'c, response) http" where
  "logout_endpoint app r =
     bind (get_client_ip app r) (\<lambda>ip.
     seq (calling (logout app (session_cookie app r) ip (get_user_agent r)) Unhandled) (signed_out app))"

end
