(* ===== verification/Admin_User_Repository.thy ===== *)
theory Admin_User_Repository
  imports Authorization_Repository
begin

text \<open>
  \<open>AdminUserRepository\<close> (\<^verbatim>\<open>app/services/admin_user_repository.py\<close>), the search helpers of
  \<^verbatim>\<open>app/models/admin_query.py\<close> and the value classes of \<^verbatim>\<open>app/models/admin_user.py\<close> and
  \<^verbatim>\<open>app/models/admin_pagination.py\<close>.

  SQL's \<open>LIKE\<close> with the backslash as escape character is modelled by \<open>like_match\<close>. The main
  lemma says that an escaped search matches exactly the addresses that contain it literally.
\<close>

record admin_user_list_query =
  aq_search :: "string option"
  aq_is_active :: "bool option"
  aq_role :: "string option"

record admin_user_record =
  ar_user :: user
  ar_roles :: "string list"

record admin_user_detail =
  ad_user :: user
  ad_roles :: "string list"
  ad_permissions :: "string list"

record admin_user_update_changes =
  ch_email :: "string option"
  ch_password :: "string option"
  ch_is_active :: "bool option"
  ch_roles :: "string list option"
  ch_fields_set :: "string set"

record 'a admin_offset_page =
  pg_items :: "'a list"
  pg_total :: nat
  pg_offset :: nat
  pg_limit :: nat

subsection \<open>Search\<close>

definition normalize_admin_search :: "string option \<Rightarrow> nat \<Rightarrow> exn + string option" where
  "normalize_admin_search value max_length =
     (case value of
        None \<Rightarrow> Inr None
      | Some v \<Rightarrow>
          let normalized = strip v in
          if normalized = [] then Inr None
          else if length normalized > max_length then Inl (ValueError ''Search query is too long.'')
          else Inr (Some normalized))"

text \<open>\<open>str.replace\<close> of a single character.\<close>

definition replace_char :: "char \<Rightarrow> string \<Rightarrow> string \<Rightarrow> string" where
  "replace_char c r s = concat (map (\<lambda>x. if x = c then r else [x]) s)"

definition escape_like_search :: "string \<Rightarrow> string" where
  "escape_like_search value =
     (let e = CHR 0x5C in
      replace_char (CHR ''_'') [e, CHR ''_'']
        (replace_char (CHR ''%'') [e, CHR ''%'']
          (replace_char e [e, e] value)))"

fun like_match :: "string \<Rightarrow> string \<Rightarrow> bool" where
  "like_match [] t = (t = [])"
| "like_match (c # p) t =
     (if c = CHR ''%'' then like_match p t \<or> (case t of [] \<Rightarrow> False | _ # t' \<Rightarrow> like_match (c # p) t')
      else if c = CHR ''_'' then (case t of [] \<Rightarrow> False | _ # t' \<Rightarrow> like_match p t')
      else if c = CHR 0x5C then
        (case p of [] \<Rightarrow> False
         | e # p' \<Rightarrow> (case t of [] \<Rightarrow> False | x # t' \<Rightarrow> x = e \<and> like_match p' t'))
      else (case t of [] \<Rightarrow> False | x # t' \<Rightarrow> x = c \<and> like_match p t'))"

definition user_filters :: "database \<Rightarrow> admin_user_list_query \<Rightarrow> user \<Rightarrow> bool" where
  "user_filters d q u =
     (u_deleted_at u = None \<and>
      (case aq_search q of
         None \<Rightarrow> True
       | Some search \<Rightarrow> like_match (''%'' @ escape_like_search (lower search) @ ''%'') (lower (u_email u))) \<and>
      (case aq_is_active q of None \<Rightarrow> True | Some b \<Rightarrow> u_is_active u = b) \<and>
      (case aq_role q of
         None \<Rightarrow> True
       | Some code \<Rightarrow> list_ex (\<lambda>r. r_user_id r = u_id u \<and> r_role_code r = code) (user_roles d)))"

subsection \<open>Queries\<close>

definition role_codes_for_users :: "database \<Rightarrow> uuid list \<Rightarrow> uuid \<Rightarrow> string list" where
  "role_codes_for_users d ids uid =
     (if ids = [] then []
      else map r_role_code (filter (\<lambda>r. r_user_id r = uid)
             (sort_key (\<lambda>r. (r_user_id r, r_role_code r)) (filter (\<lambda>r. r_user_id r \<in> set ids) (user_roles d)))))"

definition admin_list_users ::
    "admin_user_list_query \<Rightarrow> nat \<Rightarrow> nat \<Rightarrow> ('l, 'c, admin_user_record admin_offset_page) prog" where
  "admin_list_users q offset limit =
     session_scope (query (\<lambda>d.
       let matching = filter (user_filters d q) (users d);
           page = take limit (drop offset (rev (sort_key (\<lambda>u. (u_registered_at u, u_id u)) matching)));
           roles = role_codes_for_users d (map u_id page)
       in \<lparr>pg_items = map (\<lambda>u. \<lparr>ar_user = u, ar_roles = roles (u_id u)\<rparr>) page,
           pg_total = length matching, pg_offset = offset, pg_limit = limit\<rparr>))"

definition admin_get_user :: "uuid \<Rightarrow> ('l, 'c, user option) prog" where
  "admin_get_user user_id =
     session_scope (query_one (\<lambda>d. filter (\<lambda>u. u_id u = user_id \<and> u_deleted_at u = None) (users d)))"

subsection \<open>Changes\<close>

definition admin_create_user_row :: "string \<Rightarrow> string \<Rightarrow> bool \<Rightarrow> ('l, 'c, user) prog" where
  "admin_create_user_row email password_hash is_active =
     session_scope (
       bind uuid4 (\<lambda>i. bind utcnow (\<lambda>registered_at. bind utcnow (\<lambda>modified_at.
       let u = \<lparr>u_id = i, u_email = email, u_password_hash = Some password_hash, u_is_active = is_active,
                u_language_code = DEFAULT_LANGUAGE_CODE, u_registered_at = trunc_ms registered_at,
                u_modified_at = trunc_ms modified_at, u_last_logged_in_at = None, u_deleted_at = None\<rparr> in
       seq (on_integrity_error (insert_user u) EmailAlreadyRegisteredError) (ok u)))))"

definition apply_email_change :: "admin_user_update_changes \<Rightarrow> user \<Rightarrow> exn + user" where
  "apply_email_change changes u =
     (if ''email'' \<in> ch_fields_set changes then
        (case ch_email changes of
           None \<Rightarrow> Inl (ValueError ''email cannot be None when included in fields_set'')
         | Some e \<Rightarrow> Inr (u\<lparr>u_email := e\<rparr>))
      else Inr u)"

definition apply_password_change :: "admin_user_update_changes \<Rightarrow> string option \<Rightarrow> user \<Rightarrow> exn + user" where
  "apply_password_change changes password_hash u =
     (if ''password'' \<in> ch_fields_set changes then
        (case password_hash of
           None \<Rightarrow> Inl (ValueError ''password_hash cannot be None when password is included'')
         | Some h \<Rightarrow> Inr (u\<lparr>u_password_hash := Some h\<rparr>))
      else Inr u)"

definition apply_active_change :: "admin_user_update_changes \<Rightarrow> user \<Rightarrow> exn + user" where
  "apply_active_change changes u =
     (if ''is_active'' \<in> ch_fields_set changes then
        (case ch_is_active changes of
           None \<Rightarrow> Inl (ValueError ''is_active cannot be None when included in fields_set'')
         | Some b \<Rightarrow> Inr (u\<lparr>u_is_active := b\<rparr>))
      else Inr u)"

definition admin_update_user_row ::
    "uuid \<Rightarrow> admin_user_update_changes \<Rightarrow> string option \<Rightarrow> ('l, 'c, user) prog" where
  "admin_update_user_row user_id changes password_hash =
     session_scope (
       bind (query_one (\<lambda>d. filter (\<lambda>u. u_id u = user_id \<and> u_deleted_at u = None) (users d))) (\<lambda>found. case found of
         None \<Rightarrow> raise (UserNotFoundError user_id)
       | Some u \<Rightarrow>
           bind (lift (sum_bind (apply_email_change changes u) (\<lambda>u1.
                       sum_bind (apply_password_change changes password_hash u1) (apply_active_change changes)))) (\<lambda>u'.
           bind utcnow (\<lambda>now.
           let g = (\<lambda>x. x\<lparr>u_email := u_email u', u_password_hash := u_password_hash u',
                          u_is_active := u_is_active u', u_modified_at := trunc_ms now\<rparr>) in
           seq (on_integrity_error (update_users (\<lambda>x. u_id x = user_id) g) EmailAlreadyRegisteredError)
             (ok (g u))))))"

subsection \<open>The invariant is kept\<close>

lemma keeps_admin_queries [keeps_intros]:
  "keeps (winv P L) (admin_list_users q off n)" "keeps (winv P L) (admin_get_user uid)"
  unfolding admin_list_users_def admin_get_user_def by (intro keeps_intros)+

lemma wp_admin_create_user_live:
  assumes "winv (app_inv S X) L s"
  shows "wp (admin_create_user_row email ph act) (\<lambda>u. winv (app_inv S (insert (u_id u) X)) L)
           (\<lambda>_. winv (app_inv S X) L) s"
  using assms
  by (auto simp: admin_create_user_row_def insert_user_def wp_session_scope wp_simps Let_def winv_def
      dest: app_inv_insert_user)

lemma keeps_admin_update_user_row [keeps_intros]:
  "keeps (winv (app_inv S X) L) (admin_update_user_row uid ch ph)"
  unfolding admin_update_user_row_def Let_def
  by (intro keeps_intros keeps_update_users) auto

lemma admin_update_user_row_live:
  assumes "winv (app_inv S X) L s"
  shows "wp (admin_update_user_row uid ch ph) (\<lambda>u t. winv (app_inv S (insert uid X)) L t \<and> u_id u = uid)
           (\<lambda>_. winv (app_inv S X) L) s"
proof -
  have "wp (admin_update_user_row uid ch ph) (\<lambda>_. winv (app_inv S X) L) (\<lambda>_. winv (app_inv S X) L) s"
    by (rule keeps_wp [OF keeps_admin_update_user_row assms])
  moreover have "wp (admin_update_user_row uid ch ph) (\<lambda>u t. uid \<in> live_ids (w_db t) \<and> u_id u = uid) (\<lambda>_ _. True) s"
    by (auto simp: admin_update_user_row_def update_users_def wp_session_scope wp_simps Let_def live_dead_update
        split: list.splits sum.splits intro: live_idsI dest!: filter_one_iff)
  ultimately show ?thesis
    by (rule wp_mono [OF wp_conj]) (auto simp: winv_def app_inv_def)
qed

subsection \<open>Searching is literal\<close>

lemma replace_char_Cons:
  "replace_char c r (x # s) = (if x = c then r else [x]) @ replace_char c r s"
  "replace_char c r [] = []"
  by (simp_all add: replace_char_def)

lemma escape_like_Cons:
  "escape_like_search (x # s) =
     (if x = CHR 0x5C \<or> x = CHR ''%'' \<or> x = CHR ''_'' then [CHR 0x5C, x] else [x]) @ escape_like_search s"
  "escape_like_search [] = []"
  by (simp_all add: escape_like_search_def Let_def replace_char_Cons)

lemma like_escaped_prefix:
  "like_match (escape_like_search v @ p) t \<longleftrightarrow> startswith t v \<and> like_match p (drop (length v) t)"
proof (induction v arbitrary: t)
  case (Cons x v)
  show ?case
  proof (cases t)
    case Nil
    then show ?thesis by (auto simp: escape_like_Cons startswith_def)
  next
    case (Cons y t')
    with Cons.IH show ?thesis by (auto simp: escape_like_Cons startswith_def)
  qed
qed (simp add: escape_like_Cons startswith_def)

lemma like_percent_end: "like_match ''%'' t"
  by (induction t) auto

lemma like_percent: "like_match (CHR ''%'' # p) t \<longleftrightarrow> (\<exists>n \<le> length t. like_match p (drop n t))"
proof (induction t)
  case (Cons x t)
  have "(\<exists>n \<le> length (x # t). like_match p (drop n (x # t))) \<longleftrightarrow>
      like_match p (x # t) \<or> (\<exists>n \<le> length t. like_match p (drop n t))" (is "?l = ?r")
  proof
    assume ?l
    then obtain n where "n \<le> length (x # t)" "like_match p (drop n (x # t))" by blast
    then show ?r by (cases n) auto
  next
    assume ?r
    then show ?l
    proof
      assume "like_match p (x # t)" then show ?l by (intro exI [of _ 0]) simp
    next
      assume "\<exists>n \<le> length t. like_match p (drop n t)"
      then obtain n where "n \<le> length t" "like_match p (drop n t)" by blast
      then show ?l by (intro exI [of _ "Suc n"]) simp
    qed
  qed
  with Cons.IH show ?case by simp
qed simp

lemma contains_drop: "contains t v \<longleftrightarrow> (\<exists>n \<le> length t. startswith (drop n t) v)"
proof (induction t)
  case (Cons x t)
  show ?case
  proof
    assume "contains (x # t) v"
    then consider "startswith (x # t) v" | "contains t v" by auto
    then show "\<exists>n \<le> length (x # t). startswith (drop n (x # t)) v"
    proof cases
      case 1 then show ?thesis by (intro exI [of _ 0]) simp
    next
      case 2
      with Cons.IH obtain n where "n \<le> length t" "startswith (drop n t) v" by blast
      then show ?thesis by (intro exI [of _ "Suc n"]) simp
    qed
  next
    assume "\<exists>n \<le> length (x # t). startswith (drop n (x # t)) v"
    then obtain n where "n \<le> length (x # t)" "startswith (drop n (x # t)) v" by blast
    with Cons.IH show "contains (x # t) v" by (cases n) auto
  qed
qed (auto simp: startswith_def)

lemma like_search_contains:
  "like_match (''%'' @ escape_like_search v @ ''%'') t \<longleftrightarrow> contains t v"
proof -
  have "like_match (''%'' @ escape_like_search v @ ''%'') t \<longleftrightarrow>
      (\<exists>n \<le> length t. like_match (escape_like_search v @ ''%'') (drop n t))"
    by (simp only: append_Cons append_Nil like_percent)
  then show ?thesis by (simp only: like_escaped_prefix like_percent_end contains_drop simp_thms)
qed

text \<open>
  C39: a search is literal. Whatever wildcards or escapes the administrator types, the escaped
  pattern selects exactly the users, not deleted, whose address contains the typed text,
  regardless of case.
\<close>

theorem search_is_literal:
  "user_filters d \<lparr>aq_search = Some search, aq_is_active = None, aq_role = None\<rparr> u \<longleftrightarrow>
     u_deleted_at u = None \<and> contains (lower (u_email u)) (lower search)"
  by (simp only: user_filters_def like_search_contains admin_user_list_query.select_convs option.case simp_thms)

definition newest_first :: "user list \<Rightarrow> user list" where
  "newest_first us = rev (sort_key (\<lambda>u. (u_registered_at u, u_id u)) us)"

lemma admin_list_users_run:
  assumes "admin_list_users q off n s = (Inr p, s')"
  shows "map ar_user (pg_items p) = take n (drop off (newest_first (filter (user_filters (w_db s) q) (users (w_db s)))))"
    and "pg_total p = length (filter (user_filters (w_db s) q) (users (w_db s)))"
proof -
  have "wp (admin_list_users q off n)
     (\<lambda>p _. map ar_user (pg_items p) = take n (drop off (newest_first (filter (user_filters (w_db s) q) (users (w_db s)))))
        \<and> pg_total p = length (filter (user_filters (w_db s) q) (users (w_db s)))) (\<lambda>_ _. True) s"
    by (auto simp: admin_list_users_def wp_session_scope wp_simps Let_def newest_first_def comp_def)
  from wp_Ok [OF this assms]
  show "map ar_user (pg_items p) = take n (drop off (newest_first (filter (user_filters (w_db s) q) (users (w_db s)))))"
    and "pg_total p = length (filter (user_filters (w_db s) q) (users (w_db s)))" by simp_all
qed

lemma newest_first_props:
  "set (newest_first us) = set us" "distinct us \<Longrightarrow> distinct (newest_first us)"
  "length (newest_first us) = length us"
  "sorted_wrt (\<lambda>a b. (u_registered_at a, u_id a) \<ge> (u_registered_at b, u_id b)) (newest_first us)"
proof -
  have "sorted (map (\<lambda>u. (u_registered_at u, u_id u)) (sort_key (\<lambda>u. (u_registered_at u, u_id u)) us))" by simp
  then show "sorted_wrt (\<lambda>a b. (u_registered_at a, u_id a) \<ge> (u_registered_at b, u_id b)) (newest_first us)"
    by (simp only: newest_first_def sorted_wrt_rev sorted_map)
qed (simp_all add: newest_first_def)

text \<open>
  Pages of the user list do not overlap and leave nothing out. Two consecutive pages share
  no user, are ordered newest first across the page boundary, and when they start at the
  beginning and reach the total they hold every matching user.
\<close>

theorem admin_pages_partition:
  assumes ok: "db_ok (w_db s)" and p1: "admin_list_users q off n s = (Inr p1, s1)"
    and p2: "admin_list_users q (off + n) m s = (Inr p2, s2)"
  shows "set (map ar_user (pg_items p1)) \<inter> set (map ar_user (pg_items p2)) = {}
    \<and> sorted_wrt (\<lambda>a b. (u_registered_at a, u_id a) \<ge> (u_registered_at b, u_id b))
        (map ar_user (pg_items p1) @ map ar_user (pg_items p2))
    \<and> (off = 0 \<and> pg_total p1 \<le> n + m \<longrightarrow>
        set (map ar_user (pg_items p1)) \<union> set (map ar_user (pg_items p2)) =
        {u \<in> set (users (w_db s)). user_filters (w_db s) q u})"
proof -
  define us where "us = newest_first (filter (user_filters (w_db s) q) (users (w_db s)))"
  note r1 = admin_list_users_run [OF p1, folded us_def] and r2 = admin_list_users_run [OF p2, folded us_def]
  have "distinct (users (w_db s))" using db_ok_distinct(1) [OF ok] by (simp add: distinct_map)
  then have dist: "distinct us" unfolding us_def by (simp add: newest_first_props)
  have both: "map ar_user (pg_items p1) @ map ar_user (pg_items p2) = take (n + m) (drop off us)"
    using r1(1) r2(1) by (simp add: take_add add.commute [of off n])
  then have "distinct (map ar_user (pg_items p1) @ map ar_user (pg_items p2))"
    using dist by (simp only: distinct_take distinct_drop)
  then have "set (map ar_user (pg_items p1)) \<inter> set (map ar_user (pg_items p2)) = {}"
    by (simp only: distinct_append)
  moreover have "sorted_wrt (\<lambda>a b. (u_registered_at a, u_id a) \<ge> (u_registered_at b, u_id b))
        (map ar_user (pg_items p1) @ map ar_user (pg_items p2))"
    unfolding both us_def by (intro sorted_wrt_take sorted_wrt_drop newest_first_props)
  moreover have "set (map ar_user (pg_items p1)) \<union> set (map ar_user (pg_items p2)) =
        {u \<in> set (users (w_db s)). user_filters (w_db s) q u}" if "off = 0 \<and> pg_total p1 \<le> n + m"
  proof -
    have "take (n + m) (drop off us) = us" using that r1(2) by (simp add: us_def newest_first_props)
    then have "set (map ar_user (pg_items p1) @ map ar_user (pg_items p2)) = set us" using both by (simp only:)
    then show ?thesis by (simp only: set_append us_def newest_first_props set_filter)
  qed
  ultimately show ?thesis by blast
qed

lemma admin_pages_partition_witness:
  "\<exists>p1 p2 s1 s2. admin_list_users \<lparr>aq_search = Some ''EXAMPLE'', aq_is_active = None, aq_role = None\<rparr> 0 1
        (demo_world () ()) = (Inr p1, s1)
     \<and> admin_list_users \<lparr>aq_search = Some ''EXAMPLE'', aq_is_active = None, aq_role = None\<rparr> (0 + 1) 1
        (demo_world () ()) = (Inr p2, s2)
     \<and> set (map ar_user (pg_items p1)) \<inter> set (map ar_user (pg_items p2)) = {}"
proof -
  let ?q = "\<lparr>aq_search = Some ''EXAMPLE'', aq_is_active = None, aq_role = None\<rparr>"
  have run: "\<exists>p s'. admin_list_users ?q off n (demo_world () ()) = (Inr p, s')" for off n
    by (simp add: admin_list_users_def session_scope_def query_def gets_def demo_world_def)
  obtain p1 s1 where p1: "admin_list_users ?q 0 1 (demo_world () ()) = (Inr p1, s1)" using run by blast
  obtain p2 s2 where p2: "admin_list_users ?q (0 + 1) 1 (demo_world () ()) = (Inr p2, s2)" using run by blast
  have "db_ok (w_db (demo_world () ()))"
    using app_invD(1) [OF demo_database_inv] by (simp add: demo_world_def)
  from admin_pages_partition [OF this p1 p2] p1 p2 show ?thesis by blast
qed

end
