(* ===== verification/Admin_User_Usecase.thy ===== *)
theory Admin_User_Usecase
  imports Admin_User_Repository Account_Deletion
begin

text \<open>
  \<open>AdminUserUsecase\<close> (\<^verbatim>\<open>app/usecases/admin_user_usecase.py\<close>): listing, creating, changing and deleting
  accounts by an administrator. Every change is one transaction together with its audit entries.
\<close>

definition resolve_logged :: "uuid \<Rightarrow> string list \<Rightarrow> ('l, 'c, user_authorization) prog" where
  "resolve_logged user_id role_codes =
     (case resolve_user_authorization user_id role_codes of
        (authorization, None) \<Rightarrow> ok authorization
      | (authorization, Some (uid, unknown)) \<Rightarrow>
          seq (log_warning (Unknown_roles_ignored uid unknown)) (ok authorization))"

definition known_role_codes :: "uuid \<Rightarrow> string list \<Rightarrow> ('l, 'c, string list) prog" where
  "known_role_codes user_id role_codes =
     bind (resolve_logged user_id role_codes) (\<lambda>authorization. ok (sorted_strings (ua_roles authorization)))"

definition detail_for_user :: "user \<Rightarrow> ('l, 'c, admin_user_detail) prog" where
  "detail_for_user user =
     bind (get_user_role_codes (u_id user)) (\<lambda>role_codes.
     bind (resolve_logged (u_id user) role_codes) (\<lambda>authorization.
     ok \<lparr>ad_user = user, ad_roles = sorted_strings (ua_roles authorization),
         ad_permissions = sorted_strings (ua_permissions authorization)\<rparr>))"

definition hash_valid_password :: "('l, 'c) app \<Rightarrow> string \<Rightarrow> ('l, 'c, string) prog" where
  "hash_valid_password app password =
     (let (is_valid_password, error_message) = validate_password_policy password in
      if \<not> is_valid_password
      then raise (WeakPasswordError (case truthy error_message of None \<Rightarrow> ''Invalid password'' | Some m \<Rightarrow> m))
      else hash_password app password)"

definition replace_roles_with_audit ::
    "session_context \<Rightarrow> uuid \<Rightarrow> string list \<Rightarrow> string option \<Rightarrow> string option \<Rightarrow> ('l, 'c, unit) prog" where
  "replace_roles_with_audit actor_context target_user_id role_codes ip_address user_agent =
     bind (replace_user_roles target_user_id role_codes (Some (u_id (cx_user actor_context)))) (\<lambda>result.
     seq (for_each (rr_granted_role_codes result) (\<lambda>role_code.
            record_role_audit actor_context target_user_id ROLE_GRANTED role_code
              (rr_current_role_codes result) ip_address user_agent))
       (for_each (rr_revoked_role_codes result) (\<lambda>role_code.
            record_role_audit actor_context target_user_id ROLE_REVOKED role_code
              (rr_current_role_codes result) ip_address user_agent)))"

definition validate_roles :: "string list \<Rightarrow> exn + unit" where
  "validate_roles role_codes =
     (if missing_role_codes role_codes \<noteq> {} then Inl (RoleNotFoundError (missing_role_codes role_codes)) else Inr ())"

definition normalize_and_validate_roles :: "string list \<Rightarrow> exn + string list" where
  "normalize_and_validate_roles role_codes =
     (let normalized = fromkeys role_codes in
      case validate_roles normalized of Inl e \<Rightarrow> Inl e | Inr _ \<Rightarrow> Inr normalized)"

definition audit_fields :: "string set \<Rightarrow> string list" where
  "audit_fields fields_set = filter (\<lambda>f. f \<in> fields_set) [''email'', ''password'', ''is_active'', ''roles'']"

definition admin_audit ::
    "session_context \<Rightarrow> auth_event_type \<Rightarrow> uuid \<Rightarrow> (string \<times> json) list \<Rightarrow> string option \<Rightarrow> string option
      \<Rightarrow> ('l, 'c, unit) prog" where
  "admin_audit actor_context event_type target_user_id extra ip_address user_agent =
     audit (Some (u_id (cx_user actor_context))) (Some (s_id (cx_session actor_context))) event_type
       ip_address user_agent
       (Some ([(''actor_user_id'', JStr (str_uuid (u_id (cx_user actor_context)))),
               (''target_user_id'', JStr (str_uuid target_user_id))] @ extra))"

fun known_records :: "admin_user_record list \<Rightarrow> ('l, 'c, admin_user_record list) prog" where
  "known_records [] = ok []"
| "known_records (record # records) =
     bind (known_role_codes (u_id (ar_user record)) (ar_roles record)) (\<lambda>roles.
     bind (known_records records) (\<lambda>rest.
     ok (\<lparr>ar_user = ar_user record, ar_roles = roles\<rparr> # rest)))"

definition usecase_list_users ::
    "admin_user_list_query \<Rightarrow> nat \<Rightarrow> nat \<Rightarrow> ('l, 'c, admin_user_record admin_offset_page) prog" where
  "usecase_list_users q offset limit =
     seq (case aq_role q of None \<Rightarrow> ok () | Some role \<Rightarrow> lift (validate_roles [role]))
    (bind (admin_list_users q offset limit) (\<lambda>result.
     bind (known_records (pg_items result)) (\<lambda>items.
     ok \<lparr>pg_items = items, pg_total = pg_total result, pg_offset = pg_offset result, pg_limit = pg_limit result\<rparr>)))"

definition usecase_create_user ::
    "('l, 'c) app \<Rightarrow> session_context \<Rightarrow> string \<Rightarrow> string \<Rightarrow> bool \<Rightarrow> string list \<Rightarrow> string option \<Rightarrow> string option
      \<Rightarrow> ('l, 'c, admin_user_detail) prog" where
  "usecase_create_user app actor_context email password is_active roles ip_address user_agent =
     (let normalized_email = normalize_email email in
      bind (lift (normalize_and_validate_roles roles)) (\<lambda>normalized_roles.
      bind (hash_valid_password app password) (\<lambda>password_hash.
      transaction (
        bind (admin_create_user_row normalized_email password_hash is_active) (\<lambda>user.
        seq (admin_audit actor_context USER_CREATED_BY_ADMIN (u_id user)
               [(''changed_fields'', JList (map JStr [''email'', ''password'', ''is_active'', ''roles'']))]
               ip_address user_agent)
       (seq (replace_roles_with_audit actor_context (u_id user) normalized_roles ip_address user_agent)
         (detail_for_user user)))))))"

definition usecase_get_user :: "uuid \<Rightarrow> ('l, 'c, admin_user_detail) prog" where
  "usecase_get_user user_id =
     bind (admin_get_user user_id) (\<lambda>user. case user of
       None \<Rightarrow> raise (UserNotFoundError user_id)
     | Some u \<Rightarrow> detail_for_user u)"

text \<open>\<open>roles\<close> and \<open>password\<close> of the changes, validated.\<close>

definition changed_roles :: "admin_user_update_changes \<Rightarrow> exn + string list option" where
  "changed_roles changes =
     (if ''roles'' \<in> ch_fields_set changes then
        (case ch_roles changes of
           None \<Rightarrow> Inl (ValueError ''roles cannot be None when included in fields_set'')
         | Some rs \<Rightarrow> (case normalize_and_validate_roles rs of Inl e \<Rightarrow> Inl e | Inr r \<Rightarrow> Inr (Some r)))
      else Inr None)"

definition changed_password ::
    "('l, 'c) app \<Rightarrow> admin_user_update_changes \<Rightarrow> ('l, 'c, string option) prog" where
  "changed_password app changes =
     (if ''password'' \<in> ch_fields_set changes then
        (case ch_password changes of
           None \<Rightarrow> raise (ValueError ''password cannot be None when included in fields_set'')
         | Some p \<Rightarrow> bind (hash_valid_password app p) (\<lambda>h. ok (Some h)))
      else ok None)"

definition usecase_update_user ::
    "('l, 'c) app \<Rightarrow> session_context \<Rightarrow> uuid \<Rightarrow> admin_user_update_changes \<Rightarrow> string option \<Rightarrow> string option
      \<Rightarrow> ('l, 'c, admin_user_detail) prog" where
  "usecase_update_user app actor_context user_id changes ip_address user_agent =
     (if ch_fields_set changes = {} then usecase_get_user user_id
      else
      bind (lift (changed_roles changes)) (\<lambda>normalized_roles.
      bind (changed_password app changes) (\<lambda>password_hash.
      let normalized_changes = \<lparr>ch_email = map_option normalize_email (ch_email changes),
            ch_password = ch_password changes, ch_is_active = ch_is_active changes,
            ch_roles = normalized_roles, ch_fields_set = ch_fields_set changes\<rparr>
      in
      bind utcnow (\<lambda>revoked_at.
      transaction (
        bind (admin_update_user_row user_id normalized_changes password_hash) (\<lambda>user.
        seq (case normalized_roles of
               None \<Rightarrow> ok ()
             | Some roles \<Rightarrow> replace_roles_with_audit actor_context (u_id user) roles ip_address user_agent)
       (seq (only_if (''password'' \<in> ch_fields_set changes \<or>
                      (''is_active'' \<in> ch_fields_set changes \<and> ch_is_active changes = Some False))
               (bind (revoke_sessions_for_user (u_id user) revoked_at) (\<lambda>_. ok ())))
       (seq (admin_audit actor_context USER_UPDATED_BY_ADMIN (u_id user)
               [(''changed_fields'', JList (map JStr (audit_fields (ch_fields_set changes))))] ip_address user_agent)
         (detail_for_user user)))))))))"

definition usecase_delete_user ::
    "session_context \<Rightarrow> uuid \<Rightarrow> string option \<Rightarrow> string option \<Rightarrow> ('l, 'c, unit) prog" where
  "usecase_delete_user actor_context user_id ip_address user_agent =
     bind (admin_get_user user_id) (\<lambda>user. case user of
       None \<Rightarrow> raise (UserNotFoundError user_id)
     | Some u \<Rightarrow>
         bind utcnow (\<lambda>deleted_at.
         transaction (
           seq (erase_user (u_id u) deleted_at (Some (s_id (cx_session actor_context))) ip_address)
             (admin_audit actor_context USER_DELETED_BY_ADMIN (u_id u) [] ip_address user_agent))))"

subsection \<open>The invariant is kept\<close>

lemma keeps_resolve_logged [keeps_intros]: "keeps (winv P L) (resolve_logged uid codes)"
  unfolding resolve_logged_def
  by (auto split: prod.splits option.splits intro: keeps_intros)

lemma keeps_admin_reads [keeps_intros]:
  "keeps (winv P L) (known_role_codes uid codes)" "keeps (winv P L) (detail_for_user u)"
  "keeps (winv P L) (hash_valid_password app pw)" "keeps (winv P L) (changed_password app ch)"
  unfolding known_role_codes_def detail_for_user_def changed_password_def hash_valid_password_def Let_def
  by (intro keeps_intros)+

lemma keeps_known_records [keeps_intros]: "keeps (winv P L) (known_records rs)"
  by (induction rs) (auto intro!: keeps_intros)

lemma keeps_usecase_reads [keeps_intros]:
  "keeps (winv P L) (usecase_list_users q off n)" "keeps (winv P L) (usecase_get_user uid)"
  unfolding usecase_list_users_def usecase_get_user_def by (intro keeps_intros)+

lemma keeps_admin_audit [keeps_intros]: "keeps (winv (app_inv S X) L) (admin_audit cx ev uid extra ip ua)"
  unfolding admin_audit_def by (intro keeps_intros)

lemma keeps_replace_roles_with_audit:
  "uid \<in> X \<Longrightarrow> keeps (winv (app_inv S X) L) (replace_roles_with_audit cx uid codes ip ua)"
  unfolding replace_roles_with_audit_def by (intro keeps_intros keeps_replace_user_roles)

lemma keeps_usecase_create_user [keeps_intros]:
  "keeps (winv (app_inv S X) L) (usecase_create_user app cx em pw act roles ip ua)"
proof -
  have created: "keeps (winv (app_inv S X) L) (bind (admin_create_user_row e ph act) f)"
    if "\<And>u. keeps (winv (app_inv S (insert (u_id u) X)) L) (f u)" for e ph f
    by (rule keeps_bind_live [where Y = "\<lambda>u. insert (u_id u) X"])
      (use that wp_admin_create_user_live in blast)+
  show ?thesis
    unfolding usecase_create_user_def Let_def
    by (intro keeps_intros created keeps_replace_roles_with_audit) simp_all
qed

lemma keeps_usecase_update_user [keeps_intros]:
  "keeps (winv (app_inv S X) L) (usecase_update_user app cx uid ch ip ua)"
proof -
  have updated: "keeps (winv (app_inv S X) L) (bind (admin_update_user_row uid ch' ph) f)"
    if "\<And>u. keeps (winv (app_inv S (insert (u_id u) X)) L) (f u)" for ch' ph f
    by (rule keeps_bind_live [where Y = "\<lambda>u. insert (u_id u) X"])
      (use admin_update_user_row_live in \<open>blast intro: wp_mono that\<close>)+
  show ?thesis
    unfolding usecase_update_user_def Let_def
    by (intro keeps_intros updated keeps_replace_roles_with_audit) simp_all
qed


lemma usecase_delete_user_inv:
  assumes inv: "winv (app_inv S X) L s" and tx: "\<not> w_in_tx s"
  shows "winv (app_inv S {}) L (snd (usecase_delete_user cx uid ip ua s))"
proof -
  let ?I = "winv (app_inv S {}) L"
  have I: "?I s" using inv by (rule winv_subset) simp
  have ok: "db_ok (w_db s)" using inv by (simp add: winv_def app_inv_def)
  have body: "wp (seq (erase_user v t si ip) (admin_audit cx USER_DELETED_BY_ADMIN v [] ip ua)) (\<lambda>_. ?I) (\<lambda>_ u. L (w_lim u)) u"
    if "?I u" for v t si u
    unfolding wp_seq
    by (rule wp_mono [OF wp_erase_user [OF that]], rule wp_mono [OF keeps_wp [OF keeps_admin_audit]]) (auto dest: winvD)
  have "wp (transaction (seq (erase_user v t si ip) (admin_audit cx USER_DELETED_BY_ADMIN v [] ip ua))) (\<lambda>_. ?I) (\<lambda>_. ?I)
      (s\<lparr>w_clock_n := n\<rparr>)" for v t si n
    using tx I by (simp add: wp_transaction) (rule wp_mono [OF body], auto simp: winv_def)
  then have "wp (usecase_delete_user cx uid ip ua) (\<lambda>_. ?I) (\<lambda>_. ?I) s"
    unfolding usecase_delete_user_def admin_get_user_def wp_bind
    by (subst wp_scoped_query_unique [where rows = users and f = u_id and k = uid])
      (use db_ok_distinct(1) [OF ok] I in \<open>auto simp: wp_raise wp_bind wp_utcnow\<close>)
  then show ?thesis by (simp add: wp_same)
qed

subsection \<open>What the changes do\<close>

lemma wp_admin_update_row_id:
  "wp (admin_update_user_row uid ch ph) (\<lambda>u _. u_id u = uid) (\<lambda>_ _. True) s"
  by (auto simp: admin_update_user_row_def update_users_def wp_session_scope wp_simps Let_def
      split: list.splits sum.splits dest!: filter_one_iff)

lemma wp_revoke_all:
  "wp (bind (revoke_sessions_for_user uid t) (\<lambda>_. ok ())) (\<lambda>_ s. all_revoked uid (w_db s)) (\<lambda>_ _. True) s"
  unfolding wp_discard revoke_sessions_for_user_def update_sessions_def Let_def
  by (auto simp: wp_session_scope wp_simps all_revoked_revoke)

lemma keeps_all_revoked:
  "keeps (winv (all_revoked uid) (\<lambda>_. True)) (admin_audit cx ev v extra ip ua)"
  unfolding admin_audit_def audit_def create_audit_log_def insert_audit_log_def
  by (intro keeps_intros keeps_statement) (simp_all add: all_revoked_def)

lemma usecase_update_revokes:
  assumes "''password'' \<in> ch_fields_set ch \<or> (''is_active'' \<in> ch_fields_set ch \<and> ch_is_active ch = Some False)"
  shows "wp (usecase_update_user app cx uid ch ip ua) (\<lambda>_ t. all_revoked uid (w_db t)) (\<lambda>_ _. True) s"
proof -
  let ?A = "\<lambda>_ t. all_revoked uid (w_db t)"
  have ne: "ch_fields_set ch \<noteq> {}" using assms by auto
  have last: "wp (seq (admin_audit cx ev v extra ip ua) (detail_for_user u)) ?A (\<lambda>_ _. True) t"
    if "all_revoked uid (w_db t)" for ev v extra u and t :: "('a, 'b) world"
  proof (rule wp_seqI [where R = "\<lambda>_. winv (all_revoked uid) (\<lambda>_. True)"])
    show "wp (admin_audit cx ev v extra ip ua) (\<lambda>_. winv (all_revoked uid) (\<lambda>_. True)) (\<lambda>_ _. True) t"
      by (rule wp_mono [OF keeps_wp [OF keeps_all_revoked]]) (simp_all add: winv_def that)
    show "wp (detail_for_user u) ?A (\<lambda>_ _. True) t'" if "winv (all_revoked uid) (\<lambda>_. True) t'" for t' :: "('a, 'b) world"
      by (rule wp_mono [OF keeps_wp [OF keeps_admin_reads(2) that]]) (simp_all add: winv_def)
  qed
  have tx: "wp (transaction (bind (admin_update_user_row uid ch' ph) (\<lambda>user.
        seq (f user) (seq (only_if True (bind (revoke_sessions_for_user (u_id user) r) (\<lambda>_. ok ())))
          (seq (admin_audit cx ev (u_id user) extra ip ua) (detail_for_user user)))))) ?A (\<lambda>_ _. True) t"
    for ch' ph f r ev extra and t :: "('a, 'b) world"
    by (rule wp_transactionI, rule wp_bindI [OF wp_admin_update_row_id], rule wp_seqI [where R = "\<lambda>_ _. True"], simp,
        simp only: only_if_def if_True, rule wp_seqI [where R = ?A], simp_all add: wp_revoke_all last)
  show ?thesis
    unfolding usecase_update_user_def Let_def
    using ne assms
    by (simp, intro wp_bindI [where R = "\<lambda>_ _. True"]) (simp_all add: tx)
qed


text \<open>
  C23: resetting a password or deactivating an account ends its sessions. When the change
  returns, no token authenticates as that account any more, whoever holds it.
\<close>

theorem admin_update_locks_out:
  fixes s s' :: "('l, 'c) world"
  assumes inv: "app_inv (auth_settings_of app) {} (w_db s)"
    and r: "usecase_update_user app actor uid changes ip ua s = (Inr detail, s')"
    and change: "''password'' \<in> ch_fields_set changes \<or>
      (''is_active'' \<in> ch_fields_set changes \<and> ch_is_active changes = Some False)"
    and tok: "token \<noteq> []"
    and a: "authenticate_session app (Some token) ip' ua' s' = (Inr (Some cx), s'')"
  shows "u_id (cx_user cx) \<noteq> uid"
proof -
  have "winv (app_inv (auth_settings_of app) {}) (\<lambda>_. True) s" using inv by (simp add: winv_def)
  from keepsD [OF keeps_usecase_update_user this, of app actor uid changes ip ua] r have ok': "db_ok (w_db s')"
    by (simp add: winv_def app_inv_def)
  have rev: "all_revoked uid (w_db s')" by (rule wp_Ok [OF usecase_update_revokes [OF change] r])
  from authenticate_exact [OF ok' tok] a obtain x u where x: "authenticates app s' token x u" and "cx_user cx = u" by blast
  moreover have "s_user_id x \<noteq> uid" using rev x by (auto simp: all_revoked_def authenticates_def session_in_force_def)
  ultimately show ?thesis by (simp add: authenticates_def)
qed

definition demo_reset :: admin_user_update_changes where
  "demo_reset = \<lparr>ch_email = None, ch_password = Some ''another long password'', ch_is_active = None,
     ch_roles = None, ch_fields_set = {''password''}\<rparr>"

lemma admin_update_locks_out_witness:
  "\<exists>detail s'. usecase_update_user (demo_app in_memory_ops) demo_context 1 demo_reset (Some ''10.0.0.1'') None demo_running = (Inr detail, s')
     \<and> (\<forall>cx s''. authenticate_session (demo_app in_memory_ops) (Some ''tok'') None None s' = (Inr (Some cx), s'') \<longrightarrow> u_id (cx_user cx) \<noteq> 1)"
proof -
  have inv: "app_inv (auth_settings_of (demo_app in_memory_ops)) {} (w_db demo_running)"
    using app_inv_subset [OF demo_database_inv] by (simp add: demo_world_def demo_app_def)
  have "case usecase_update_user (demo_app in_memory_ops) demo_context 1 demo_reset (Some ''10.0.0.1'') None demo_running
    of (Inl e, s') \<Rightarrow> False | (Inr r, s') \<Rightarrow> True" by code_simp
  then obtain detail s' where r: "usecase_update_user (demo_app in_memory_ops) demo_context 1 demo_reset (Some ''10.0.0.1'') None demo_running = (Inr detail, s')"
    by (auto split: prod.splits sum.splits)
  have c: "''password'' \<in> ch_fields_set demo_reset \<or> (''is_active'' \<in> ch_fields_set demo_reset \<and> ch_is_active demo_reset = Some False)"
    by (simp add: demo_reset_def)
  show ?thesis using r admin_update_locks_out [OF inv r c, of "''tok''" None None] by blast
qed

lemma usecase_delete_user_spec:
  fixes s :: "('l, 'c) world"
  assumes ok: "db_ok (w_db s)"
  shows "wp (usecase_delete_user actor uid ip ua)
     (\<lambda>_ t. uid \<in> live_ids (w_db s) \<and> erased uid (w_db t) \<and> others_same uid (w_db s) (w_db t)) (\<lambda>_ _. True) s"
proof -
  let ?G = "\<lambda>d. erased uid d \<and> others_same uid (w_db s) d"
  have aud: "keeps (winv ?G (\<lambda>_. True)) (admin_audit actor ev v extra ip ua)" for ev v extra
    unfolding admin_audit_def audit_def create_audit_log_def insert_audit_log_def
    by (intro keeps_intros keeps_statement)
      (simp_all add: erased_def others_same_def all_revoked_def roles_of_def)
  have body: "wp (seq (erase_user uid t si ip) (admin_audit actor ev v extra ip ua)) (\<lambda>_ u. ?G (w_db u)) (\<lambda>_ _. True) u"
    if "w_db u = w_db s" for t si ev v extra and u :: "('l, 'c) world"
    by (rule wp_seqI [OF wp_erase_effect], rule wp_mono [OF keeps_wp [OF aud]]) (simp_all add: winv_def that)
  have tx: "wp (transaction (seq (erase_user uid t si ip) (admin_audit actor ev v extra ip ua))) (\<lambda>_ u. ?G (w_db u)) (\<lambda>_ _. True) u"
    if "w_db u = w_db s" for t si ev v extra and u :: "('l, 'c) world"
    by (rule wp_transactionI, rule body) (simp_all add: that)
  let ?P = "\<lambda>u. u_id u = uid \<and> u_deleted_at u = None"
  have q: "wp (session_scope (query_one (\<lambda>d. filter ?P (users d)))) Q E s \<longleftrightarrow>
      (if \<exists>x \<in> set (users (w_db s)). ?P x then \<exists>x \<in> set (users (w_db s)). ?P x \<and> Q (Some x) s else Q None s)" for Q E
    by (rule wp_scoped_query_unique [where f = u_id and k = uid]) (use db_ok_distinct(1) [OF ok] in auto)
  show ?thesis
  proof (cases "\<exists>x \<in> set (users (w_db s)). ?P x")
    case True
    then obtain x where x: "x \<in> set (users (w_db s))" "?P x" by blast
    then have "uid \<in> live_ids (w_db s)" using live_idsI [of x] by auto
    with x have "?P x \<and> wp (bind utcnow (\<lambda>t. transaction (seq (erase_user (u_id x) t (Some (s_id (cx_session actor))) ip)
        (admin_audit actor USER_DELETED_BY_ADMIN (u_id x) [] ip ua))))
        (\<lambda>_ t. uid \<in> live_ids (w_db s) \<and> ?G (w_db t)) (\<lambda>_ _. True) s"
      by (simp add: wp_bind wp_utcnow tx)
    with x(1) True show ?thesis
      unfolding usecase_delete_user_def admin_get_user_def wp_bind [where m = "session_scope m" for m] q
      by (simp only: if_True option.case) blast
  next
    case False
    show ?thesis
      unfolding usecase_delete_user_def admin_get_user_def wp_bind [where m = "session_scope m" for m] q if_not_P [OF False]
      by (simp add: wp_raise)
  qed
qed

text \<open>
  An administrator's deletion is as complete and as confined as the owner's. When it returns,
  the account was not deleted before, it now is, without a session in force, role, linked
  identity or item, and the rows of all other accounts are as they were.
\<close>

theorem admin_delete_complete:
  fixes s s' :: "('l, 'c) world"
  assumes "db_ok (w_db s)" "usecase_delete_user actor uid ip ua s = (Inr (), s')"
  shows "uid \<in> live_ids (w_db s) \<and> erased uid (w_db s') \<and> others_same uid (w_db s) (w_db s')"
  by (rule wp_Ok [OF usecase_delete_user_spec [OF assms(1)] assms(2)])

lemma admin_delete_complete_witness:
  "\<exists>s'. usecase_delete_user demo_context 2 (Some ''10.0.0.1'') None demo_running = (Inr (), s')
     \<and> erased 2 (w_db s') \<and> others_same 2 (w_db demo_running) (w_db s')"
proof -
  have ok: "db_ok (w_db demo_running)"
    using app_invD(1) [OF demo_database_inv] by (simp add: demo_world_def)
  have "case usecase_delete_user demo_context 2 (Some ''10.0.0.1'') None demo_running
    of (Inl e, s') \<Rightarrow> False | (Inr r, s') \<Rightarrow> True" by code_simp
  then obtain s' where r: "usecase_delete_user demo_context 2 (Some ''10.0.0.1'') None demo_running = (Inr (), s')"
    by (auto split: prod.splits sum.splits)
  from admin_delete_complete [OF ok r] r show ?thesis by blast
qed

end
