(* ===== verification/Resource_Controllers.thy ===== *)
theory Resource_Controllers
  imports Http Admin_User_Usecase Sample_Items
begin

text \<open>
  The endpoints for administrators (\<^verbatim>\<open>app/controllers/admin_user_controller.py\<close>,
  \<^verbatim>\<open>app/controllers/authorization_controller.py\<close>), for sample items
  (\<^verbatim>\<open>app/controllers/sample_controller.py\<close>) and for monitoring
  (\<^verbatim>\<open>app/controllers/healthz_controller.py\<close>), with the bodies of \<^verbatim>\<open>app/models/*_schemas.py\<close>.
\<close>

text \<open>\<open>unix_timestamp_seconds\<close>: whole seconds, rounded down.\<close>

definition unix_timestamp_seconds :: "datetime \<Rightarrow> int" where
  "unix_timestamp_seconds v = v div seconds 1"

definition optional_str :: "string option \<Rightarrow> json" where
  "optional_str v = (case v of None \<Rightarrow> JNull | Some s \<Rightarrow> JStr s)"

definition str_list :: "string list \<Rightarrow> json" where
  "str_list xs = JList (map JStr xs)"

subsection \<open>Users\<close>

definition user_members :: "user \<Rightarrow> string list \<Rightarrow> (string \<times> json) list" where
  "user_members u roles =
     [(''id'', JStr (str_uuid (u_id u))), (''email'', JStr (u_email u)), (''is_active'', JBool (u_is_active u)),
      (''created_at'', JInt (unix_timestamp_seconds (u_registered_at u))),
      (''updated_at'', JInt (unix_timestamp_seconds (u_modified_at u))),
      (''last_login_at'', case u_last_logged_in_at u of None \<Rightarrow> JNull | Some t \<Rightarrow> JInt (unix_timestamp_seconds t)),
      (''roles'', str_list roles)]"

definition from_record :: "admin_user_record \<Rightarrow> json" where
  "from_record rec = JObj (user_members (ar_user rec) (ar_roles rec))"

definition from_detail :: "admin_user_detail \<Rightarrow> json" where
  "from_detail det = JObj (user_members (ad_user det) (ad_roles det) @ [(''permissions'', str_list (ad_permissions det))])"

definition require_admin_access :: "('l, 'c) app \<Rightarrow> request \<Rightarrow> ('l, 'c, session_context) http" where
  "require_admin_access app = require_permission app ''admin:access''"

definition role_not_found_error :: "string set \<Rightarrow> http_error" where
  "role_not_found_error role_codes =
     HTTPException 422 ''role_not_found'' ''Role not found'' [] [] [(''role_codes'', str_list (sorted_strings role_codes))]"

definition user_not_found_error :: http_error where
  "user_not_found_error = api_error 404 ''user_not_found'' ''User not found''"

definition admin_user_error :: "exn \<Rightarrow> http_error" where
  "admin_user_error e =
     (case e of
        UserNotFoundError _ \<Rightarrow> user_not_found_error
      | EmailAlreadyRegisteredError \<Rightarrow> api_error 409 ''email_already_registered'' ''Email already registered''
      | WeakPasswordError _ \<Rightarrow> api_error 422 ''weak_password'' ''Password does not meet requirements''
      | RoleNotFoundError codes \<Rightarrow> role_not_found_error codes
      | _ \<Rightarrow> Unhandled e)"

definition list_admin_users ::
    "('l, 'c) app \<Rightarrow> request \<Rightarrow> nat \<Rightarrow> nat \<Rightarrow> string option \<Rightarrow> string option \<Rightarrow> bool option \<Rightarrow> ('l, 'c, response) http" where
  "list_admin_users app r offset limit search role is_active =
     bind (require_admin_access app r) (\<lambda>_.
     bind (calling (bind (lift (normalize_admin_search search 320)) (\<lambda>normalized.
                usecase_list_users \<lparr>aq_search = normalized, aq_is_active = is_active, aq_role = role\<rparr> offset limit))
             (\<lambda>e. case e of
                ValueError _ \<Rightarrow> api_error 422 ''invalid_admin_user_query'' ''Invalid admin user query''
              | RoleNotFoundError codes \<Rightarrow> role_not_found_error codes
              | _ \<Rightarrow> Unhandled e)) (\<lambda>result.
     ok (json_response 200 [] [] (JObj [(''data'', JList (map from_record (pg_items result))), (''count'', JInt (int (pg_total result))),
           (''offset'', JInt (int (pg_offset result))), (''limit'', JInt (int (pg_limit result)))]))))"

text \<open>\<open>create_admin_user\<close> does not handle \<open>UserNotFoundError\<close>, which its use case does not raise for a new user.\<close>

definition create_user_error :: "exn \<Rightarrow> http_error" where
  "create_user_error e = (case e of UserNotFoundError _ \<Rightarrow> Unhandled e | _ \<Rightarrow> admin_user_error e)"

definition create_admin_user ::
    "('l, 'c) app \<Rightarrow> request \<Rightarrow> string \<Rightarrow> string \<Rightarrow> bool \<Rightarrow> string list \<Rightarrow> ('l, 'c, response) http" where
  "create_admin_user app r email password is_active roles =
     bind (require_admin_access app r) (\<lambda>cx.
     bind (get_client_ip app r) (\<lambda>ip.
     bind (calling (usecase_create_user app cx email password is_active roles ip (get_user_agent r)) create_user_error) (\<lambda>det.
     ok (json_response 201 [(''Location'', ''/api/admin/users/'' @ str_uuid (u_id (ad_user det)))] [] (from_detail det)))))"

definition only_user_not_found :: "exn \<Rightarrow> http_error" where
  "only_user_not_found e = (case e of UserNotFoundError _ \<Rightarrow> user_not_found_error | _ \<Rightarrow> Unhandled e)"

definition get_admin_user :: "('l, 'c) app \<Rightarrow> request \<Rightarrow> uuid \<Rightarrow> ('l, 'c, response) http" where
  "get_admin_user app r user_id =
     bind (require_admin_access app r) (\<lambda>_.
     bind (calling (usecase_get_user user_id) only_user_not_found) (\<lambda>det. ok (json_response 200 [] [] (from_detail det))))"

definition update_admin_user :: "('l, 'c) app \<Rightarrow> request \<Rightarrow> uuid \<Rightarrow> admin_user_update_changes \<Rightarrow> ('l, 'c, response) http" where
  "update_admin_user app r user_id changes =
     bind (require_admin_access app r) (\<lambda>cx.
     bind (get_client_ip app r) (\<lambda>ip.
     bind (calling (usecase_update_user app cx user_id changes ip (get_user_agent r)) admin_user_error) (\<lambda>det.
     ok (json_response 200 [] [] (from_detail det)))))"

definition delete_admin_user :: "('l, 'c) app \<Rightarrow> request \<Rightarrow> uuid \<Rightarrow> ('l, 'c, response) http" where
  "delete_admin_user app r user_id =
     bind (require_admin_access app r) (\<lambda>cx.
     bind (get_client_ip app r) (\<lambda>ip.
     seq (calling (usecase_delete_user cx user_id ip (get_user_agent r)) only_user_not_found) (ok (empty_response 204 []))))"

subsection \<open>Roles\<close>

definition role_response :: "role_with_permissions \<Rightarrow> json" where
  "role_response role = JObj [(''code'', JStr (rp_code role)), (''display_name'', JStr (rp_display_name role)),
     (''description'', optional_str (rp_description role)), (''permissions'', str_list (rp_permissions role))]"

definition permission_response :: "permission_definition \<Rightarrow> json" where
  "permission_response p = JObj [(''code'', JStr (pd_code p)), (''display_name'', JStr (pd_display_name p)),
     (''description'', optional_str (pd_description p))]"

definition authorization_error :: "exn \<Rightarrow> http_error" where
  "authorization_error e =
     (case e of
        AuthorizationUserNotFoundError _ \<Rightarrow> user_not_found_error
      | RoleNotFoundError codes \<Rightarrow> role_not_found_error codes
      | _ \<Rightarrow> Unhandled e)"

definition list_roles_endpoint :: "('l, 'c) app \<Rightarrow> request \<Rightarrow> ('l, 'c, response) http" where
  "list_roles_endpoint app r =
     bind (require_admin_access app r) (\<lambda>_.
     bind (calling list_roles Unhandled) (\<lambda>roles.
     bind (calling list_permissions Unhandled) (\<lambda>permissions.
     ok (json_response 200 [] [] (JObj [(''data'', JList (map role_response roles)),
           (''permissions'', JList (map permission_response permissions))])))))"

definition user_role_list_response :: "user_authorization \<Rightarrow> json" where
  "user_role_list_response a = JObj [(''user_id'', JStr (str_uuid (ua_user_id a))),
     (''roles'', str_list (sorted_strings (ua_roles a))), (''permissions'', str_list (sorted_strings (ua_permissions a)))]"

definition get_user_roles :: "('l, 'c) app \<Rightarrow> request \<Rightarrow> uuid \<Rightarrow> ('l, 'c, response) http" where
  "get_user_roles app r user_id =
     bind (require_admin_access app r) (\<lambda>_.
     bind (calling (get_user_authorization user_id)
             (\<lambda>e. case e of AuthorizationUserNotFoundError _ \<Rightarrow> user_not_found_error | _ \<Rightarrow> Unhandled e)) (\<lambda>authorization.
     ok (json_response 200 [] [] (user_role_list_response authorization))))"

definition user_role_replace_response :: "role_replacement \<Rightarrow> json" where
  "user_role_replace_response result = JObj [(''user_id'', JStr (str_uuid (rr_user_id result))),
     (''roles'', str_list (rr_current_role_codes result)),
     (''permissions'', str_list (sorted_strings (permissions_for_role_codes_in DEFAULT_AUTHORIZATION_DEFINITIONS (rr_current_role_codes result)))),
     (''granted_roles'', str_list (rr_granted_role_codes result)), (''revoked_roles'', str_list (rr_revoked_role_codes result))]"

definition replace_user_roles_endpoint :: "('l, 'c) app \<Rightarrow> request \<Rightarrow> uuid \<Rightarrow> string list \<Rightarrow> ('l, 'c, response) http" where
  "replace_user_roles_endpoint app r user_id roles =
     bind (require_admin_access app r) (\<lambda>cx.
     bind (get_client_ip app r) (\<lambda>ip.
     bind (calling (usecase_replace_user_roles cx user_id roles ip (get_user_agent r)) authorization_error) (\<lambda>result.
     ok (json_response 200 [] [] (user_role_replace_response result)))))"

subsection \<open>Sample items\<close>

definition from_item :: "sample_item \<Rightarrow> json" where
  "from_item item = JObj [(''id'', JStr (str_uuid (m_id item))), (''title'', JStr (m_title item)),
     (''description'', optional_str (m_description item)), (''is_completed'', JBool (m_is_completed item)),
     (''created_at'', JInt (unix_timestamp_seconds (m_registered_at item))),
     (''updated_at'', JInt (unix_timestamp_seconds (m_modified_at item)))]"

definition item_not_found :: "exn \<Rightarrow> http_error" where
  "item_not_found e = (case e of
     SampleItemNotFoundError \<Rightarrow> api_error 404 ''sample_item_not_found'' ''Sample item not found'' | _ \<Rightarrow> Unhandled e)"

definition list_sample_items ::
    "text_lib \<Rightarrow> ('l, 'c) app \<Rightarrow> request \<Rightarrow> nat \<Rightarrow> string option \<Rightarrow> ('l, 'c, response) http" where
  "list_sample_items lib app r limit cursor =
     bind (require_current_session app r) (\<lambda>cx.
     bind (calling (list_items lib (u_id (cx_user cx)) limit cursor)
             (\<lambda>e. case e of InvalidSampleItemCursorError \<Rightarrow> api_error 400 ''sample_item_invalid_cursor'' ''Invalid sample item cursor''
                  | _ \<Rightarrow> Unhandled e)) (\<lambda>(items, next_cursor).
     ok (json_response 200 [] [] (JObj [(''data'', JList (map from_item items)), (''next_cursor'', optional_str next_cursor)]))))"

definition create_sample_item :: "('l, 'c) app \<Rightarrow> request \<Rightarrow> string \<Rightarrow> string option \<Rightarrow> ('l, 'c, response) http" where
  "create_sample_item app r title description =
     bind (require_current_session app r) (\<lambda>cx.
     bind (calling (create_item (u_id (cx_user cx)) title description) Unhandled) (\<lambda>item.
     ok (json_response 201 [(''Location'', ''/api/samples/'' @ str_uuid (m_id item))] [] (from_item item))))"

definition get_sample_item :: "('l, 'c) app \<Rightarrow> request \<Rightarrow> uuid \<Rightarrow> ('l, 'c, response) http" where
  "get_sample_item app r item_id =
     bind (require_current_session app r) (\<lambda>cx.
     bind (calling (get_item (u_id (cx_user cx)) item_id) item_not_found) (\<lambda>item. ok (json_response 200 [] [] (from_item item))))"

definition update_sample_item :: "('l, 'c) app \<Rightarrow> request \<Rightarrow> uuid \<Rightarrow> sample_item_update_changes \<Rightarrow> ('l, 'c, response) http" where
  "update_sample_item app r item_id changes =
     bind (require_current_session app r) (\<lambda>cx.
     bind (calling (update_item (u_id (cx_user cx)) item_id changes) item_not_found) (\<lambda>item.
     ok (json_response 200 [] [] (from_item item))))"

definition delete_sample_item :: "('l, 'c) app \<Rightarrow> request \<Rightarrow> uuid \<Rightarrow> ('l, 'c, response) http" where
  "delete_sample_item app r item_id =
     bind (require_current_session app r) (\<lambda>cx.
     seq (calling (delete_item (u_id (cx_user cx)) item_id) item_not_found) (ok (empty_response 204 [])))"

definition healthz :: "('l, 'c, response) http" where
  "healthz = ok (json_response 200 [] [] (JObj [(''success'', JBool True), (''message'', JStr ''ok'')]))"

end
