(* ===== verification/Redis_Limiter.thy ===== *)
theory Redis_Limiter
  imports In_Memory_Limiter Auth_Settings Data_Model
begin

text \<open>
  \<open>RedisLoginRateLimiter\<close> (\<^verbatim>\<open>app/libraries/redis_login_rate_limiter.py\<close>): the rate limiter that keeps
  its counts in Redis, behind a circuit breaker.

  The Redis client is a parameter: every command is an arbitrary function of the state of the
  connection, which may fail with one of the exceptions that the source catches. The deadline of
  \<open>asyncio.wait_for\<close> is one of these failures. Times are rational numbers of seconds, the digest of
  the keys and the random members are parameters, and the log is the list of the warnings emitted.
\<close>

datatype redis_failure =
    Redis_Connection_Error string
  | Redis_Error
  | Timeout_Error
  | Os_Error

datatype score_bound = Minus_Inf | Plus_Inf | Inclusive rat | Exclusive rat

datatype redis_command =
    Zcount string score_bound score_bound
  | Zremrangebyscore string score_bound score_bound
  | Zadd string string rat
  | Expire string int

text \<open>The part of the client that the limiter uses; \<open>pipeline_execute\<close> gets the \<open>transaction\<close> flag.\<close>

record 'r redis_client =
  redis_time :: "'r \<Rightarrow> (redis_failure + int \<times> int) \<times> 'r"
  pipeline_execute :: "bool \<Rightarrow> redis_command list \<Rightarrow> 'r \<Rightarrow> (redis_failure + int list) \<times> 'r"
  redis_delete :: "string list \<Rightarrow> 'r \<Rightarrow> (redis_failure + int) \<times> 'r"
  redis_scan_iter :: "string \<Rightarrow> int \<Rightarrow> 'r \<Rightarrow> (redis_failure + string list) \<times> 'r"

record 'r redis_limiter =
  rl_window_seconds :: int
  rl_registration_window_seconds :: int
  rl_max_failures_per_email_ip :: int
  rl_max_failures_per_ip :: int
  rl_max_failures_per_email :: int
  rl_max_registrations_per_ip :: int
  rl_max_oidc_authorizations_per_ip :: int
  rl_client :: "'r redis_client"
  rl_redis :: 'r
  rl_key_prefix :: string
  rl_unavailable_policy :: unavailable_policy
  rl_circuit_breaker_failures :: int
  rl_circuit_breaker_cooldown_seconds :: rat
  rl_sha256_hex :: "string \<Rightarrow> string"
  rl_breaker_clock :: "nat \<Rightarrow> rat"
  rl_clock_calls :: nat
  rl_token_hex :: "nat \<Rightarrow> string"
  rl_token_calls :: nat
  rl_consecutive_failures :: int
  rl_circuit_opened_at :: "rat option"
  rl_circuit_open_warning_logged :: bool
  rl_pool_exhaustion_warning_logged_at :: "rat option"
  rl_warnings :: "(unavailable_policy \<times> string) list"

definition POOL_EXHAUSTION_WARNING_INTERVAL_SECONDS :: rat where
  "POOL_EXHAUSTION_WARNING_INTERVAL_SECONDS = 1"

subsection \<open>The circuit breaker\<close>

definition breaker_now :: "'r redis_limiter \<Rightarrow> rat" where
  "breaker_now l = rl_breaker_clock l (rl_clock_calls l)"

definition breaker_tick :: "'r redis_limiter \<Rightarrow> 'r redis_limiter" where
  "breaker_tick l = l\<lparr>rl_clock_calls := Suc (rl_clock_calls l)\<rparr>"

definition is_pool_exhaustion :: "redis_failure \<Rightarrow> bool" where
  "is_pool_exhaustion error =
     (case error of
        Redis_Connection_Error message \<Rightarrow>
          contains message ''Too many connections'' \<or> contains message ''No connection available''
      | _ \<Rightarrow> False)"

definition circuit_is_open :: "'r redis_limiter \<Rightarrow> bool \<times> 'r redis_limiter" where
  "circuit_is_open l =
     (case rl_circuit_opened_at l of
        None \<Rightarrow> (False, l)
      | Some opened_at \<Rightarrow>
          if breaker_now l - opened_at < rl_circuit_breaker_cooldown_seconds l then (True, breaker_tick l)
          else (False, (breaker_tick l)\<lparr>rl_circuit_opened_at := None, rl_circuit_open_warning_logged := False\<rparr>))"

definition emit_unavailable_warning :: "string \<Rightarrow> 'r redis_limiter \<Rightarrow> 'r redis_limiter" where
  "emit_unavailable_warning operation l =
     l\<lparr>rl_warnings := rl_warnings l @ [(rl_unavailable_policy l, operation)]\<rparr>"

definition log_unavailable :: "string \<Rightarrow> 'r redis_limiter \<Rightarrow> 'r redis_limiter" where
  "log_unavailable operation l =
     (if rl_circuit_opened_at l \<noteq> None \<and> rl_circuit_open_warning_logged l then l
      else let l' = emit_unavailable_warning operation l in
        if rl_circuit_opened_at l' \<noteq> None then l'\<lparr>rl_circuit_open_warning_logged := True\<rparr> else l')"

definition log_pool_exhaustion :: "string \<Rightarrow> 'r redis_limiter \<Rightarrow> 'r redis_limiter" where
  "log_pool_exhaustion operation l =
     (let now = breaker_now l; l' = breaker_tick l in
      if (case rl_pool_exhaustion_warning_logged_at l' of
            None \<Rightarrow> False | Some t \<Rightarrow> now - t < POOL_EXHAUSTION_WARNING_INTERVAL_SECONDS) then l'
      else (emit_unavailable_warning operation l')\<lparr>rl_pool_exhaustion_warning_logged_at := Some now\<rparr>)"

definition mark_failure :: "string \<Rightarrow> 'r redis_limiter \<Rightarrow> 'r redis_limiter" where
  "mark_failure operation l =
     (let l1 = l\<lparr>rl_consecutive_failures := rl_consecutive_failures l + 1\<rparr>;
          l2 = (if rl_consecutive_failures l1 \<ge> rl_circuit_breaker_failures l1
                then (breaker_tick l1)\<lparr>rl_circuit_opened_at := Some (breaker_now l1), rl_circuit_open_warning_logged := False\<rparr>
                else l1)
      in log_unavailable operation l2)"

definition mark_success :: "'r redis_limiter \<Rightarrow> 'r redis_limiter" where
  "mark_success l = l\<lparr>rl_consecutive_failures := 0, rl_circuit_opened_at := None, rl_circuit_open_warning_logged := False\<rparr>"

text \<open>An operation on Redis: it may fail, and uses the limiter's random source and connection.\<close>

type_synonym ('r, 'a) redis_op = "'r redis_limiter \<Rightarrow> (redis_failure + 'a) \<times> 'r redis_limiter"

definition run_operation :: "string \<Rightarrow> ('r, 'a) redis_op \<Rightarrow> 'r redis_limiter \<Rightarrow> 'a option \<times> 'r redis_limiter" where
  "run_operation operation operation_factory l =
     (case circuit_is_open l of
        (True, l1) \<Rightarrow> (None, log_unavailable operation l1)
      | (False, l1) \<Rightarrow>
          (case operation_factory l1 of
             (Inl error, l2) \<Rightarrow>
               if is_pool_exhaustion error then (None, log_pool_exhaustion operation l2)
               else (None, mark_failure operation l2)
           | (Inr result, l2) \<Rightarrow> (Some result, mark_success l2)))"

definition run_check_operation :: "string \<Rightarrow> ('r, bool) redis_op \<Rightarrow> 'r redis_limiter \<Rightarrow> bool \<times> 'r redis_limiter" where
  "run_check_operation operation operation_factory l =
     (case run_operation operation operation_factory l of
        (Some result, l') \<Rightarrow> (result, l')
      | (None, l') \<Rightarrow> (rl_unavailable_policy l' = Fail_open, l'))"

definition run_record_operation :: "string \<Rightarrow> ('r, 'a) redis_op \<Rightarrow> 'r redis_limiter \<Rightarrow> 'r redis_limiter" where
  "run_record_operation operation operation_factory l = snd (run_operation operation operation_factory l)"

subsection \<open>Keys and commands\<close>

definition bucket_key :: "'r redis_limiter \<Rightarrow> string \<Rightarrow> string \<Rightarrow> string" where
  "bucket_key l scope raw_key =
     rl_key_prefix l @ '':'' @ scope @ '':'' @ rl_sha256_hex l (scope @ '':'' @ raw_key)"

definition rl_email_ip_key :: "'r redis_limiter \<Rightarrow> string \<Rightarrow> string \<Rightarrow> string" where
  "rl_email_ip_key l ip_address normalized_email =
     bucket_key l ''email_ip'' (ip_address @ '':'' @ normalized_email)"

text \<open>A command of the client, as a step on the limiter.\<close>

definition on_redis :: "('r redis_client \<Rightarrow> 'r \<Rightarrow> (redis_failure + 'a) \<times> 'r) \<Rightarrow> ('r, 'a) redis_op" where
  "on_redis f l = (case f (rl_client l) (rl_redis l) of (res, r) \<Rightarrow> (res, l\<lparr>rl_redis := r\<rparr>))"

definition redis_time_seconds :: "('r, rat) redis_op" where
  "redis_time_seconds l =
     (case on_redis redis_time l of
        (Inl e, l') \<Rightarrow> (Inl e, l')
      | (Inr (secs, microseconds), l') \<Rightarrow> (Inr (of_int secs + of_int microseconds / 1000000), l'))"

definition count_active :: "string list \<Rightarrow> int \<Rightarrow> ('r, int list) redis_op" where
  "count_active keys w l =
     (case redis_time_seconds l of
        (Inl e, l') \<Rightarrow> (Inl e, l')
      | (Inr now, l') \<Rightarrow>
          let window_start = now - of_int w in
          on_redis (\<lambda>c. pipeline_execute c False (map (\<lambda>key. Zcount key (Inclusive window_start) Plus_Inf) keys)) l')"

text \<open>\<open>f"{now:.6f}"\<close>, where \<open>now\<close> is a whole number of microseconds.\<close>

definition format_seconds :: "rat \<Rightarrow> string" where
  "format_seconds t =
     (let n = \<lfloor>t * 1000000\<rfloor> in show_num 10 (n div 1000000) @ ''.'' @ dec_padded 6 (n mod 1000000))"

fun record_commands :: "rat \<Rightarrow> int \<Rightarrow> string list \<Rightarrow> 'r redis_limiter \<Rightarrow> redis_command list \<times> 'r redis_limiter" where
  "record_commands now w [] l = ([], l)"
| "record_commands now w (key # keys) l =
     (let member = format_seconds now @ '':'' @ rl_token_hex l (rl_token_calls l);
          (commands, l') = record_commands now w keys (l\<lparr>rl_token_calls := Suc (rl_token_calls l)\<rparr>)
      in ([Zremrangebyscore key Minus_Inf (Exclusive (now - of_int w)), Zadd key member now, Expire key (w + 1)]
            @ commands, l'))"

definition record_keys :: "string list \<Rightarrow> int \<Rightarrow> ('r, unit) redis_op" where
  "record_keys keys w l =
     (case redis_time_seconds l of
        (Inl e, l') \<Rightarrow> (Inl e, l')
      | (Inr now, l') \<Rightarrow>
          let (commands, l'') = record_commands now w keys l' in
          (case on_redis (\<lambda>c. pipeline_execute c True commands) l'' of
             (Inl e, l3) \<Rightarrow> (Inl e, l3)
           | (Inr _, l3) \<Rightarrow> (Inr (), l3)))"

subsection \<open>The operations of the interface\<close>

text \<open>A pipeline of \<open>n\<close> counts answers with \<open>n\<close> numbers; \<open>counts[i]\<close> of a shorter answer would raise.\<close>

definition below :: "int list \<Rightarrow> int list \<Rightarrow> bool" where
  "below counts limits = list_all2 (<) (take (length limits) counts) limits"

definition checked :: "string list \<Rightarrow> int \<Rightarrow> int list \<Rightarrow> ('r, bool) redis_op" where
  "checked keys w limits l =
     (case count_active keys w l of
        (Inl e, l') \<Rightarrow> (Inl e, l')
      | (Inr counts, l') \<Rightarrow> (Inr (below counts limits), l'))"

definition rl_is_allowed :: "string \<Rightarrow> string \<Rightarrow> 'r redis_limiter \<Rightarrow> bool \<times> 'r redis_limiter" where
  "rl_is_allowed ip_address normalized_email =
     run_check_operation ''is_allowed'' (\<lambda>l.
       checked [rl_email_ip_key l ip_address normalized_email, bucket_key l ''ip'' ip_address,
                bucket_key l ''email'' normalized_email] (rl_window_seconds l)
         [rl_max_failures_per_email_ip l, rl_max_failures_per_ip l, rl_max_failures_per_email l] l)"

definition rl_is_account_deletion_reauth_allowed ::
    "string \<Rightarrow> string \<Rightarrow> 'r redis_limiter \<Rightarrow> bool \<times> 'r redis_limiter" where
  "rl_is_account_deletion_reauth_allowed ip_address normalized_email =
     run_check_operation ''is_account_deletion_reauth_allowed'' (\<lambda>l.
       checked [rl_email_ip_key l ip_address normalized_email, bucket_key l ''ip'' ip_address] (rl_window_seconds l)
         [rl_max_failures_per_email_ip l, rl_max_failures_per_ip l] l)"

definition rl_record_failure :: "string \<Rightarrow> string \<Rightarrow> bool \<Rightarrow> 'r redis_limiter \<Rightarrow> 'r redis_limiter" where
  "rl_record_failure ip_address normalized_email include_email_bucket =
     run_record_operation ''record_failure'' (\<lambda>l.
       record_keys ([rl_email_ip_key l ip_address normalized_email, bucket_key l ''ip'' ip_address] @
           (if include_email_bucket then [bucket_key l ''email'' normalized_email] else [])) (rl_window_seconds l) l)"

definition rl_record_success :: "string \<Rightarrow> string \<Rightarrow> 'r redis_limiter \<Rightarrow> 'r redis_limiter" where
  "rl_record_success ip_address normalized_email =
     run_record_operation ''record_success'' (\<lambda>l.
       on_redis (\<lambda>c. redis_delete c [rl_email_ip_key l ip_address normalized_email]) l)"

definition rl_is_registration_allowed :: "string \<Rightarrow> 'r redis_limiter \<Rightarrow> bool \<times> 'r redis_limiter" where
  "rl_is_registration_allowed ip_address =
     run_check_operation ''is_registration_allowed'' (\<lambda>l.
       checked [bucket_key l ''registration_ip'' ip_address] (rl_registration_window_seconds l) [rl_max_registrations_per_ip l] l)"

definition rl_record_registration :: "string \<Rightarrow> 'r redis_limiter \<Rightarrow> 'r redis_limiter" where
  "rl_record_registration ip_address =
     run_record_operation ''record_registration'' (\<lambda>l.
       record_keys [bucket_key l ''registration_ip'' ip_address] (rl_registration_window_seconds l) l)"

definition rl_is_oidc_authorization_allowed :: "string \<Rightarrow> 'r redis_limiter \<Rightarrow> bool \<times> 'r redis_limiter" where
  "rl_is_oidc_authorization_allowed ip_address =
     run_check_operation ''is_oidc_authorization_allowed'' (\<lambda>l.
       checked [bucket_key l ''oidc_authorization_ip'' ip_address] (rl_window_seconds l) [rl_max_oidc_authorizations_per_ip l] l)"

definition rl_record_oidc_authorization :: "string \<Rightarrow> 'r redis_limiter \<Rightarrow> 'r redis_limiter" where
  "rl_record_oidc_authorization ip_address =
     run_record_operation ''record_oidc_authorization'' (\<lambda>l.
       record_keys [bucket_key l ''oidc_authorization_ip'' ip_address] (rl_window_seconds l) l)"

text \<open>Deleting the keys of this limiter; failures reach the caller.\<close>

definition rl_reset_for_tests :: "('r, unit) redis_op" where
  "rl_reset_for_tests l =
     (case on_redis (\<lambda>c. redis_scan_iter c (rl_key_prefix l @ '':*'') 100) l of
        (Inl e, l') \<Rightarrow> (Inl e, l')
      | (Inr keys, l') \<Rightarrow>
          if keys = [] then (Inr (), l')
          else (case on_redis (\<lambda>c. redis_delete c keys) l' of
                  (Inl e, l'') \<Rightarrow> (Inl e, l'')
                | (Inr _, l'') \<Rightarrow> (Inr (), l'')))"

definition redis_ops :: "'r redis_limiter limiter_ops" where
  "redis_ops = \<lparr>
     is_allowed = rl_is_allowed,
     is_account_deletion_reauth_allowed = rl_is_account_deletion_reauth_allowed,
     record_failure = rl_record_failure,
     record_success = rl_record_success,
     is_registration_allowed = rl_is_registration_allowed,
     record_registration = rl_record_registration,
     is_oidc_authorization_allowed = rl_is_oidc_authorization_allowed,
     record_oidc_authorization = rl_record_oidc_authorization\<rparr>"

text \<open>The constructor.\<close>

definition redis_init ::
    "int \<Rightarrow> int \<Rightarrow> int \<Rightarrow> int \<Rightarrow> int \<Rightarrow> int \<Rightarrow> int \<Rightarrow> 'r redis_client \<Rightarrow> 'r \<Rightarrow> string \<Rightarrow> unavailable_policy \<Rightarrow> int \<Rightarrow> rat
      \<Rightarrow> (string \<Rightarrow> string) \<Rightarrow> (nat \<Rightarrow> string) \<Rightarrow> (nat \<Rightarrow> rat) \<Rightarrow> 'r redis_limiter" where
  "redis_init window registration_window per_email_ip per_ip per_email registrations oidc client redis key_prefix
     unavailable_policy breaker_failures breaker_cooldown sha256 token_hex clock =
     \<lparr>rl_window_seconds = window, rl_registration_window_seconds = registration_window,
      rl_max_failures_per_email_ip = per_email_ip, rl_max_failures_per_ip = per_ip, rl_max_failures_per_email = per_email,
      rl_max_registrations_per_ip = registrations, rl_max_oidc_authorizations_per_ip = oidc,
      rl_client = client, rl_redis = redis, rl_key_prefix = rstrip_with (\<lambda>c. c = CHR '':'') key_prefix,
      rl_unavailable_policy = unavailable_policy, rl_circuit_breaker_failures = breaker_failures,
      rl_circuit_breaker_cooldown_seconds = breaker_cooldown, rl_sha256_hex = sha256,
      rl_breaker_clock = clock, rl_clock_calls = 0, rl_token_hex = token_hex, rl_token_calls = 0,
      rl_consecutive_failures = 0, rl_circuit_opened_at = None, rl_circuit_open_warning_logged = False,
      rl_pool_exhaustion_warning_logged_at = None, rl_warnings = []\<rparr>"

subsection \<open>The breaker\<close>

lemmas breaker_defs = run_operation_def circuit_is_open_def log_unavailable_def emit_unavailable_warning_def
  log_pool_exhaustion_def mark_failure_def mark_success_def breaker_tick_def breaker_now_def Let_def

text \<open>The settings of the limiter, which no call changes.\<close>

definition same_config :: "'r redis_limiter \<Rightarrow> 'r redis_limiter \<Rightarrow> bool" where
  "same_config l l' =
     (rl_client l' = rl_client l \<and> rl_unavailable_policy l' = rl_unavailable_policy l \<and>
      rl_circuit_breaker_failures l' = rl_circuit_breaker_failures l \<and>
      rl_circuit_breaker_cooldown_seconds l' = rl_circuit_breaker_cooldown_seconds l \<and>
      rl_breaker_clock l' = rl_breaker_clock l)"

text \<open>What an operation on Redis leaves alone.\<close>

definition breaker_kept :: "'r redis_limiter \<Rightarrow> 'r redis_limiter \<Rightarrow> bool" where
  "breaker_kept l l' =
     (same_config l l' \<and> rl_clock_calls l' = rl_clock_calls l \<and> rl_consecutive_failures l' = rl_consecutive_failures l \<and>
      rl_circuit_opened_at l' = rl_circuit_opened_at l \<and> rl_circuit_open_warning_logged l' = rl_circuit_open_warning_logged l \<and>
      rl_pool_exhaustion_warning_logged_at l' = rl_pool_exhaustion_warning_logged_at l \<and> rl_warnings l' = rl_warnings l)"

lemma breaker_kept_trans: "breaker_kept a b \<Longrightarrow> breaker_kept b c \<Longrightarrow> breaker_kept a c"
  by (simp add: breaker_kept_def same_config_def)

lemma breaker_kept_on_redis: "breaker_kept l (snd (on_redis f l))"
  by (simp add: on_redis_def breaker_kept_def same_config_def split: prod.splits)

lemma breaker_kept_time: "breaker_kept l (snd (redis_time_seconds l))"
  using breaker_kept_on_redis [of l redis_time] by (auto simp: redis_time_seconds_def split: prod.splits sum.splits)

lemma breaker_kept_count: "breaker_kept l (snd (count_active keys w l))"
  using breaker_kept_time [of l] breaker_kept_trans [OF _ breaker_kept_on_redis]
  by (auto simp: count_active_def Let_def split: prod.splits sum.splits)

lemma breaker_kept_commands: "breaker_kept l (snd (record_commands now w keys l))"
proof (induction keys arbitrary: l)
  case (Cons key keys)
  have "breaker_kept l (l\<lparr>rl_token_calls := Suc (rl_token_calls l)\<rparr>)" by (simp add: breaker_kept_def same_config_def)
  with Cons breaker_kept_trans show ?case by (fastforce simp: Let_def split: prod.splits)
qed (simp add: breaker_kept_def same_config_def)

lemma breaker_kept_record: "breaker_kept l (snd (record_keys keys w l))"
proof (cases "redis_time_seconds l")
  case (Pair res l1)
  then have 1: "breaker_kept l l1" using breaker_kept_time [of l] by simp
  show ?thesis
  proof (cases res)
    case (Inr now)
    obtain cmds l2 where c: "record_commands now w keys l1 = (cmds, l2)" by fastforce
    then have 2: "breaker_kept l l2" using breaker_kept_commands [of l1 now w keys] breaker_kept_trans [OF 1] by simp
    from breaker_kept_trans [OF 2 breaker_kept_on_redis [of l2 "\<lambda>c. pipeline_execute c True cmds"]] Pair Inr c show ?thesis
      by (auto simp: record_keys_def split: prod.splits sum.splits)
  qed (use Pair 1 in \<open>simp add: record_keys_def\<close>)
qed

lemma breaker_kept_checked: "breaker_kept l (snd (checked keys w limits l))"
  using breaker_kept_count [of l keys w] by (auto simp: checked_def split: prod.splits sum.splits)

lemmas breaker_kept_ops = breaker_kept_checked breaker_kept_record breaker_kept_on_redis

text \<open>A Redis that answers every command with a failure, other than an exhausted connection pool.\<close>

definition failed :: "redis_failure + 'a \<Rightarrow> bool" where
  "failed res = (case res of Inl e \<Rightarrow> \<not> is_pool_exhaustion e | Inr _ \<Rightarrow> False)"

definition redis_down :: "'r redis_client \<Rightarrow> bool" where
  "redis_down c = (\<forall>r. failed (fst (redis_time c r)) \<and> (\<forall>keys. failed (fst (redis_delete c keys r)))
     \<and> (\<forall>tx cmds. failed (fst (pipeline_execute c tx cmds r))))"

lemma failed_on_redis: "failed (fst (f (rl_client l) (rl_redis l))) \<Longrightarrow> failed (fst (on_redis f l))"
  by (auto simp: on_redis_def split: prod.splits)

lemma failed_time: "redis_down (rl_client l) \<Longrightarrow> failed (fst (redis_time_seconds l))"
  using failed_on_redis [of redis_time l]
  by (auto simp: redis_down_def redis_time_seconds_def failed_def split: prod.splits sum.splits)

lemma unavailable_ops:
  "redis_down (rl_client l) \<Longrightarrow> failed (fst (checked keys w limits l))"
  "redis_down (rl_client l) \<Longrightarrow> failed (fst (record_keys keys w l))"
  "redis_down (rl_client l) \<Longrightarrow> failed (fst (on_redis (\<lambda>c. redis_delete c keys) l))"
proof -
  assume d: "redis_down (rl_client l)"
  from failed_time [OF d] show "failed (fst (checked keys w limits l))"
    by (auto simp: checked_def count_active_def failed_def split: prod.splits sum.splits)
  from failed_time [OF d] show "failed (fst (record_keys keys w l))"
    by (auto simp: record_keys_def failed_def split: prod.splits sum.splits)
  from d show "failed (fst (on_redis (\<lambda>c. redis_delete c keys) l))" by (intro failed_on_redis) (simp add: redis_down_def)
qed

text \<open>How a call moves the breaker.\<close>

definition breaker_step :: "'r redis_limiter \<Rightarrow> 'r redis_limiter \<Rightarrow> bool" where
  "breaker_step l l' =
     (case circuit_is_open l of
        (True, l1) \<Rightarrow> \<exists>name. l' = log_unavailable name l1
      | (False, l1) \<Rightarrow> \<exists>l2 name. breaker_kept l1 l2 \<and>
          (l' = mark_failure name l2 \<or>
           (\<not> redis_down (rl_client l) \<and> (l' = mark_success l2 \<or> l' = log_pool_exhaustion name l2))))"

lemma circuit_open_client: "circuit_is_open l = (b, l1) \<Longrightarrow> rl_client l1 = rl_client l"
  by (auto simp: circuit_is_open_def breaker_tick_def split: option.splits if_splits)

lemma run_operation_step:
  assumes kept: "\<And>l. breaker_kept l (snd (op l))" and un: "\<And>l. redis_down (rl_client l) \<Longrightarrow> failed (fst (op l))"
  shows "breaker_step l (snd (run_operation name op l))"
proof -
  obtain b l1 where c: "circuit_is_open l = (b, l1)" by fastforce
  obtain r l2 where o: "op l1 = (r, l2)" by fastforce
  have k: "breaker_kept l1 l2" using kept [of l1] o by simp
  show ?thesis
  proof (cases b)
    case True
    then show ?thesis using c by (auto simp: breaker_step_def run_operation_def)
  next
    case False
    then show ?thesis
      using c o k un [of l1] circuit_open_client [OF c]
      by (cases r) (auto simp: breaker_step_def run_operation_def failed_def split: if_splits)
  qed
qed

lemma run_check_step:
  "(\<And>l. breaker_kept l (snd (op l))) \<Longrightarrow> (\<And>l. redis_down (rl_client l) \<Longrightarrow> failed (fst (op l))) \<Longrightarrow>
     breaker_step l (snd (run_check_operation name op l))"
  using run_operation_step [of op l name]
  by (auto simp: run_check_operation_def split: prod.splits option.splits)

lemma limiter_step_breaker: "breaker_step l (limiter_step redis_ops c l)"
  by (cases c)
    (auto simp: redis_ops_def rl_is_allowed_def rl_is_account_deletion_reauth_allowed_def rl_record_failure_def rl_record_success_def
      rl_is_registration_allowed_def rl_record_registration_def rl_is_oidc_authorization_allowed_def rl_record_oidc_authorization_def
      run_record_operation_def intro!: run_check_step run_operation_step breaker_kept_ops unavailable_ops)

subsection \<open>The invariant of the breaker\<close>

definition rl_inv :: "'r redis_limiter \<Rightarrow> bool" where
  "rl_inv l = (0 \<le> rl_consecutive_failures l \<and>
     (rl_circuit_opened_at l \<noteq> None \<longrightarrow> rl_circuit_breaker_failures l \<le> rl_consecutive_failures l))"

lemma log_unavailable_fields [simp]:
  "rl_redis (log_unavailable name l) = rl_redis l" "rl_client (log_unavailable name l) = rl_client l"
  "rl_unavailable_policy (log_unavailable name l) = rl_unavailable_policy l"
  "rl_circuit_breaker_failures (log_unavailable name l) = rl_circuit_breaker_failures l"
  "rl_circuit_breaker_cooldown_seconds (log_unavailable name l) = rl_circuit_breaker_cooldown_seconds l"
  "rl_breaker_clock (log_unavailable name l) = rl_breaker_clock l" "rl_clock_calls (log_unavailable name l) = rl_clock_calls l"
  "rl_consecutive_failures (log_unavailable name l) = rl_consecutive_failures l"
  "rl_circuit_opened_at (log_unavailable name l) = rl_circuit_opened_at l"
  "rl_circuit_open_warning_logged (log_unavailable name l) = (rl_circuit_opened_at l \<noteq> None \<or> rl_circuit_open_warning_logged l)"
  "length (rl_warnings (log_unavailable name l)) =
     length (rl_warnings l) + (if rl_circuit_opened_at l \<noteq> None \<and> rl_circuit_open_warning_logged l then 0 else 1)"
  by (auto simp: log_unavailable_def emit_unavailable_warning_def Let_def)

lemma log_pool_exhaustion_fields [simp]:
  "rl_client (log_pool_exhaustion name l) = rl_client l" "rl_unavailable_policy (log_pool_exhaustion name l) = rl_unavailable_policy l"
  "rl_circuit_breaker_failures (log_pool_exhaustion name l) = rl_circuit_breaker_failures l"
  "rl_circuit_breaker_cooldown_seconds (log_pool_exhaustion name l) = rl_circuit_breaker_cooldown_seconds l"
  "rl_breaker_clock (log_pool_exhaustion name l) = rl_breaker_clock l"
  "rl_consecutive_failures (log_pool_exhaustion name l) = rl_consecutive_failures l"
  "rl_circuit_opened_at (log_pool_exhaustion name l) = rl_circuit_opened_at l"
  by (auto simp: log_pool_exhaustion_def emit_unavailable_warning_def breaker_tick_def Let_def split: option.splits)

lemma mark_failure_fields [simp]:
  "rl_client (mark_failure name l) = rl_client l" "rl_unavailable_policy (mark_failure name l) = rl_unavailable_policy l"
  "rl_circuit_breaker_failures (mark_failure name l) = rl_circuit_breaker_failures l"
  "rl_circuit_breaker_cooldown_seconds (mark_failure name l) = rl_circuit_breaker_cooldown_seconds l"
  "rl_breaker_clock (mark_failure name l) = rl_breaker_clock l"
  "rl_consecutive_failures (mark_failure name l) = rl_consecutive_failures l + 1"
  "rl_circuit_opened_at (mark_failure name l) =
     (if rl_circuit_breaker_failures l \<le> rl_consecutive_failures l + 1 then Some (breaker_now l) else rl_circuit_opened_at l)"
  by (simp_all add: mark_failure_def breaker_tick_def breaker_now_def Let_def)

lemma mark_success_fields [simp]:
  "rl_client (mark_success l) = rl_client l" "rl_unavailable_policy (mark_success l) = rl_unavailable_policy l"
  "rl_circuit_breaker_failures (mark_success l) = rl_circuit_breaker_failures l"
  "rl_circuit_breaker_cooldown_seconds (mark_success l) = rl_circuit_breaker_cooldown_seconds l"
  "rl_breaker_clock (mark_success l) = rl_breaker_clock l"
  "rl_consecutive_failures (mark_success l) = 0" "rl_circuit_opened_at (mark_success l) = None"
  by (simp_all add: mark_success_def)

lemmas step_defs = breaker_step_def circuit_is_open_def breaker_tick_def

lemma breaker_step_inv: "breaker_step l l' \<Longrightarrow> rl_inv l \<Longrightarrow> rl_inv l'"
  by (auto simp: step_defs rl_inv_def breaker_kept_def same_config_def split: option.splits if_splits)

lemma breaker_step_config: "breaker_step l l' \<Longrightarrow> same_config l l'"
  by (auto simp: step_defs breaker_kept_def same_config_def split: option.splits if_splits)

interpretation rl: login_rate_limiter redis_ops rl_inv
  by unfold_locales (rule breaker_step_inv [OF limiter_step_breaker])

subsection \<open>An open circuit\<close>

lemma open_step:
  assumes st: "breaker_step l l'" and op: "rl_circuit_opened_at l = Some t"
    and cool: "breaker_now l - t < rl_circuit_breaker_cooldown_seconds l"
  shows "rl_redis l' = rl_redis l" "rl_circuit_opened_at l' = Some t" "rl_clock_calls l' = Suc (rl_clock_calls l)"
    "rl_consecutive_failures l' = rl_consecutive_failures l" "rl_circuit_open_warning_logged l'"
    "length (rl_warnings l') = length (rl_warnings l) + (if rl_circuit_open_warning_logged l then 0 else 1)"
  using assms by (auto simp: step_defs breaker_now_def split: if_splits)

lemma open_run:
  assumes "rl_circuit_opened_at l = Some t"
    and "\<forall>i < length calls. rl_breaker_clock l (rl_clock_calls l + i) - t < rl_circuit_breaker_cooldown_seconds l"
  shows "let l' = limiter_run redis_ops calls l in
    rl_redis l' = rl_redis l \<and> rl_circuit_opened_at l' = Some t \<and> rl_clock_calls l' = rl_clock_calls l + length calls
    \<and> rl_consecutive_failures l' = rl_consecutive_failures l \<and> same_config l l'
    \<and> length (rl_warnings l') \<le> length (rl_warnings l) + (if rl_circuit_open_warning_logged l then 0 else 1)"
  using assms
proof (induction calls arbitrary: l)
  case (Cons c calls)
  let ?l = "limiter_step redis_ops c l"
  have cool: "breaker_now l - t < rl_circuit_breaker_cooldown_seconds l" using Cons.prems(2) by (force simp: breaker_now_def)
  note s = open_step [OF limiter_step_breaker Cons.prems(1) cool, of c]
  note cf = breaker_step_config [OF limiter_step_breaker, of l c]
  have "\<forall>i < length calls. rl_breaker_clock ?l (rl_clock_calls ?l + i) - t < rl_circuit_breaker_cooldown_seconds ?l"
    using Cons.prems(2) s(3) cf by (force simp: same_config_def)
  from Cons.IH [OF s(2) this] s cf show ?case by (auto simp: Let_def same_config_def split: if_splits)
qed (simp add: same_config_def)


subsection \<open>A Redis that does not answer\<close>

text \<open>The breaker of a limiter in front of a dead Redis, all clock readings within one cool-down.\<close>

definition dying :: "'r redis_limiter \<Rightarrow> bool" where
  "dying l =
     (redis_down (rl_client l) \<and> (\<forall>i j. rl_breaker_clock l j - rl_breaker_clock l i < rl_circuit_breaker_cooldown_seconds l) \<and>
      rl_consecutive_failures l \<le> rl_circuit_breaker_failures l \<and>
      (case rl_circuit_opened_at l of
         None \<Rightarrow> rl_consecutive_failures l < rl_circuit_breaker_failures l
       | Some t \<Rightarrow> rl_consecutive_failures l = rl_circuit_breaker_failures l \<and> (\<exists>i. t = rl_breaker_clock l i)))"

lemma dying_step:
  assumes st: "breaker_step l l'" and d: "dying l"
  shows "dying l'" "rl_consecutive_failures l' = min (rl_consecutive_failures l + 1) (rl_circuit_breaker_failures l)"
proof -
  have cf: "same_config l l'" by (rule breaker_step_config [OF st])
  have "dying l' \<and> rl_consecutive_failures l' = min (rl_consecutive_failures l + 1) (rl_circuit_breaker_failures l)"
  proof (cases "rl_circuit_opened_at l")
    case None
    with st d obtain l2 name where l2: "breaker_kept l l2" "l' = mark_failure name l2"
      by (auto simp: step_defs dying_def)
    with d None show ?thesis
      by (auto simp: dying_def breaker_kept_def same_config_def breaker_now_def min_def)
  next
    case (Some t)
    with d have "breaker_now l - t < rl_circuit_breaker_cooldown_seconds l" by (auto simp: dying_def breaker_now_def)
    note s = open_step [OF st Some this]
    from d Some s(2,4) cf show ?thesis by (auto simp: dying_def same_config_def min_def)
  qed
  then show "dying l'" "rl_consecutive_failures l' = min (rl_consecutive_failures l + 1) (rl_circuit_breaker_failures l)" by auto
qed

lemma dying_run:
  "dying l \<Longrightarrow> dying (limiter_run redis_ops calls l) \<and>
     rl_consecutive_failures (limiter_run redis_ops calls l) =
       min (rl_consecutive_failures l + int (length calls)) (rl_circuit_breaker_failures l) \<and>
     rl_circuit_breaker_failures (limiter_run redis_ops calls l) = rl_circuit_breaker_failures l"
proof (induction calls arbitrary: l)
  case (Cons c calls)
  note s = dying_step [OF limiter_step_breaker Cons.prems, of c] breaker_step_config [OF limiter_step_breaker, of l c]
  from Cons.IH [OF s(1)] s show ?case by (auto simp: same_config_def min_def)
qed (simp add: dying_def min_def)

text \<open>
  A dead Redis is tried only so often. When every command fails, a limiter with a closed
  circuit contacts Redis once per call until the configured number of consecutive failures is
  reached, at exactly which call the circuit opens, and not at all in the rest of the cool-down.
\<close>

theorem breaker_opens_exactly:
  assumes "redis_down (rl_client l)" and "rl_consecutive_failures l = 0" and "rl_circuit_opened_at l = None"
    and "1 \<le> rl_circuit_breaker_failures l"
    and "\<forall>i j. rl_breaker_clock l j - rl_breaker_clock l i < rl_circuit_breaker_cooldown_seconds l"
  shows "rl_consecutive_failures (limiter_run redis_ops calls l) = min (int (length calls)) (rl_circuit_breaker_failures l)
    \<and> (rl_circuit_opened_at (limiter_run redis_ops calls l) \<noteq> None) = (rl_circuit_breaker_failures l \<le> int (length calls))"
proof -
  have "dying l" using assms by (simp add: dying_def)
  from dying_run [OF this, of calls] assms(2) show ?thesis
    by (auto simp: dying_def min_def split: option.splits if_splits)
qed

subsection \<open>Examples\<close>

text \<open>A Redis that is down, counting the attempts to reach it, behind a breaker of three failures.\<close>

definition dead_redis :: "nat redis_client" where
  "dead_redis = \<lparr>redis_time = (\<lambda>n. (Inl Os_Error, Suc n)), pipeline_execute = (\<lambda>_ _ n. (Inl Os_Error, Suc n)),
     redis_delete = (\<lambda>_ n. (Inl Os_Error, Suc n)), redis_scan_iter = (\<lambda>_ _ n. (Inl Os_Error, Suc n))\<rparr>"

definition demo_redis_limiter :: "nat redis_limiter" where
  "demo_redis_limiter = redis_init 900 3600 5 50 20 10 20 dead_redis 0 ''auth:'' Fail_open 3 30 (\<lambda>t. t) (\<lambda>n. ''r'') (\<lambda>n. 7)"

lemma breaker_opens_exactly_witness:
  "rl_circuit_opened_at (limiter_run redis_ops [IsAllowed ''i'' ''e'', RecordFailure ''i'' ''e'' True, RecordSuccess ''i'' ''e'', IsAllowed ''i'' ''e'']
      demo_redis_limiter) \<noteq> None
   \<and> rl_circuit_opened_at (limiter_run redis_ops [IsAllowed ''i'' ''e'', RecordFailure ''i'' ''e'' True] demo_redis_limiter) = None"
proof -
  have h: "redis_down (rl_client demo_redis_limiter)" "rl_consecutive_failures demo_redis_limiter = 0"
    "rl_circuit_opened_at demo_redis_limiter = None" "1 \<le> rl_circuit_breaker_failures demo_redis_limiter"
    "\<forall>i j. rl_breaker_clock demo_redis_limiter j - rl_breaker_clock demo_redis_limiter i < rl_circuit_breaker_cooldown_seconds demo_redis_limiter"
    and n: "rl_circuit_breaker_failures demo_redis_limiter = 3"
    by (simp_all add: demo_redis_limiter_def redis_init_def dead_redis_def redis_down_def failed_def is_pool_exhaustion_def)
  show ?thesis
    using breaker_opens_exactly [OF h, of "[IsAllowed ''i'' ''e'', RecordFailure ''i'' ''e'' True, RecordSuccess ''i'' ''e'', IsAllowed ''i'' ''e'']"]
      breaker_opens_exactly [OF h, of "[IsAllowed ''i'' ''e'', RecordFailure ''i'' ''e'' True]"] n by simp
qed


end
