(* ===== verification/Oidc_Properties.thy ===== *)
theory Oidc_Properties
  imports Oidc_Usecase
begin

text \<open>
  What the OpenID Connect flows guarantee: a started authorization can be completed once and only
  by the browser that started it, a login is granted only to an account that the provider's claims
  entitle to it, and a second authentication is fresh and of the same person.
\<close>

subsection \<open>Authorization states\<close>

text \<open>A state that a callback can consume, and a state that no callback can.\<close>

definition consumable ::
    "('l, 'c) app \<Rightarrow> database \<Rightarrow> datetime \<Rightarrow> string \<Rightarrow> string option \<Rightarrow> auth_oidc_state \<Rightarrow> bool" where
  "consumable app d now state cookie x =
     (x \<in> set (oidc_states d) \<and> o_state_hash x = hash_token app state \<and> o_consumed_at x = None \<and>
      now < o_expires_at x \<and> (case cookie of None \<Rightarrow> False | Some b \<Rightarrow> o_browser_binding_hash x = hash_token app b))"

definition spent :: "string \<Rightarrow> auth_oidc_state list \<Rightarrow> bool" where
  "spent state_hash rows = (\<forall>x \<in> set rows. o_state_hash x = state_hash \<longrightarrow> o_consumed_at x \<noteq> None)"

lemma wp_find_state:
  assumes "db_ok (w_db s)"
  shows "wp (query_one (\<lambda>d. filter (\<lambda>x. o_state_hash x = h) (oidc_states d))) Q E s \<longleftrightarrow>
    (if \<exists>x \<in> set (oidc_states (w_db s)). o_state_hash x = h
     then \<exists>x \<in> set (oidc_states (w_db s)). o_state_hash x = h \<and> Q (Some x) s else Q None s)"
  by (rule wp_query_one_unique [where f = o_state_hash and k = h])
    (use assms in \<open>auto simp: db_ok_def oidc_states_ok_def\<close>)

text \<open>Consuming spends the state, or says why not and changes nothing.\<close>

lemma consume_oidc_state_spec:
  fixes s :: "('l, 'c) world"
  assumes ok: "db_ok (w_db s)"
    and no: "\<And>status r. status \<noteq> Consumed \<Longrightarrow> status \<noteq> Browser_binding_mismatch \<Longrightarrow> Q (status, r) s"
    and other: "\<And>x. x \<in> set (oidc_states (w_db s)) \<Longrightarrow> o_state_hash x = h \<Longrightarrow> o_consumed_at x = None \<Longrightarrow>
      o_browser_binding_hash x \<noteq> b \<Longrightarrow> Q (Browser_binding_mismatch, Some x) s"
    and yes: "\<And>x t y rows. x \<in> set (oidc_states (w_db s)) \<Longrightarrow> o_state_hash x = h \<Longrightarrow> o_consumed_at x = None \<Longrightarrow>
      now < o_expires_at x \<Longrightarrow> o_browser_binding_hash x = b \<Longrightarrow> t = s\<lparr>w_db := (w_db s)\<lparr>oidc_states := rows\<rparr>\<rparr> \<Longrightarrow>
      spent h rows \<Longrightarrow> y = x\<lparr>o_consumed_at := Some (trunc_ms now)\<rparr> \<Longrightarrow> Q (Consumed, Some y) t"
  shows "wp (consume_oidc_authorization_state h b now) Q E s"
proof -
  let ?g = "\<lambda>y. y\<lparr>o_consumed_at := Some (trunc_ms now)\<rparr>"
  have sp: "spent h (update_rows (\<lambda>y. o_id y = o_id x) ?g (oidc_states (w_db s)))"
    if "x \<in> set (oidc_states (w_db s))" "o_state_hash x = h" for x
  proof -
    have d: "distinct (map o_state_hash (oidc_states (w_db s)))" using ok by (simp add: db_ok_def oidc_states_ok_def)
    have "z = x" if "z \<in> set (oidc_states (w_db s))" "o_state_hash z = h" for z
      using inj_key [OF d that(1) \<open>x \<in> _\<close>] that(2) \<open>o_state_hash x = h\<close> by simp
    then show ?thesis by (auto simp: spent_def set_update_rows split: if_splits)
  qed
  have "wp (bind (query_one (\<lambda>d. filter (\<lambda>x. o_state_hash x = h) (oidc_states d))) (\<lambda>found. case found of
         None \<Rightarrow> ok (State_mismatch, None)
       | Some x \<Rightarrow>
           if o_consumed_at x \<noteq> None then ok (Already_consumed, Some x)
           else if o_expires_at x \<le> now then ok (Expired, Some x)
           else if o_browser_binding_hash x \<noteq> b then ok (Browser_binding_mismatch, Some x)
           else
             seq (modify_db (\<lambda>d. d\<lparr>oidc_states := update_rows (\<lambda>y. o_id y = o_id x) ?g (oidc_states d)\<rparr>))
               (ok (Consumed, Some (?g x))))) Q E' s" for E'
    unfolding wp_bind wp_find_state [OF ok]
  proof (rule if_bexI)
    fix x assume x: "x \<in> set (oidc_states (w_db s))" "o_state_hash x = h"
    show "wp (case Some x of
         None \<Rightarrow> ok (State_mismatch, None)
       | Some x \<Rightarrow>
           if o_consumed_at x \<noteq> None then ok (Already_consumed, Some x)
           else if o_expires_at x \<le> now then ok (Expired, Some x)
           else if o_browser_binding_hash x \<noteq> b then ok (Browser_binding_mismatch, Some x)
           else
             seq (modify_db (\<lambda>d. d\<lparr>oidc_states := update_rows (\<lambda>y. o_id y = o_id x) ?g (oidc_states d)\<rparr>))
               (ok (Consumed, Some (?g x)))) Q E' s"
      using x sp [OF x] by (auto simp: wp_simps intro: no yes other)
  qed (simp add: wp_ok no)
  then show ?thesis
    unfolding consume_oidc_authorization_state_def Let_def wp_session_scope
    by (cases "w_in_tx s") (simp_all only: if_True if_False not_False_eq_True)
qed

text \<open>The refusals that a callback reports before the flow starts.\<close>

definition turned_away :: "string \<Rightarrow> exn + 'a \<Rightarrow> bool" where
  "turned_away provider_id r =
     (case r of Inr _ \<Rightarrow> False | Inl e \<Rightarrow>
        e = OidcStateMismatchError \<or> e = OidcBrowserBindingMismatchError \<or> e = OidcProviderNotConfiguredError provider_id)"

text \<open>What follows the consumption sees a spent state; a refusal is one of those above.\<close>

lemma wp_consume_callback_state:
  fixes s :: "('l, 'c) world"
  assumes ok: "db_ok (w_db s)"
    and no: "\<And>t. E OidcStateMismatchError t" "\<And>t. E OidcBrowserBindingMismatchError t"
    and yes: "\<And>x y t. consumable app (w_db s) (w_clock s (w_clock_n s)) state cookie x \<Longrightarrow>
      o_provider_id x = op_provider_id provider \<Longrightarrow> (\<exists>c. y = x\<lparr>o_consumed_at := c\<rparr>) \<Longrightarrow>
      spent (hash_token app state) (oidc_states (w_db t)) \<Longrightarrow>
      w_db t = (w_db s)\<lparr>oidc_states := oidc_states (w_db t)\<rparr> \<Longrightarrow> w_client t = w_client s \<Longrightarrow> w_clock t = w_clock s \<Longrightarrow>
      w_clock_n t = Suc (w_clock_n s) \<Longrightarrow> Q y t"
  shows "wp (consume_callback_state app provider state cookie) Q E s"
proof (cases cookie)
  case (Some b)
  let ?t = "s\<lparr>w_clock_n := Suc (w_clock_n s)\<rparr>" and ?now = "w_clock s (w_clock_n s)"
  let ?Q = "\<lambda>(status, found). wp (if status \<in> {State_mismatch, Expired, Already_consumed} then raise OidcStateMismatchError
          else if status = Browser_binding_mismatch then raise OidcBrowserBindingMismatchError
          else case found of
            None \<Rightarrow> raise OidcStateMismatchError
          | Some oidc_state \<Rightarrow>
              if o_provider_id oidc_state \<noteq> op_provider_id provider then raise OidcStateMismatchError
              else ok oidc_state) Q E"
  have step: "wp (consume_oidc_authorization_state (hash_token app state) (hash_token app b) ?now) (\<lambda>r u. ?Q r (F u)) E' v"
    if v: "w_db v = w_db s" "w_client v = w_client s" "w_clock v = w_clock s" "w_clock_n v = Suc (w_clock_n s)"
      and F: "F = (\<lambda>u. u) \<or> F = w_in_tx_update (\<lambda>_. False)" for F E' and v :: "('l, 'c) world"
  proof (rule consume_oidc_state_spec)
    fix x t y rows
    assume "x \<in> set (oidc_states (w_db v))" "o_state_hash x = hash_token app state" "o_consumed_at x = None"
      "?now < o_expires_at x" "o_browser_binding_hash x = hash_token app b"
      "t = v\<lparr>w_db := (w_db v)\<lparr>oidc_states := rows\<rparr>\<rparr>"
      "spent (hash_token app state) rows" "y = x\<lparr>o_consumed_at := Some (trunc_ms ?now)\<rparr>"
    with v F show "?Q (Consumed, Some y) (F t)"
      by (auto simp: wp_simps no consumable_def Some intro!: yes)
  next
    fix status :: consume_status and r
    assume "status \<noteq> Consumed" "status \<noteq> Browser_binding_mismatch"
    then show "?Q (status, r) (F v)" by (cases status) (simp_all add: wp_raise no)
  qed (use ok v in \<open>simp_all add: wp_raise no\<close>)
  show ?thesis
    unfolding consume_callback_state_def Some option.case wp_bind [where m = utcnow] wp_utcnow
      wp_bind [where m = "transaction m" for m] wp_transaction
    using step [where F = "\<lambda>u. u" and v = ?t] step [where F = "w_in_tx_update (\<lambda>_. False)" and v = "?t\<lparr>w_in_tx := True\<rparr>"]
    by (cases "w_in_tx s") (simp_all add: case_prod_unfold)
qed (simp add: consume_callback_state_def wp_raise no)

subsection \<open>Nothing after the consumption touches the states\<close>

abbreviation about_states :: "(auth_oidc_state list \<Rightarrow> bool) \<Rightarrow> ('l, 'c) world \<Rightarrow> bool" where
  "about_states R \<equiv> winv (\<lambda>d. R (oidc_states d)) (\<lambda>_. True)"

lemmas keeps_table = keeps_intros keeps_statement keeps_modify_db

lemma keeps_states_audit:
  "keeps (about_states R) (create_audit_log e)"
  "keeps (about_states R) (audit u si ev ip ua det)"
  "keeps (about_states R) (audit_oidc_failure ev pid pu x ip ua uo so)"
  "keeps (about_states R) (audit_oidc_event ev uid sid pid pu ip ua)"
  "keeps (about_states R) (audit_callback_failure st pr cs x ip ua)"
  unfolding audit_callback_failure_def audit_oidc_failure_def audit_oidc_event_def audit_def create_audit_log_def
    insert_audit_log_def
  by (intro keeps_table; simp)+

lemma keeps_states_sessions:
  "keeps (about_states R) (revoke_session sid)"
  "keeps (about_states R) (create_session uid h c i l e ip ua)"
  "keeps (about_states R) (record_user_login uid t)"
  "keeps (about_states R) (record_oidc_login uid iid sid t pt)"
  "keeps (about_states R) (record_oidc_reauth sid t)"
  unfolding revoke_session_def create_session_def insert_session_def update_sessions_def record_user_login_def
    update_users_def record_oidc_login_def record_oidc_reauth_def Let_def
  by (intro keeps_table; simp)+

lemma keeps_states_accounts:
  "keeps (about_states R) (create_user em ph lang)"
  "keeps (about_states R) (create_auth_identity i)"
  unfolding create_user_def insert_user_def create_auth_identity_def insert_identity_def Let_def
  by (intro keeps_table; simp)+

lemma keeps_states_replace: "keeps (about_states R) (replace_auth_session app user cur ip ua)"
  unfolding replace_auth_session_def
  by (intro keeps_intros keeps_states_sessions)

lemma keeps_states_callback_flow:
  "keeps (about_states R) (callback_flow app pr st code cs cur ip ua)"
  unfolding callback_flow_def complete_reauth_callback_def complete_login_callback_def resolve_login_user_and_identity_def Let_def
  by (intro keeps_intros keeps_states_audit keeps_states_sessions keeps_states_accounts keeps_states_replace)

subsection \<open>A state is used once\<close>

lemma wp_callback_consumes:
  fixes s :: "('l, 'c) world"
  assumes ok: "db_ok (w_db s)"
  shows "wp (complete_callback app pid state code cookie cs cur ip ua)
    (\<lambda>_ t. (\<exists>x. consumable app (w_db s) (w_clock s (w_clock_n s)) state cookie x) \<and> spent (hash_token app state) (oidc_states (w_db t)))
    (\<lambda>e t. \<not> turned_away pid (Inl e :: exn + oidc_callback_result) \<longrightarrow>
       (\<exists>x. consumable app (w_db s) (w_clock s (w_clock_n s)) state cookie x) \<and> spent (hash_token app state) (oidc_states (w_db t))) s"
proof (cases "get_provider (oidc_settings_of app) pid")
  case (Some provider)
  let ?h = "hash_token app state"
  have k: "keeps (about_states (spent ?h)) (catch (callback_flow app provider y code cs cur ip ua)
      (\<lambda>e. seq (audit_callback_failure y provider cs e ip ua)
         (raise (OidcCallbackFlowError e (o_purpose y) (o_redirect_path y)))))" for y
    by (intro keeps_intros keeps_states_callback_flow keeps_states_audit)
  show ?thesis
    unfolding complete_callback_def Some option.case wp_bind [where m = "consume_callback_state a b c d" for a b c d]
    by (rule wp_consume_callback_state [OF ok], simp_all add: turned_away_def,
        rule wp_mono [OF keeps_wp [OF k]]) (auto simp: winv_def)
qed (simp add: complete_callback_def wp_raise turned_away_def)

lemma spent_refused:
  fixes s :: "('l, 'c) world"
  assumes ok: "db_ok (w_db s)" and sp: "spent (hash_token app state) (oidc_states (w_db s))"
  shows "wp (complete_callback app pid state code cookie cs cur ip ua) (\<lambda>_ _. False)
    (\<lambda>e _. turned_away pid (Inl e :: exn + oidc_callback_result)) s"
  using wp_callback_consumes [OF ok, of app pid state code cookie cs cur ip ua] sp
  by - (rule wp_mono, assumption, auto simp: spent_def consumable_def)

text \<open>
  C17: an authorization can be completed once, and only by the browser that started it. A
  callback that is not turned away at once presented a state that was stored, not consumed and not
  expired, together with the cookie of the browser that started the authorization; and however the
  flow went on, even when it failed, the same state is turned away from then on, whoever presents it.
\<close>

theorem oidc_state_single_use:
  fixes s s' :: "('l, 'c) world"
  assumes inv: "app_inv (auth_settings_of app) {} (w_db s)"
    and r: "complete_callback app pid state code cookie cs cur ip ua s = (r, s')"
    and went_on: "\<not> turned_away pid r"
  shows "(\<exists>x. consumable app (w_db s) (w_clock s (w_clock_n s)) state cookie x)
    \<and> turned_away pid' (fst (complete_callback app pid' state code' cookie' cs' cur' ip' ua' s'))"
proof -
  have ok: "db_ok (w_db s)" by (rule app_invD(1) [OF inv])
  have "winv (app_inv (auth_settings_of app) {}) (\<lambda>_. True) s" using inv by (simp add: winv_def)
  from keepsD [OF keeps_complete_callback(1) [OF refl] this, of pid state code cookie cs cur ip ua] r have ok': "db_ok (w_db s')"
    by (simp add: winv_def app_inv_def)
  have "(\<exists>x. consumable app (w_db s) (w_clock s (w_clock_n s)) state cookie x) \<and> spent (hash_token app state) (oidc_states (w_db s'))"
    using wp_callback_consumes [OF ok, of app pid state code cookie cs cur ip ua] r went_on
    by (cases r) (auto simp: wp_def turned_away_def)
  moreover from this spent_refused [OF ok', of app state pid' code' cookie' cs' cur' ip' ua']
  have "turned_away pid' (fst (complete_callback app pid' state code' cookie' cs' cur' ip' ua' s'))"
    by (auto simp: turned_away_def dest!: wp_raisesD)
  ultimately show ?thesis by blast
qed

text \<open>A browser has just been sent to the provider: the state is \<open>token0\<close>, the cookie \<open>token1\<close>.\<close>

definition demo_state :: "oidc_purpose \<Rightarrow> uuid option \<Rightarrow> uuid option \<Rightarrow> auth_oidc_state" where
  "demo_state purpose uid sid = \<lparr>o_id = 100, o_state_hash = ''h:token0'', o_browser_binding_hash = ''h:token1'', o_nonce_hash = ''h:token2'',
     o_pkce_verifier = ''token3'', o_provider_id = ''idp'', o_purpose = purpose, o_expected_user_id = uid, o_expected_session_id = sid,
     o_redirect_path = ''/items'', o_login_hint = None, o_language_code = None, o_expires_at = seconds 660, o_consumed_at = None\<rparr>"

definition demo_started :: "(in_memory_limiter, oidc_verified_claims) world" where
  "demo_started = demo_running\<lparr>w_db := demo_database\<lparr>oidc_states := [demo_state Login None None]\<rparr>\<rparr>"

lemma demo_started_inv: "app_inv (auth_settings_of (demo_app in_memory_ops)) {} (w_db demo_started)"
  unfolding app_inv_def db_ok_def by code_simp

lemma demo_login_callback:
  obtains res r s' where "complete_callback (demo_app in_memory_ops) ''idp'' ''token0'' ''code'' (Some ''token1'') None None None None demo_started = (Inr res, s')"
    "cr_issued_session res = Some r" "is_session_token r \<noteq> []" "trunc_ms (w_clock s' (w_clock_n s')) < s_expires_at (is_session r)"
proof -
  have "case complete_callback (demo_app in_memory_ops) ''idp'' ''token0'' ''code'' (Some ''token1'') None None None None demo_started
    of (Inl e, s') \<Rightarrow> False
     | (Inr res, s') \<Rightarrow> (case cr_issued_session res of None \<Rightarrow> False | Some r \<Rightarrow>
         is_session_token r \<noteq> [] \<and> trunc_ms (w_clock s' (w_clock_n s')) < s_expires_at (is_session r))" by code_simp
  then show ?thesis using that by (auto split: prod.splits sum.splits option.splits)
qed

lemma oidc_state_single_use_witness:
  "\<exists>r s'. complete_callback (demo_app in_memory_ops) ''idp'' ''token0'' ''code'' (Some ''token1'') None None None None demo_started
       = (Inr r, s')
     \<and> turned_away ''idp'' (fst (complete_callback (demo_app in_memory_ops) ''idp'' ''token0'' ''code'' (Some ''token1'') None None None None s'))"
proof -
  obtain r s' where r: "complete_callback (demo_app in_memory_ops) ''idp'' ''token0'' ''code'' (Some ''token1'') None None None None demo_started = (Inr r, s')"
    by (rule demo_login_callback)
  have "\<not> turned_away ''idp'' (Inr r :: exn + oidc_callback_result)" by (simp add: turned_away_def)
  from oidc_state_single_use [OF demo_started_inv r this, of "''idp''" "''code''" "Some ''token1''" None None None None] r
  show ?thesis by blast
qed

subsection \<open>Who may log in\<close>

definition linked_identity :: "oidc_provider \<Rightarrow> oidc_verified_claims \<Rightarrow> uuid \<Rightarrow> auth_identity list \<Rightarrow> bool" where
  "linked_identity provider claims uid rows =
     (\<exists>i \<in> set rows. (i_provider_id i = op_provider_id provider \<and> i_provider_subject i = vc_subject claims) \<and> i_user_id i = uid)"

text \<open>
  The accounts that the claims entitle to a login: the one linked to the subject; without such a
  link, and only with an address that the provider verified and is trusted for, the active account
  with that address when links are made automatically, or a new account when accounts are
  provisioned automatically and no account has the address.
\<close>

definition entitled :: "oidc_provider \<Rightarrow> oidc_verified_claims \<Rightarrow> database \<Rightarrow> user \<Rightarrow> bool" where
  "entitled provider claims d u =
     (let active = (\<lambda>v. v \<in> set (users d) \<and> u_id v = u_id u \<and> u_deleted_at v = None \<and> u_is_active v) in
      if \<exists>uid. linked_identity provider claims uid (auth_identities d)
      then linked_identity provider claims (u_id u) (auth_identities d) \<and> (\<exists>v. active v)
      else \<exists>e. trusted_verified_email provider claims = Inr e \<and>
        ((op_link_mode provider = Link_auto \<and> (\<exists>v. active v \<and> lower (u_email v) = normalize_email e))
         \<or> (allows_auto_provision provider \<and> u_id u \<notin> user_ids d \<and> u_email u = e \<and>
            \<not> (\<exists>v \<in> set (users d). lower (u_email v) = normalize_email e \<and> u_deleted_at v = None))))"

lemma wp_create_user_new:
  assumes Q: "\<And>u t. u_email u = email \<Longrightarrow> u_is_active u \<Longrightarrow> u_deleted_at u = None \<Longrightarrow> u_id u \<notin> user_ids (w_db s) \<Longrightarrow>
      w_db t = (w_db s)\<lparr>users := users (w_db s) @ [u]\<rparr> \<Longrightarrow> Q u t"
  shows "wp (create_user email ph lang) Q (\<lambda>_ _. True) s"
  unfolding create_user_def insert_user_def Let_def
  by (auto simp: wp_session_scope wp_simps users_ok_def intro!: Q)

lemma wp_attach_identity:
  assumes f: "\<And>i t. users (w_db t) = users (w_db s) \<Longrightarrow> linked_identity pr cl uid (auth_identities (w_db t)) \<Longrightarrow>
      wp (f i) Q (\<lambda>_ _. True) t"
  shows "wp (bind (identity_for_claims pr cl uid) (\<lambda>i. bind (create_auth_identity i) f)) Q (\<lambda>_ _. True) s"
  unfolding identity_for_claims_def create_auth_identity_def insert_identity_def Let_def
  by (auto simp: wp_simps wp_session_scope linked_identity_def intro!: f)

definition resolved :: "oidc_provider \<Rightarrow> oidc_verified_claims \<Rightarrow> database \<Rightarrow> user \<Rightarrow> database \<Rightarrow> bool" where
  "resolved provider claims d u d' =
     (entitled provider claims d u \<and> linked_identity provider claims (u_id u) (auth_identities d') \<and>
      u \<in> set (users d') \<and> u_deleted_at u = None \<and> u_is_active u)"

lemma resolve_login_spec:
  fixes s :: "('l, 'c) world"
  assumes ok: "db_ok (w_db s)"
  shows "wp (resolve_login_user_and_identity provider claims lang)
    (\<lambda>(u, i, ev) t. resolved provider claims (w_db s) u (w_db t)) (\<lambda>_ _. True) s" (is "wp _ ?Q _ s")
proof -
  let ?match = "\<lambda>x. i_provider_id x = op_provider_id provider \<and> i_provider_subject x = vc_subject claims"
  show ?thesis
    unfolding resolve_login_user_and_identity_def wp_bind [where m = "find_identity_by_provider_subject a b" for a b]
      wp_find_identity [OF ok]
  proof (rule if_bexI, goal_cases)
    case 1
    then have none: "\<nexists>uid. linked_identity provider claims uid (auth_identities (w_db s))" by (auto simp: linked_identity_def)
    show ?case
    proof (cases "trusted_verified_email provider claims")
      case (Inr e)
      have link: "wp (bind (identity_for_claims provider claims (u_id u)) (\<lambda>ni. bind (create_auth_identity ni)
          (\<lambda>identity. ok (u, identity, [OIDC_IDENTITY_LINKED])))) ?Q (\<lambda>_ _. True) s"
        if "u \<in> set (users (w_db s))" "lower (u_email u) = normalize_email e" "u_deleted_at u = None" "u_is_active u"
          "op_link_mode provider = Link_auto" for u
        by (rule wp_attach_identity) (use that none Inr in \<open>auto simp: wp_ok resolved_def entitled_def\<close>)
      have prov: "wp (bind (catch (create_user e None lg)
              (\<lambda>x. if x = EmailAlreadyRegisteredError then raise OidcIdentityUnavailableError else raise x)) (\<lambda>user.
            bind (identity_for_claims provider claims (u_id user)) (\<lambda>ni. bind (create_auth_identity ni)
              (\<lambda>identity. ok (user, identity, [OIDC_USER_PROVISIONED]))))) ?Q (\<lambda>_ _. True) s"
        if "\<not> (\<exists>v \<in> set (users (w_db s)). lower (u_email v) = normalize_email e \<and> u_deleted_at v = None)"
          "allows_auto_provision provider" for lg
        unfolding wp_bind [where m = "catch a b" for a b]
      proof (rule wp_catch_raising, rule wp_create_user_new)
        fix u and t :: "('l, 'c) world"
        assume u: "u_email u = e" "u_is_active u" "u_deleted_at u = None" "u_id u \<notin> user_ids (w_db s)"
          "w_db t = (w_db s)\<lparr>users := users (w_db s) @ [u]\<rparr>"
        show "wp (bind (identity_for_claims provider claims (u_id u)) (\<lambda>ni. bind (create_auth_identity ni)
              (\<lambda>identity. ok (u, identity, [OIDC_USER_PROVISIONED])))) ?Q (\<lambda>_ _. True) t"
          by (rule wp_attach_identity) (use that none Inr u in \<open>auto simp: wp_ok resolved_def entitled_def\<close>)
      qed (simp add: wp_raise)
      show ?thesis
        unfolding option.case Inr wp_bind [where m = "lift r" for r] wp_lift sum.case
          wp_bind [where m = "find_user_by_verified_email_for_oidc_link x" for x]
      proof (rule wp_find_for_link [OF ok], goal_cases)
        case 1
        show ?case
          unfolding option.case wp_bind [where m = "find_user_by_email_for_oidc_collision x" for x]
          by (rule wp_find_for_collision [OF ok]) (auto simp: wp_raise intro!: prov)
      next
        case (2 u)
        then show ?case by (auto simp: wp_raise intro!: link)
      qed
    qed (simp add: wp_bind [where m = "lift r" for r] wp_lift)
  next
    case (2 i)
    then have l: "linked_identity provider claims (i_user_id i) (auth_identities (w_db s))" by (auto simp: linked_identity_def)
    then have ex: "\<exists>uid. linked_identity provider claims uid (auth_identities (w_db s))" by blast
    show ?case
      unfolding option.case wp_bind [where m = "find_user_by_id_for_authentication x" for x]
      by (rule wp_find_user_cases [OF ok]) (use l ex in \<open>auto simp: wp_raise wp_ok resolved_def entitled_def Let_def\<close>)
  qed
qed

subsection \<open>A login through a provider\<close>

abbreviation about_identities :: "(auth_identity list \<Rightarrow> bool) \<Rightarrow> ('l, 'c) world \<Rightarrow> bool" where
  "about_identities R \<equiv> winv (\<lambda>d. R (auth_identities d)) (\<lambda>_. True)"

lemma keeps_identities_sessions:
  "keeps (about_identities R) (revoke_session sid)"
  "keeps (about_identities R) (create_session uid h c i l e ip ua)"
  "keeps (about_identities R) (record_user_login uid t)"
  unfolding revoke_session_def create_session_def insert_session_def update_sessions_def record_user_login_def
    update_users_def Let_def
  by (intro keeps_table; simp)+

lemma keeps_identities_replace: "keeps (about_identities R) (replace_auth_session app user cur ip ua)"
  unfolding replace_auth_session_def
  by (intro keeps_intros keeps_identities_sessions)

lemma wp_audit_only:
  assumes "\<And>t a. w_db t = (w_db s)\<lparr>auth_audit_logs := a\<rparr> \<Longrightarrow> Q () t"
  shows "wp (audit u si ev ip ua det) Q (\<lambda>_ _. True) s"
  unfolding audit_def create_audit_log_def insert_audit_log_def
  by (auto simp: wp_simps wp_session_scope intro!: assms split: option.splits)

text \<open>The row of an issued session, but for the time of the provider's authentication.\<close>

definition issued_row :: "('l, 'c) app \<Rightarrow> user \<Rightarrow> auth_session \<Rightarrow> string \<Rightarrow> database \<Rightarrow> bool" where
  "issued_row app user x tok d =
     (\<exists>y \<in> set (auth_sessions d). s_id y = s_id x \<and> s_user_id y = u_id user \<and>
        s_session_token_hash y = hash_token app tok \<and> s_revoked_at y = None \<and> s_expires_at y = s_expires_at x)"

lemma bex_update_rowsI: "x \<in> set rows \<Longrightarrow> R (if P x then g x else x) \<Longrightarrow> \<exists>y \<in> set (update_rows P g rows). R y"
  unfolding update_rows_def set_map by blast

lemma wp_record_oidc_login:
  assumes x: "issued_row app v x tok (w_db s)" and v: "v \<in> set (users (w_db s))" "u_last_logged_in_at v = Some (trunc_ms t)"
    and l: "linked_identity pr cl (u_id v) (auth_identities (w_db s))"
    and Q: "\<And>t. issued_row app v x tok (w_db t) \<Longrightarrow> v \<in> set (users (w_db t)) \<Longrightarrow>
      linked_identity pr cl (u_id v) (auth_identities (w_db t)) \<Longrightarrow> Q () t"
  shows "wp (record_oidc_login (u_id v) iid (s_id x) t pt) Q (\<lambda>_ _. True) s"
proof -
  have u: "v \<in> set (update_rows (\<lambda>x. u_id x = u_id v) (\<lambda>x. x\<lparr>u_last_logged_in_at := Some (trunc_ms t)\<rparr>) (users (w_db s)))"
  proof -
    have "v = v\<lparr>u_last_logged_in_at := Some (trunc_ms t)\<rparr>" using v(2) by simp
    with v(1) show ?thesis unfolding update_rows_def set_map by (intro image_eqI [of _ _ v]) simp_all
  qed
  have i: "linked_identity pr cl (u_id v) (update_rows P (\<lambda>i. i\<lparr>i_last_logged_in_at := z\<rparr>) (auth_identities (w_db s)))" for P z
    using l unfolding linked_identity_def by (elim bexE) (rule bex_update_rowsI, auto)
  have s: "issued_row app v x tok ((w_db s)\<lparr>auth_identities := q, auth_sessions := update_rows (\<lambda>y. s_id y = s_id x)
      (\<lambda>y. y\<lparr>s_last_oidc_authenticated_at := z\<rparr>) (auth_sessions (w_db s)), users := us\<rparr>)"
    "issued_row app v x tok ((w_db s)\<lparr>auth_identities := q, users := us\<rparr>)" for q z us
    using x unfolding issued_row_def by (auto intro!: bex_update_rowsI)
  show ?thesis
    unfolding record_oidc_login_def update_sessions_def update_users_def
    by (auto simp: wp_simps wp_session_scope split: option.splits intro!: Q) (use u i s in auto)
qed

text \<open>What a login through a provider leaves behind when it returns.\<close>

definition provider_login ::
    "('l, 'c) app \<Rightarrow> oidc_provider \<Rightarrow> oidc_verified_claims \<Rightarrow> database \<Rightarrow> user \<Rightarrow> auth_session \<Rightarrow> string \<Rightarrow> database \<Rightarrow> bool" where
  "provider_login app provider claims d u x tok d' =
     (entitled provider claims d u \<and> u \<in> set (users d') \<and> u_deleted_at u = None \<and> u_is_active u \<and>
      linked_identity provider claims (u_id u) (auth_identities d') \<and> issued_row app u x tok d')"

lemma wp_login_audits:
  fixes t :: "('l, 'c) world"
  assumes I: "provider_login app provider claims d v x tok (w_db t)"
    and Q: "\<And>t. provider_login app provider claims d v x tok (w_db t) \<Longrightarrow> Q (v, x, tok, csrf) t"
  shows "wp (seq (for_each evs (\<lambda>e. audit_oidc_event e (u_id v) (s_id x) pid pu ip ua))
       (seq (audit_oidc_event OIDC_LOGIN_SUCCESS (u_id v) (s_id x) pid pu ip ua) (ok (v, x, tok, csrf)))) Q (\<lambda>_ _. True) t"
proof -
  let ?I = "\<lambda>w. provider_login app provider claims d v x tok (w_db w)"
  have a: "wp (audit_oidc_event e (u_id v) (s_id x) pid pu ip ua) (\<lambda>_. ?I) (\<lambda>_ _. True) w"
    if "?I w" for e and w :: "('l, 'c) world"
    unfolding audit_oidc_event_def
    by (rule wp_audit_only) (use that in \<open>simp add: provider_login_def issued_row_def\<close>)
  show ?thesis
    by (rule wp_seqI [OF wp_for_each [where I = ?I, OF I a]], assumption, rule wp_seqI [OF a], assumption) (simp add: wp_ok Q)
qed

lemma wp_replace_and_record:
  fixes t :: "('l, 'c) world"
  assumes u: "entitled provider claims d v" "u_deleted_at v = None" "u_is_active v" "u_last_logged_in_at v = Some (trunc_ms now)"
    and t: "v \<in> set (users (w_db t))" "db_ok (w_db t)" "linked_identity provider claims (u_id v) (auth_identities (w_db t))"
    and Q: "\<And>x tok csrf t. provider_login app provider claims d v x tok (w_db t) \<Longrightarrow> Q (v, x, tok, csrf) t"
  shows "wp (bind (replace_auth_session app v cur ip ua) (\<lambda>(session, session_token, csrf_token).
        seq (record_oidc_login (u_id v) iid (s_id session) now pt)
       (seq (for_each evs (\<lambda>event_type. audit_oidc_event event_type (u_id v) (s_id session) pid pu ip ua))
       (seq (audit_oidc_event OIDC_LOGIN_SUCCESS (u_id v) (s_id session) pid pu ip ua)
         (ok (v, session, session_token, csrf_token)))))) Q (\<lambda>_ _. True) t"
proof -
  let ?link = "linked_identity provider claims (u_id v)"
  have "wp (replace_auth_session app v cur ip ua) (\<lambda>(x, tok, csrf) w. fresh_session app v (w_db w) x tok csrf \<and>
      users (w_db w) = users (w_db t)) (\<lambda>_ _. True) t"
    by (rule replace_auth_session_spec [OF t(2)]) simp
  moreover have "wp (replace_auth_session app v cur ip ua) (\<lambda>_. about_identities ?link) (\<lambda>_. about_identities ?link) t"
    by (rule keeps_wp [OF keeps_identities_replace]) (use t in \<open>simp add: winv_def\<close>)
  ultimately have "wp (replace_auth_session app v cur ip ua) (\<lambda>(x, tok, csrf) w. issued_row app v x tok (w_db w) \<and>
      v \<in> set (users (w_db w)) \<and> ?link (auth_identities (w_db w))) (\<lambda>_ _. True) t"
    by (rule wp_mono [OF wp_conj]) (use t(1) in \<open>auto simp: winv_def issued_row_def fresh_session_def\<close>)
  then show ?thesis
  proof (rule wp_bindI, clarify)
    fix x tok csrf and w :: "('l, 'c) world"
    assume r: "issued_row app v x tok (w_db w)" "v \<in> set (users (w_db w))" "?link (auth_identities (w_db w))"
    show "wp (seq (record_oidc_login (u_id v) iid (s_id x) now pt)
       (seq (for_each evs (\<lambda>event_type. audit_oidc_event event_type (u_id v) (s_id x) pid pu ip ua))
       (seq (audit_oidc_event OIDC_LOGIN_SUCCESS (u_id v) (s_id x) pid pu ip ua) (ok (v, x, tok, csrf))))) Q (\<lambda>_ _. True) w"
      unfolding wp_seq [where m = "record_oidc_login a b c d e" for a b c d e]
      by (rule wp_record_oidc_login [OF r(1,2) u(4) r(3)], rule wp_login_audits)
        (use u in \<open>auto simp: provider_login_def intro!: Q\<close>)
  qed
qed

lemma wp_login_tx:
  fixes s :: "('l, 'c) world"
  assumes u: "resolved provider claims d u (w_db s)" and ok: "db_ok (w_db s)"
    and Q: "\<And>v x tok csrf t. provider_login app provider claims d v x tok (w_db t) \<Longrightarrow> Q (v, x, tok, csrf) t"
  shows "wp (bind utcnow (\<lambda>login_at.
        bind (record_user_login (u_id u) login_at) (\<lambda>user.
        bind (replace_auth_session app user cur ip ua)
          (\<lambda>(session, session_token, csrf_token).
        seq (record_oidc_login (u_id user) iid (s_id session) login_at pt)
       (seq (for_each evs (\<lambda>event_type. audit_oidc_event event_type (u_id user) (s_id session) pid pu ip ua))
       (seq (audit_oidc_event OIDC_LOGIN_SUCCESS (u_id user) (s_id session) pid pu ip ua)
         (ok (user, session, session_token, csrf_token)))))))) Q (\<lambda>_ _. True) s"
proof -
  let ?link = "linked_identity provider claims (u_id u)"
  let ?now = "w_clock s (w_clock_n s)" and ?s1 = "s\<lparr>w_clock_n := Suc (w_clock_n s)\<rparr>"
  have "wp (record_user_login (u_id u) ?now) (\<lambda>v t. v = u\<lparr>u_last_logged_in_at := Some (trunc_ms ?now)\<rparr> \<and> v \<in> set (users (w_db t)) \<and>
      db_ok (w_db t)) (\<lambda>_ _. True) ?s1"
    by (rule wp_record_login_found) (use u ok in \<open>simp_all add: resolved_def\<close>)
  moreover have "wp (record_user_login (u_id u) ?now) (\<lambda>_. about_identities ?link) (\<lambda>_. about_identities ?link) ?s1"
    by (rule keeps_wp [OF keeps_identities_sessions(3)]) (use u in \<open>simp add: winv_def resolved_def\<close>)
  ultimately have "wp (record_user_login (u_id u) ?now) (\<lambda>v t. (v = u\<lparr>u_last_logged_in_at := Some (trunc_ms ?now)\<rparr> \<and>
      v \<in> set (users (w_db t)) \<and> db_ok (w_db t)) \<and> about_identities ?link t) (\<lambda>_ _. True) ?s1"
    by (rule wp_mono [OF wp_conj]) auto
  then show ?thesis
    unfolding wp_bind [where m = utcnow] wp_utcnow
    by (rule wp_bindI, intro wp_replace_and_record [where provider = provider and claims = claims and d = d])
      (use u in \<open>auto simp: winv_def resolved_def entitled_def intro!: Q\<close>)
qed

lemma complete_login_spec:
  fixes s :: "('l, 'c) world"
  assumes inv: "app_inv S {} (w_db s)"
  shows "wp (complete_login_callback app provider st claims cur ip ua)
    (\<lambda>res t. \<exists>r. cr_issued_session res = Some r \<and>
       provider_login app provider claims (w_db s) (is_user r) (is_session r) (is_session_token r) (w_db t)) (\<lambda>_ _. True) s"
proof -
  let ?R = "\<lambda>(u, x, tok, csrf) t. provider_login app provider claims (w_db s) u x tok (w_db t)"
  have res: "wp (resolve_login_user_and_identity provider claims lang)
      (\<lambda>(u, i, ev) t. resolved provider claims (w_db s) u (w_db t) \<and> db_ok (w_db t)) (\<lambda>_ _. True) (s\<lparr>w_in_tx := b\<rparr>)" for lang b
  proof -
    have s: "app_inv S {} (w_db (s\<lparr>w_in_tx := b\<rparr>))" using inv by simp
    then have "winv (app_inv S {}) (\<lambda>_. True) (s\<lparr>w_in_tx := b\<rparr>)" by (simp add: winv_def)
    from keeps_wp [OF keeps_resolve_login this] show ?thesis
      by (rule wp_mono [OF wp_conj [OF resolve_login_spec [OF app_invD(1) [OF s]]]]) (auto simp: winv_def app_inv_def)
  qed
  show ?thesis
    unfolding complete_login_callback_def Let_def wp_bind [where m = "transaction m" for m]
    by (rule wp_transactionI [where R = ?R], rule wp_bindI [OF res], clarify, rule wp_login_tx)
      (auto simp: wp_bind wp_ok intro!: wp_authorization_total)
qed

lemma reauth_issues_nothing:
  "wp (complete_reauth_callback app provider st claims cs ip ua) (\<lambda>res _. cr_issued_session res = None) (\<lambda>_ _. True) s"
  unfolding complete_reauth_callback_def
  by (auto simp: wp_raise split: option.splits intro!: wp_bindI [OF wp_True] wp_seq_returns)

text \<open>The claims that the provider client vouches for in the callback of a stored state.\<close>

definition vouched ::
    "('l, 'c) app \<Rightarrow> oidc_provider \<Rightarrow> string \<Rightarrow> auth_oidc_state \<Rightarrow> 'c \<Rightarrow> oidc_verified_claims \<Rightarrow> bool" where
  "vouched app provider code x c claims =
     (\<exists>id_token c' c''. exchange_code (oidc_provider_client app) (op_provider_id provider) code (o_pkce_verifier x) c = (Inr id_token, c')
        \<and> validate_id_token (oidc_provider_client app) (op_provider_id provider) id_token (o_nonce_hash x)
            (o_purpose x = Account_deletion_reauth) c' = (Inr claims, c''))"

lemma wp_callback_claims:
  fixes s :: "('l, 'c) world"
  assumes inv: "app_inv S {} (w_db s)"
    and flow: "\<And>provider x y claims t. get_provider (oidc_settings_of app) pid = Some provider \<Longrightarrow>
      consumable app (w_db s) (w_clock s (w_clock_n s)) state cookie x \<Longrightarrow> o_provider_id x = op_provider_id provider \<Longrightarrow>
      (\<exists>c. y = x\<lparr>o_consumed_at := c\<rparr>) \<Longrightarrow> vouched app provider code x (w_client s) claims \<Longrightarrow>
      w_db t = (w_db s)\<lparr>oidc_states := oidc_states (w_db t)\<rparr> \<Longrightarrow> w_clock t = w_clock s \<Longrightarrow> w_clock_n t = Suc (w_clock_n s) \<Longrightarrow>
      app_inv S {} (w_db t) \<Longrightarrow>
      wp (if o_purpose x = Account_deletion_reauth then complete_reauth_callback app provider y claims cs ip ua
          else complete_login_callback app provider y claims cur ip ua) Q (\<lambda>_ _. True) t"
  shows "wp (complete_callback app pid state code cookie cs cur ip ua) Q (\<lambda>_ _. True) s"
proof (cases "get_provider (oidc_settings_of app) pid")
  case (Some provider)
  let ?C = "\<lambda>y (t :: ('l, 'c) world). \<exists>x. consumable app (w_db s) (w_clock s (w_clock_n s)) state cookie x \<and> o_provider_id x = op_provider_id provider
      \<and> (\<exists>c. y = x\<lparr>o_consumed_at := c\<rparr>) \<and> w_db t = (w_db s)\<lparr>oidc_states := oidc_states (w_db t)\<rparr> \<and> w_client t = w_client s
      \<and> w_clock t = w_clock s \<and> w_clock_n t = Suc (w_clock_n s)"
  have "wp (consume_callback_state app provider state cookie) ?C (\<lambda>_ _. True) s"
    by (rule wp_consume_callback_state [OF app_invD(1) [OF inv]]) (simp_all, blast)
  moreover have "wp (consume_callback_state app provider state cookie) (\<lambda>_. winv (app_inv S {}) (\<lambda>_. True))
      (\<lambda>_. winv (app_inv S {}) (\<lambda>_. True)) s"
    by (rule keeps_wp [OF keeps_consume_callback_state]) (simp add: winv_def inv)
  ultimately have consume: "wp (consume_callback_state app provider state cookie)
      (\<lambda>y t. ?C y t \<and> winv (app_inv S {}) (\<lambda>_. True) t) (\<lambda>_ _. True) s"
    by (rule wp_mono [OF wp_conj]) simp_all
  show ?thesis
    unfolding complete_callback_def Some option.case
  proof (rule wp_bindI [OF consume])
    fix y and t :: "('l, 'c) world"
    assume "?C y t \<and> winv (app_inv S {}) (\<lambda>_. True) t"
    then obtain x where x: "consumable app (w_db s) (w_clock s (w_clock_n s)) state cookie x" "o_provider_id x = op_provider_id provider"
      "\<exists>c. y = x\<lparr>o_consumed_at := c\<rparr>" "w_db t = (w_db s)\<lparr>oidc_states := oidc_states (w_db t)\<rparr>" "w_client t = w_client s"
      "w_clock t = w_clock s" "w_clock_n t = Suc (w_clock_n s)" "app_inv S {} (w_db t)" unfolding winv_def by blast
    have same: "o_pkce_verifier y = o_pkce_verifier x" "o_nonce_hash y = o_nonce_hash x" "o_purpose y = o_purpose x" using x(3) by auto
    have go: "wp (if o_purpose x = Account_deletion_reauth then complete_reauth_callback app provider y claims cs ip ua
        else complete_login_callback app provider y claims cur ip ua) Q (\<lambda>_ _. True) (t\<lparr>w_client := c\<rparr>)"
      if "vouched app provider code x (w_client s) claims" for claims c
      by (rule flow [OF Some x(1-3) that]) (simp_all add: x(6-8), rule x(4))
    have reauth: "wp (complete_reauth_callback app provider y claims cs ip ua) Q (\<lambda>_ _. True) (t\<lparr>w_client := c\<rparr>)"
      if "vouched app provider code x (w_client s) claims" "o_purpose x = Account_deletion_reauth" for claims c
      using go [OF that(1), of c] that(2) by (simp only: if_True if_False simp_thms)
    have login: "wp (complete_login_callback app provider y claims cur ip ua) Q (\<lambda>_ _. True) (t\<lparr>w_client := c\<rparr>)"
      if "vouched app provider code x (w_client s) claims" "o_purpose x \<noteq> Account_deletion_reauth" for claims c
      using go [OF that(1), of c] that(2) by (simp only: if_True if_False simp_thms)
    have "wp (callback_flow app provider y code cs cur ip ua) Q (\<lambda>_ _. True) t"
      unfolding callback_flow_def wp_bind wp_call_client same x(5)
      by (auto split: prod.splits sum.splits intro!: reauth login simp: vouched_def)
    then show "wp (catch (callback_flow app provider y code cs cur ip ua) (\<lambda>exc. seq (audit_callback_failure y provider cs exc ip ua)
        (raise (OidcCallbackFlowError exc (o_purpose y) (o_redirect_path y))))) Q (\<lambda>_ _. True) t"
      by (rule wp_catch_raising) (rule wp_or_raise)
  qed
qed (simp add: complete_callback_def wp_raise)

lemma provider_login_same_tables:
  "users d = users d' \<Longrightarrow> auth_identities d = auth_identities d' \<Longrightarrow>
     provider_login app provider claims d u x tok e = provider_login app provider claims d' u x tok e"
  by (simp add: provider_login_def entitled_def)

lemma callback_login_spec:
  fixes s :: "('l, 'c) world"
  assumes inv: "app_inv (auth_settings_of app) {} (w_db s)"
  shows "wp (complete_callback app pid state code cookie cs cur ip ua) (\<lambda>res t. \<forall>r. cr_issued_session res = Some r \<longrightarrow>
     (\<exists>provider x claims. get_provider (oidc_settings_of app) pid = Some provider
        \<and> consumable app (w_db s) (w_clock s (w_clock_n s)) state cookie x \<and> o_purpose x = Login
        \<and> vouched app provider code x (w_client s) claims
        \<and> provider_login app provider claims (w_db s) (is_user r) (is_session r) (is_session_token r) (w_db t))) (\<lambda>_ _. True) s"
    (is "wp _ ?Q _ s")
proof (rule wp_callback_claims [OF inv])
  fix provider x y claims and t :: "('l, 'c) world"
  assume x: "get_provider (oidc_settings_of app) pid = Some provider" "consumable app (w_db s) (w_clock s (w_clock_n s)) state cookie x"
    "vouched app provider code x (w_client s) claims"
    and t: "w_db t = (w_db s)\<lparr>oidc_states := oidc_states (w_db t)\<rparr>" "app_inv (auth_settings_of app) {} (w_db t)"
  have tables: "users (w_db t) = users (w_db s)" "auth_identities (w_db t) = auth_identities (w_db s)" by (subst t, simp)+
  have re: "wp (complete_reauth_callback app provider y claims cs ip ua) ?Q (\<lambda>_ _. True) t"
    by (rule wp_mono [OF reauth_issues_nothing]) simp_all
  have lo: "wp (complete_login_callback app provider y claims cur ip ua) ?Q (\<lambda>_ _. True) t" if "o_purpose x = Login"
  proof (rule wp_mono [OF complete_login_spec [OF t(2)]], goal_cases)
    case (1 res t')
    then show ?case unfolding provider_login_same_tables [OF tables] using x that by (metis option.inject)
  qed simp
  show "wp (if o_purpose x = Account_deletion_reauth then complete_reauth_callback app provider y claims cs ip ua
      else complete_login_callback app provider y claims cur ip ua) ?Q (\<lambda>_ _. True) t"
    using re lo by (cases "o_purpose x") simp_all
qed

text \<open>
  C16: a provider's word opens the right account only. When a callback returns a session, the
  state was stored for a login, not consumed, not expired and bound to this browser, the provider
  client validated an identity token for its nonce, and the account is one that its claims entitle
  to a login; the subject is linked to that account afterwards, and until it expires the issued
  token authenticates that account.
\<close>

theorem oidc_login_entitled:
  fixes s s' :: "('l, 'c) world"
  assumes inv: "app_inv (auth_settings_of app) {} (w_db s)"
    and res: "complete_callback app pid state code cookie cs cur ip ua s = (Inr res, s')"
    and r: "cr_issued_session res = Some r" and tok: "is_session_token r \<noteq> []"
    and time: "trunc_ms (w_clock s' (w_clock_n s')) < s_expires_at (is_session r)"
  shows "(\<exists>provider x claims. get_provider (oidc_settings_of app) pid = Some provider
        \<and> consumable app (w_db s) (w_clock s (w_clock_n s)) state cookie x \<and> o_purpose x = Login
        \<and> vouched app provider code x (w_client s) claims \<and> entitled provider claims (w_db s) (is_user r)
        \<and> linked_identity provider claims (u_id (is_user r)) (auth_identities (w_db s')))
    \<and> (\<exists>cx s''. authenticate_session app (Some (is_session_token r)) ip' ua' s' = (Inr (Some cx), s'')
         \<and> cx_user cx = is_user r \<and> s_id (cx_session cx) = s_id (is_session r))"
proof -
  have "winv (app_inv (auth_settings_of app) {}) (\<lambda>_. True) s" using inv by (simp add: winv_def)
  from keepsD [OF keeps_complete_callback(1) [OF refl] this, of pid state code cookie cs cur ip ua] res
  have ok': "db_ok (w_db s')" by (simp add: winv_def app_inv_def)
  from wp_Ok [OF callback_login_spec [OF inv] res] r obtain provider x claims where p:
    "get_provider (oidc_settings_of app) pid = Some provider"
    "consumable app (w_db s) (w_clock s (w_clock_n s)) state cookie x" "o_purpose x = Login"
    "vouched app provider code x (w_client s) claims"
    "provider_login app provider claims (w_db s) (is_user r) (is_session r) (is_session_token r) (w_db s')" by blast
  then obtain y where y: "y \<in> set (auth_sessions (w_db s'))" "s_id y = s_id (is_session r)" "s_user_id y = u_id (is_user r)"
    "s_session_token_hash y = hash_token app (is_session_token r)" "s_revoked_at y = None" "s_expires_at y = s_expires_at (is_session r)"
    unfolding provider_login_def issued_row_def by blast
  have "authenticates app s' (is_session_token r) y (is_user r)"
    using y p(5) time by (auto simp: authenticates_def session_in_force_def provider_login_def)
  with authenticate_exact [OF ok' tok, of app y "is_user r" ip' ua'] y(2) p show ?thesis
    unfolding provider_login_def by metis
qed

lemma oidc_login_entitled_witness:
  "\<exists>res r s'. complete_callback (demo_app in_memory_ops) ''idp'' ''token0'' ''code'' (Some ''token1'') None None None None demo_started
       = (Inr res, s') \<and> cr_issued_session res = Some r
     \<and> (\<exists>cx s''. authenticate_session (demo_app in_memory_ops) (Some (is_session_token r)) None None s' = (Inr (Some cx), s'')
          \<and> cx_user cx = is_user r)"
proof -
  obtain res r s' where r: "complete_callback (demo_app in_memory_ops) ''idp'' ''token0'' ''code'' (Some ''token1'') None None None None demo_started = (Inr res, s')"
    "cr_issued_session res = Some r" "is_session_token r \<noteq> []" "trunc_ms (w_clock s' (w_clock_n s')) < s_expires_at (is_session r)"
    by (rule demo_login_callback)
  from oidc_login_entitled [OF demo_started_inv r, of None None] r(1,2) show ?thesis by blast
qed

subsection \<open>Authenticating again\<close>

text \<open>What a second authentication establishes about the session that asked for it.\<close>

definition marked :: "uuid \<Rightarrow> datetime \<Rightarrow> database \<Rightarrow> bool" where
  "marked sid t d = (\<forall>y \<in> set (auth_sessions d). s_id y = sid \<longrightarrow> s_last_oidc_authenticated_at y = Some t)"

definition reauthenticated_by ::
    "('l, 'c) app \<Rightarrow> oidc_provider \<Rightarrow> oidc_verified_claims \<Rightarrow> auth_oidc_state \<Rightarrow> session_context \<Rightarrow> datetime \<Rightarrow> database \<Rightarrow> database \<Rightarrow> bool" where
  "reauthenticated_by app provider claims x cx now d d' =
     (o_expected_user_id x = Some (u_id (cx_user cx)) \<and> o_expected_session_id x = Some (s_id (cx_session cx)) \<and>
      linked_identity provider claims (u_id (cx_user cx)) (auth_identities d) \<and>
      (case vc_auth_time claims of None \<Rightarrow> False | Some t \<Rightarrow>
         now - t \<le> seconds (AUTH_OIDC_REAUTH_FRESHNESS_SECONDS (oidc_settings_of app)) \<and>
         marked (s_id (cx_session cx)) (trunc_ms t) d'))"

lemma marked_update:
  "marked sid t (d\<lparr>auth_sessions := update_rows (\<lambda>x. s_id x = sid) (\<lambda>x. x\<lparr>s_last_oidc_authenticated_at := Some t\<rparr>) (auth_sessions d)\<rparr>)"
proof -
  have "\<forall>y \<in> set (update_rows (\<lambda>x. s_id x = sid) (\<lambda>x. x\<lparr>s_last_oidc_authenticated_at := Some t\<rparr>) (auth_sessions d)).
      s_id y = sid \<longrightarrow> s_last_oidc_authenticated_at y = Some t"
    by (rule ball_update_rowsI) simp
  then show ?thesis unfolding marked_def by simp
qed

lemma wp_reauth_tx:
  "wp (transaction (seq (record_oidc_reauth sid t) (audit_oidc_event ev uid sid' pid pu ip ua)))
     (\<lambda>_ w. marked sid (trunc_ms t) (w_db w)) (\<lambda>_ _. True) s"
proof (rule wp_transactionI)
  fix b
  have rec: "wp (record_oidc_reauth sid t) (\<lambda>_ w. marked sid (trunc_ms t) (w_db w)) (\<lambda>_ _. True) (s\<lparr>w_in_tx := b\<rparr>)"
    unfolding record_oidc_reauth_def update_sessions_def
    by (simp add: wp_bind wp_case_option wp_session_scope wp_get_session_row wp_raise wp_statement marked_update split: option.splits)
  show "wp (seq (record_oidc_reauth sid t) (audit_oidc_event ev uid sid' pid pu ip ua))
      (\<lambda>_ w. marked sid (trunc_ms t) (w_db w)) (\<lambda>_ _. True) (s\<lparr>w_in_tx := b\<rparr>)"
    unfolding audit_oidc_event_def
    by (rule wp_seqI [OF rec], rule wp_audit_only) (simp add: marked_def)
qed simp_all

lemma complete_reauth_spec:
  fixes s :: "('l, 'c) world"
  assumes ok: "db_ok (w_db s)"
  shows "wp (complete_reauth_callback app provider x claims cs ip ua)
    (\<lambda>res t. \<exists>cx. cs = Some cx \<and> cr_reauthenticated_context res = Some cx \<and>
       reauthenticated_by app provider claims x cx (w_clock s (w_clock_n s)) (w_db s) (w_db t)) (\<lambda>_ _. True) s"
proof (cases cs)
  case (Some cx)
  let ?Q = "\<lambda>res t. \<exists>cx. cs = Some cx \<and> cr_reauthenticated_context res = Some cx \<and>
       reauthenticated_by app provider claims x cx (w_clock s (w_clock_n s)) (w_db s) (w_db t)"
  have fin: "wp (bind utcnow (\<lambda>now.
      if now - at' > seconds (AUTH_OIDC_REAUTH_FRESHNESS_SECONDS (oidc_settings_of app)) then raise OidcReauthStaleError
      else bind utcnow (\<lambda>reauthenticated_at.
        seq (transaction (
          seq (record_oidc_reauth (s_id (cx_session cx)) at')
            (audit_oidc_event OIDC_REAUTH_SUCCESS (u_id (cx_user cx)) (s_id (cx_session cx))
              (op_provider_id provider) (o_purpose x) ip ua)))
          (ok \<lparr>cr_redirect_path = o_redirect_path x, cr_issued_session = None, cr_reauthenticated_context = Some cx\<rparr>))))
      ?Q (\<lambda>_ _. True) s"
    if "vc_auth_time claims = Some at'" "linked_identity provider claims (u_id (cx_user cx)) (auth_identities (w_db s))"
      "o_expected_user_id x = Some (u_id (cx_user cx))" "o_expected_session_id x = Some (s_id (cx_session cx))" for at'
    unfolding wp_bind [where m = utcnow] wp_utcnow wp_if wp_raise
    by (simp add: wp_bind [where m = utcnow] wp_utcnow) (intro impI wp_seqI [OF wp_reauth_tx],
        simp add: wp_ok Some reauthenticated_by_def that)
  show ?thesis
  proof (cases "o_expected_user_id x = Some (u_id (cx_user cx)) \<and> o_expected_session_id x = Some (s_id (cx_session cx))")
    case True
    note exp = True
    from exp have nb: "\<not> (o_expected_user_id x \<noteq> Some (u_id (cx_user cx)) \<or> o_expected_session_id x \<noteq> Some (s_id (cx_session cx)))" by simp
    show ?thesis
      unfolding complete_reauth_callback_def Some option.case if_not_P [OF nb]
        wp_bind [where m = "find_identity_by_provider_subject a b" for a b] wp_find_identity [OF ok]
    proof (rule if_bexI, goal_cases)
      case (2 i)
      show ?case
      proof (cases "i_user_id i = u_id (cx_user cx)")
        case True
        with 2 have l: "linked_identity provider claims (u_id (cx_user cx)) (auth_identities (w_db s))"
          by (auto simp: linked_identity_def)
        show ?thesis
          using True exp fin [unfolded Some] l by (cases "vc_auth_time claims") (simp_all add: wp_raise)
      qed (simp add: wp_raise)
    qed (simp add: wp_raise)
  qed (auto simp: complete_reauth_callback_def Some wp_raise)
qed (simp add: complete_reauth_callback_def wp_raise)

lemma login_reauthenticates_nothing:
  "wp (complete_login_callback app provider st claims cur ip ua) (\<lambda>res _. cr_reauthenticated_context res = None) (\<lambda>_ _. True) s"
  unfolding complete_login_callback_def Let_def
  by (rule wp_bindI [OF wp_True], clarify, rule wp_bindI [OF wp_True]) (simp add: wp_ok)

lemma callback_reauth_spec:
  fixes s :: "('l, 'c) world"
  assumes inv: "app_inv (auth_settings_of app) {} (w_db s)"
  shows "wp (complete_callback app pid state code cookie cs cur ip ua) (\<lambda>res t. \<forall>cx. cr_reauthenticated_context res = Some cx \<longrightarrow>
     cs = Some cx \<and> (\<exists>provider x claims. get_provider (oidc_settings_of app) pid = Some provider
        \<and> consumable app (w_db s) (w_clock s (w_clock_n s)) state cookie x \<and> o_purpose x = Account_deletion_reauth
        \<and> vouched app provider code x (w_client s) claims
        \<and> reauthenticated_by app provider claims x cx (w_clock s (Suc (w_clock_n s))) (w_db s) (w_db t))) (\<lambda>_ _. True) s"
    (is "wp _ ?Q _ s")
proof (rule wp_callback_claims [OF inv])
  fix provider x y claims and t :: "('l, 'c) world"
  assume x: "get_provider (oidc_settings_of app) pid = Some provider" "consumable app (w_db s) (w_clock s (w_clock_n s)) state cookie x"
    "vouched app provider code x (w_client s) claims" and y: "\<exists>c. y = x\<lparr>o_consumed_at := c\<rparr>"
    and t: "w_db t = (w_db s)\<lparr>oidc_states := oidc_states (w_db t)\<rparr>" "app_inv (auth_settings_of app) {} (w_db t)"
      "w_clock t = w_clock s" "w_clock_n t = Suc (w_clock_n s)"
  have tables: "auth_identities (w_db t) = auth_identities (w_db s)" by (subst t, simp)
  have same: "reauthenticated_by app provider claims y cx n (w_db t) d = reauthenticated_by app provider claims x cx n (w_db s) d" for cx n d
    using y tables by (auto simp: reauthenticated_by_def)
  have lo: "wp (complete_login_callback app provider y claims cur ip ua) ?Q (\<lambda>_ _. True) t"
    by (rule wp_mono [OF login_reauthenticates_nothing]) simp_all
  have re: "wp (complete_reauth_callback app provider y claims cs ip ua) ?Q (\<lambda>_ _. True) t" if "o_purpose x = Account_deletion_reauth"
  proof (rule wp_mono [OF complete_reauth_spec [OF app_invD(1) [OF t(2)]]], goal_cases)
    case (1 res t')
    then show ?case unfolding same t(3,4) using x that by (metis option.inject)
  qed simp
  show "wp (if o_purpose x = Account_deletion_reauth then complete_reauth_callback app provider y claims cs ip ua
      else complete_login_callback app provider y claims cur ip ua) ?Q (\<lambda>_ _. True) t"
    using re lo by (cases "o_purpose x") simp_all
qed

text \<open>
  C18: a second authentication is fresh and of the same person. When a callback returns a
  reauthenticated context, it is the context of the current session, the state was stored for
  exactly this user and session, the provider vouches for a subject that is linked to this user
  and authenticated at most the configured time ago, and the session carries that instant from
  then on.
\<close>

theorem oidc_reauth_fresh:
  fixes s s' :: "('l, 'c) world"
  assumes inv: "app_inv (auth_settings_of app) {} (w_db s)"
    and res: "complete_callback app pid state code cookie cs cur ip ua s = (Inr res, s')"
    and cx: "cr_reauthenticated_context res = Some cx"
  shows "cs = Some cx \<and> (\<exists>provider x claims. get_provider (oidc_settings_of app) pid = Some provider
        \<and> consumable app (w_db s) (w_clock s (w_clock_n s)) state cookie x \<and> o_purpose x = Account_deletion_reauth
        \<and> vouched app provider code x (w_client s) claims
        \<and> reauthenticated_by app provider claims x cx (w_clock s (Suc (w_clock_n s))) (w_db s) (w_db s'))"
  using wp_Ok [OF callback_reauth_spec [OF inv] res] cx by blast

text \<open>A user with a linked identity whose session has asked for a second authentication.\<close>

definition demo_linked :: "(in_memory_limiter, oidc_verified_claims) world" where
  "demo_linked = demo_running\<lparr>w_db := demo_database\<lparr>auth_identities :=
     [\<lparr>i_id = 7, i_user_id = 1, i_provider_id = ''idp'', i_provider_subject = ''sub-1'', i_email = None,
       i_is_email_verified = True, i_claims_json = JNull, i_linked_at = 0, i_last_logged_in_at = None\<rparr>]\<rparr>\<rparr>"

definition demo_cx :: session_context where
  "demo_cx = \<lparr>cx_user = demo_user 1 ''ann@example.com'', cx_session = demo_session 5 1 ''h:tok'', cx_roles = {}, cx_permissions = {}\<rparr>"

definition demo_reauth_started :: "(in_memory_limiter, oidc_verified_claims) world" where
  "demo_reauth_started = demo_linked\<lparr>w_db := (w_db demo_linked)\<lparr>oidc_states := [demo_state Account_deletion_reauth (Some 1) (Some 5)]\<rparr>\<rparr>"

lemma oidc_reauth_fresh_witness:
  "\<exists>res s'. complete_callback (demo_app in_memory_ops) ''idp'' ''token0'' ''code'' (Some ''token1'') (Some demo_cx) None None None
       demo_reauth_started = (Inr res, s')
     \<and> (\<exists>provider x claims. reauthenticated_by (demo_app in_memory_ops) provider claims x demo_cx
          (w_clock demo_reauth_started (Suc (w_clock_n demo_reauth_started))) (w_db demo_reauth_started) (w_db s'))"
proof -
  let ?S = "auth_settings_of (demo_app in_memory_ops)"
  have inv: "app_inv ?S {} (w_db demo_reauth_started)" unfolding app_inv_def db_ok_def by code_simp
  have "case complete_callback (demo_app in_memory_ops) ''idp'' ''token0'' ''code'' (Some ''token1'') (Some demo_cx) None None None
      demo_reauth_started of (Inl e, s') \<Rightarrow> False | (Inr res, s') \<Rightarrow> cr_reauthenticated_context res = Some demo_cx" by code_simp
  then obtain res s' where r: "complete_callback (demo_app in_memory_ops) ''idp'' ''token0'' ''code'' (Some ''token1'') (Some demo_cx) None None None
      demo_reauth_started = (Inr res, s')" "cr_reauthenticated_context res = Some demo_cx"
    by (auto split: prod.splits sum.splits)
  from oidc_reauth_fresh [OF inv r] r(1) show ?thesis by blast
qed

end
