(* ===== verification/System.thy ===== *)
theory System
  imports Auth_Controller Resource_Controllers Redis_Limiter Oidc_Properties
begin

text \<open>
  The application as a whole: the routes of \<^verbatim>\<open>app/bootstrap/route.py\<close> with the endpoints behind
  them, and the CSRF middleware in front.
\<close>

subsection \<open>Endpoints\<close>

datatype api_call =
    List_oidc_providers
  | Start_oidc_login string "string option" "string option"
  | Start_oidc_reauth string "string option"
  | Complete_oidc_callback string "string option" "string option" "string option"
  | Get_csrf
  | Get_me
  | Update_me auth_user_update_changes
  | Delete_me string "string option"
  | Register string string string
  | Login_call string string
  | Logout
  | List_admin_users nat nat "string option" "string option" "bool option"
  | Create_admin_user string string bool "string list"
  | Get_admin_user uuid
  | Update_admin_user uuid admin_user_update_changes
  | Delete_admin_user uuid
  | List_roles
  | Get_user_roles uuid
  | Replace_user_roles uuid "string list"
  | List_sample_items nat "string option"
  | Create_sample_item string "string option"
  | Get_sample_item uuid
  | Update_sample_item uuid sample_item_update_changes
  | Delete_sample_item uuid
  | Healthz

text \<open>The method and the path below the root path under which an endpoint is registered.\<close>

fun route_of :: "api_call \<Rightarrow> string \<times> string" where
  "route_of List_oidc_providers = (''GET'', ''/api/auth/oidc/providers'')"
| "route_of (Start_oidc_login p _ _) = (''GET'', ''/api/auth/oidc/'' @ p @ ''/start'')"
| "route_of (Start_oidc_reauth p _) = (''GET'', ''/api/auth/oidc/'' @ p @ ''/reauth'')"
| "route_of (Complete_oidc_callback p _ _ _) = (''GET'', ''/api/auth/oidc/'' @ p @ ''/callback'')"
| "route_of Get_csrf = (''GET'', ''/api/auth/csrf'')"
| "route_of Get_me = (''GET'', ''/api/auth/me'')"
| "route_of (Update_me _) = (''PATCH'', ''/api/auth/me'')"
| "route_of (Delete_me _ _) = (''DELETE'', ''/api/auth/me'')"
| "route_of (Register _ _ _) = (''POST'', ''/api/auth/register'')"
| "route_of (Login_call _ _) = (''POST'', ''/api/auth/login'')"
| "route_of Logout = (''POST'', ''/api/auth/logout'')"
| "route_of (List_admin_users _ _ _ _ _) = (''GET'', ''/api/admin/users'')"
| "route_of (Create_admin_user _ _ _ _) = (''POST'', ''/api/admin/users'')"
| "route_of (Get_admin_user i) = (''GET'', ''/api/admin/users/'' @ str_uuid i)"
| "route_of (Update_admin_user i _) = (''PATCH'', ''/api/admin/users/'' @ str_uuid i)"
| "route_of (Delete_admin_user i) = (''DELETE'', ''/api/admin/users/'' @ str_uuid i)"
| "route_of List_roles = (''GET'', ''/api/admin/roles'')"
| "route_of (Get_user_roles i) = (''GET'', ''/api/admin/users/'' @ str_uuid i @ ''/roles'')"
| "route_of (Replace_user_roles i _) = (''PUT'', ''/api/admin/users/'' @ str_uuid i @ ''/roles'')"
| "route_of (List_sample_items _ _) = (''GET'', ''/api/samples'')"
| "route_of (Create_sample_item _ _) = (''POST'', ''/api/samples'')"
| "route_of (Get_sample_item i) = (''GET'', ''/api/samples/'' @ str_uuid i)"
| "route_of (Update_sample_item i _) = (''PATCH'', ''/api/samples/'' @ str_uuid i)"
| "route_of (Delete_sample_item i) = (''DELETE'', ''/api/samples/'' @ str_uuid i)"
| "route_of Healthz = (''GET'', ''/api/healthz'')"

fun dispatch :: "text_lib \<Rightarrow> ('l, 'c) app \<Rightarrow> request \<Rightarrow> api_call \<Rightarrow> ('l, 'c, response) http" where
  "dispatch lib app r List_oidc_providers = list_oidc_providers app"
| "dispatch lib app r (Start_oidc_login p redirect lang) = start_oidc_login app r p redirect lang"
| "dispatch lib app r (Start_oidc_reauth p redirect) = start_oidc_reauth app r p redirect"
| "dispatch lib app r (Complete_oidc_callback p state code error) = complete_oidc_callback app r p state code error"
| "dispatch lib app r Get_csrf = get_csrf app r"
| "dispatch lib app r Get_me = get_me app r"
| "dispatch lib app r (Update_me payload) = update_me app r payload"
| "dispatch lib app r (Delete_me email password) = delete_me app r email password"
| "dispatch lib app r (Register email password lang) = register_endpoint app r email password lang"
| "dispatch lib app r (Login_call email password) = login_endpoint app r email password"
| "dispatch lib app r Logout = logout_endpoint app r"
| "dispatch lib app r (List_admin_users offset limit search role enabled) = list_admin_users app r offset limit search role enabled"
| "dispatch lib app r (Create_admin_user email password enabled roles) = create_admin_user app r email password enabled roles"
| "dispatch lib app r (Get_admin_user i) = get_admin_user app r i"
| "dispatch lib app r (Update_admin_user i changes) = update_admin_user app r i changes"
| "dispatch lib app r (Delete_admin_user i) = delete_admin_user app r i"
| "dispatch lib app r List_roles = list_roles_endpoint app r"
| "dispatch lib app r (Get_user_roles i) = get_user_roles app r i"
| "dispatch lib app r (Replace_user_roles i roles) = replace_user_roles_endpoint app r i roles"
| "dispatch lib app r (List_sample_items limit cursor) = list_sample_items lib app r limit cursor"
| "dispatch lib app r (Create_sample_item title description) = create_sample_item app r title description"
| "dispatch lib app r (Get_sample_item i) = get_sample_item app r i"
| "dispatch lib app r (Update_sample_item i changes) = update_sample_item app r i changes"
| "dispatch lib app r (Delete_sample_item i) = delete_sample_item app r i"
| "dispatch lib app r Healthz = healthz"

text \<open>The request as the server hands it over, and the whole stack that answers it.\<close>

definition routed :: "request \<Rightarrow> api_call \<Rightarrow> request" where
  "routed r call = r\<lparr>req_method := fst (route_of call), req_path := req_root_path r @ snd (route_of call)\<rparr>"

definition serve :: "text_lib \<Rightarrow> ('l, 'c) app \<Rightarrow> request \<Rightarrow> api_call \<Rightarrow> ('l, 'c, response) prog" where
  "serve lib app r call = csrf_middleware app (routed r call) (dispatch lib app (routed r call) call)"

lemma snd_calling [simp]: "snd (calling m f s) = snd (m s)"
  by (simp add: calling_def split: prod.splits sum.splits)

subsection \<open>No transaction is left open\<close>

abbreviation outside :: "('l, 'c) world \<Rightarrow> bool" where
  "outside s \<equiv> \<not> w_in_tx s"

lemma outside_transaction: "keeps outside (transaction m)"
  by (simp add: keeps_def transaction_def split: prod.splits sum.splits)

lemma outside_session_scope: "keeps outside m \<Longrightarrow> keeps outside (session_scope m)"
  by (simp add: keeps_wp_iff wp_session_scope)

lemma outside_sources:
  "keeps outside utcnow" "keeps outside uuid4" "keeps outside try_advisory_lock" "keeps outside (query f)"
  "keeps outside (query_one g)" "keeps outside (statement h q)" "keeps outside (modify_db k)" "keeps outside (get_session_row i)"
  by (simp_all add: keeps_wp_iff wp_simps split: list.splits)

lemma outside_authenticate: "keeps outside (authenticate_session app t ip ua)"
  unfolding authenticate_session_def Let_def by (intro keeps_intros outside_transaction)

lemma outside_validate_csrf: "keeps outside (validate_session_csrf app t c ip ua)"
  unfolding validate_session_csrf_def audit_known_rejected_session_def Let_def find_active_session_by_token_hash_def
    find_session_by_token_hash_def record_rejected_session_replay_def create_audit_log_def insert_audit_log_def
  by (intro keeps_intros outside_transaction outside_session_scope outside_sources)

lemma outside_client_ip: "keeps I (get_client_ip app r)"
  unfolding get_client_ip_def by (intro keeps_intros)

lemma outside_current_session: "keeps outside (require_current_session app r)" "keeps outside (require_admin_access app r)"
  unfolding require_admin_access_def require_permission_def require_current_session_def current_session_def
  by (intro keeps_intros outside_client_ip outside_authenticate)+

lemma outside_csrf_validate: "keeps outside (csrf_validate app r)"
  unfolding csrf_validate_def
  by (auto split: option.splits intro!: keeps_intros outside_client_ip outside_validate_csrf)

subsection \<open>Every request keeps the invariant\<close>

lemma keeps_cookie_step [keeps_intros]: "keeps I (cookie_step f cs)"
  unfolding cookie_step_def by (intro keeps_intros)

lemma keeps_cookies [keeps_intros]:
  "keeps I (set_session_cookie app t cs)" "keeps I (set_csrf_cookie app t cs)" "keeps I (clear_session_cookie app cs)"
  "keeps I (clear_csrf_cookie app cs)" "keeps I (set_oidc_binding_cookie app k v m cs)" "keeps I (clear_oidc_binding_cookie app k cs)"
  unfolding set_session_cookie_def set_csrf_cookie_def clear_session_cookie_def clear_csrf_cookie_def
    set_oidc_binding_cookie_def clear_oidc_binding_cookie_def by (intro keeps_intros)+

lemma keeps_with_cookies [keeps_intros]: "(\<And>cs. keeps I (f cs)) \<Longrightarrow> keeps I (with_cookies r f)"
  unfolding with_cookies_def by (intro keeps_intros)

lemma keeps_redirects [keeps_intros]:
  "keeps I (merged_redirect p u)" "keeps I (oidc_start_failure_redirect p e)" "keeps I (oidc_callback_failure_redirect app e n)"
  unfolding oidc_callback_failure_redirect_def oidc_start_failure_redirect_def merged_redirect_def Let_def
  by (intro keeps_intros)+ 

lemma keeps_signed [keeps_intros]: "keeps I (signed_out app)" "keeps I (signed_in app st x)"
  unfolding signed_out_def signed_in_def by (intro keeps_intros)+

lemma keeps_get_client_ip [keeps_intros]: "keeps I (get_client_ip app r)"
  unfolding get_client_ip_def by (intro keeps_intros)

lemma keeps_client_ip_in_try [keeps_intros]: "keeps I (client_ip_in_try app r)"
  unfolding client_ip_in_try_def by (intro keeps_intros)

lemma keeps_started [keeps_intros]: "keeps I m \<Longrightarrow> keeps I (started app p m)"
  using keeps_redirects(2) [of I p] keeps_with_cookies [of I "set_oidc_binding_cookie app k v a" for k v a]
  by (auto simp: keeps_def started_def keeps_cookies [unfolded keeps_def] split: prod.splits sum.splits)

lemma keeps_reporting [keeps_intros]:
  "keeps I m \<Longrightarrow> (\<And>x. keeps I (f x)) \<Longrightarrow> keeps I (reporting_failures app n m f)"
  using keeps_redirects(3) [of I app] by (auto simp: keeps_def reporting_failures_def split: prod.splits sum.splits)

context auth_app
begin

lemma keeps_sessions:
  "keeps (inv_live {}) (current_session app r)" "keeps (inv_live {}) (require_current_session app r)"
  "keeps (inv_live {}) (require_admin_access app r)"
  unfolding require_admin_access_def require_permission_def require_current_session_def current_session_def
  by (intro keeps_intros)+

lemma keeps_auth_endpoints:
  "keeps (inv_live {}) (list_oidc_providers app)" "keeps (inv_live {}) (start_oidc_login app r p redirect lang)"
  "keeps (inv_live {}) (start_oidc_reauth app r p redirect)" "keeps (inv_live {}) (complete_oidc_callback app r p state code error)"
  "keeps (inv_live {}) (get_csrf app r)" "keeps (inv_live {}) (get_me app r)" "keeps (inv_live {}) (update_me app r payload)"
  "keeps (inv_live {}) (register_endpoint app r em pw lang2)" "keeps (inv_live {}) (login_endpoint app r em pw)"
  "keeps (inv_live {}) (logout_endpoint app r)"
  unfolding list_oidc_providers_def start_oidc_login_def start_oidc_reauth_def complete_oidc_callback_def complete_oidc_code_def
    callback_response_def get_csrf_def get_me_def update_me_def register_endpoint_def login_endpoint_def logout_endpoint_def Let_def
  by (auto split: option.splits intro!: keeps_intros keeps_sessions keeps_start_authorization keeps_login keeps_register)

lemma keeps_resource_endpoints:
  "keeps (inv_live {}) (list_admin_users app r offset limit search role a)" "keeps (inv_live {}) (create_admin_user app r em pw enabled roles)"
  "keeps (inv_live {}) (get_admin_user app r i)" "keeps (inv_live {}) (update_admin_user app r i changes)"
  "keeps (inv_live {}) (list_roles_endpoint app r)" "keeps (inv_live {}) (get_user_roles app r i)"
  "keeps (inv_live {}) (replace_user_roles_endpoint app r i roles)" "keeps (inv_live {}) (list_sample_items lib app r n c)"
  "keeps (inv_live {}) (create_sample_item app r t d)" "keeps (inv_live {}) (get_sample_item app r i)"
  "keeps (inv_live {}) (update_sample_item app r i ch)" "keeps (inv_live {}) (delete_sample_item app r i)" "keeps (inv_live {}) healthz"
  unfolding list_admin_users_def create_admin_user_def get_admin_user_def update_admin_user_def list_roles_endpoint_def
    get_user_roles_def replace_user_roles_endpoint_def list_sample_items_def create_sample_item_def get_sample_item_def
    update_sample_item_def delete_sample_item_def healthz_def
  by (auto intro!: keeps_intros keeps_sessions)

text \<open>Deletions rely on being outside of a transaction, so that a failure undoes all of their changes.\<close>

lemma deletion_endpoints_inv:
  assumes "inv_live {} s" "outside s"
  shows "inv_live {} (snd (delete_me app r em pw s))" "inv_live {} (snd (delete_admin_user app r i s))"
proof -
  have req: "wp (require_current_session app r) (\<lambda>_ t. inv_live {} t \<and> outside t) (\<lambda>_. inv_live {}) s"
    "wp (require_admin_access app r) (\<lambda>_ t. inv_live {} t \<and> outside t) (\<lambda>_. inv_live {}) s"
    using wp_conj [OF keeps_wp [OF keeps_sessions(2) [of r] assms(1)] keeps_wp [OF outside_current_session(1) assms(2)]]
      wp_conj [OF keeps_wp [OF keeps_sessions(3) [of r] assms(1)] keeps_wp [OF outside_current_session(2) assms(2)]]
    by - (erule wp_mono; simp)+
  have 1: "wp (calling (delete_account app cx em pw ip ua) f) (\<lambda>_. inv_live {}) (\<lambda>_. inv_live {}) t"
    "wp (calling (usecase_delete_user cx i ip ua) g) (\<lambda>_. inv_live {}) (\<lambda>_. inv_live {}) t"
    if "inv_live {} t" "outside t" for t cx ip ua f g
    using delete_account_inv [OF that] usecase_delete_user_inv [OF that] by (simp_all add: wp_same)
  have "wp (delete_me app r em pw) (\<lambda>_. inv_live {}) (\<lambda>_. inv_live {}) s"
    unfolding delete_me_def wp_bind wp_seq
    by (rule wp_mono [OF req(1)]) (auto simp: get_client_ip_def wp_ok wp_raise split: option.splits
        intro!: wp_mono [OF 1(1)] keeps_wp [OF keeps_signed(1)])
  moreover have "wp (delete_admin_user app r i) (\<lambda>_. inv_live {}) (\<lambda>_. inv_live {}) s"
    unfolding delete_admin_user_def wp_bind wp_seq
    by (rule wp_mono [OF req(2)]) (auto simp: get_client_ip_def wp_ok wp_raise split: option.splits
        intro!: wp_mono [OF 1(2)])
  ultimately show "inv_live {} (snd (delete_me app r em pw s))" "inv_live {} (snd (delete_admin_user app r i s))"
    by (simp_all add: wp_same)
qed

lemma dispatch_inv:
  assumes "inv_live {} s" "outside s"
  shows "inv_live {} (snd (dispatch lib app r call s))"
proof (cases call)
  case (Delete_me email password)
  then show ?thesis by (simp add: deletion_endpoints_inv(1) [OF assms])
next
  case (Delete_admin_user i)
  then show ?thesis by (simp add: deletion_endpoints_inv(2) [OF assms])
qed (simp, rule keepsD [where I = "inv_live {}", OF _ assms(1)], rule keeps_auth_endpoints keeps_resource_endpoints)+

lemma keeps_csrf_validate: "keeps (inv_live {}) (csrf_validate app r)"
  unfolding csrf_validate_def by (auto split: option.splits intro!: keeps_intros)

lemma middleware_inv:
  assumes I: "inv_live {} s" and o: "outside s"
    and m: "\<And>t. inv_live {} t \<Longrightarrow> outside t \<Longrightarrow> inv_live {} (snd (m t))"
  shows "inv_live {} (snd (csrf_middleware app r m s))"
proof -
  have h: "inv_live {} (snd (handled p m t))" if "inv_live {} t" "outside t" for p t
    using m [OF that] by (auto simp: handled_def split: prod.splits sum.splits)
  obtain v t where v: "csrf_validate app r s = (v, t)" by fastforce
  have t: "inv_live {} t" "outside t"
    using keepsD [OF keeps_csrf_validate I, of r] keepsD [OF outside_csrf_validate o, of app r] v by simp_all
  show ?thesis
    using h [OF I o] h [OF t] t v by (auto simp: csrf_middleware_def split: sum.splits option.splits)
qed

lemma serve_inv: "inv_live {} s \<Longrightarrow> outside s \<Longrightarrow> inv_live {} (snd (serve lib app r call s))"
  unfolding serve_def by (rule middleware_inv) (simp_all add: dispatch_inv)

end

end
