(* ===== verification/Static_Files.thy ===== *)
theory Static_Files
  imports Problem_Details Client_Ip
begin

text \<open>
  The files of the single-page application (\<^verbatim>\<open>app/bootstrap/route.py\<close>). \<open>StaticFiles\<close> of Starlette is
  the argument \<open>files\<close>: the response to a path, or the exception it raises. \<open>SPAStaticFiles\<close> keeps the
  paths of the interface away from it and answers navigations to unknown paths with the page of the
  application.
\<close>

definition STATIC_API_PREFIX :: string where
  "STATIC_API_PREFIX = ''api''"

definition RESERVED_BACKEND_PATHS :: "string list" where
  "RESERVED_BACKEND_PATHS = [''docs'', ''redoc'', ''openapi.json'']"

definition STATIC_ASSET_EXTENSIONS :: "string list" where
  "STATIC_ASSET_EXTENSIONS =
     [''.avif'', ''.css'', ''.eot'', ''.gif'', ''.ico'', ''.jpeg'', ''.jpg'', ''.js'', ''.json'', ''.map'', ''.otf'', ''.pdf'',
      ''.png'', ''.svg'', ''.ttf'', ''.txt'', ''.wasm'', ''.webmanifest'', ''.webp'', ''.woff'', ''.woff2'', ''.xml'']"

definition normalized_path :: "string \<Rightarrow> string" where
  "normalized_path path = lower (strip_with (\<lambda>c. c = CHR ''/'') path)"

definition is_api_path :: "string \<Rightarrow> bool" where
  "is_api_path path =
     (normalized_path path = STATIC_API_PREFIX \<or> startswith (normalized_path path) (STATIC_API_PREFIX @ ''/''))"

definition is_reserved_backend_path :: "string \<Rightarrow> bool" where
  "is_reserved_backend_path path = (normalized_path path \<in> set RESERVED_BACKEND_PATHS)"

definition is_static_asset_path :: "string \<Rightarrow> bool" where
  "is_static_asset_path path =
     (normalized_path path = ''assets'' \<or> startswith (normalized_path path) ''assets/'' \<or>
      list_ex (endswith (normalized_path path)) STATIC_ASSET_EXTENSIONS)"

definition is_spa_navigation :: "string \<Rightarrow> request \<Rightarrow> bool" where
  "is_spa_navigation path r =
     (req_method r \<in> {''GET'', ''HEAD''} \<and> \<not> is_static_asset_path path \<and>
      (let normalized_accept = lower (case headers_get r ''accept'' of None \<Rightarrow> [] | Some v \<Rightarrow> v) in
       contains normalized_accept ''text/html'' \<or> contains normalized_accept ''*/*''))"

definition spa_get_response ::
    "(string \<Rightarrow> request \<Rightarrow> http_error + response) \<Rightarrow> string \<Rightarrow> request \<Rightarrow> http_error + response" where
  "spa_get_response files path r =
     (if is_api_path path \<or> is_reserved_backend_path path then Inl (Framework_HTTPException 404 ''Not Found'' [])
      else case files path r of
        Inr response \<Rightarrow> Inr response
      | Inl (Framework_HTTPException status detail headers) \<Rightarrow>
          if status \<noteq> 404 \<or> \<not> is_spa_navigation path r then Inl (Framework_HTTPException status detail headers)
          else files ''index.html'' r
      | Inl error \<Rightarrow> Inl error)"

text \<open>
  The page of the application is only ever the answer to a navigation: when the files do not have
  the path, a response is that page, and the request is a GET or HEAD for a document that is
  neither an asset nor a path of the interface. Without such a navigation the files decide.
\<close>

lemma spa_fallback_confined:
  assumes "spa_get_response files path r = Inr response" "files path r \<noteq> Inr response"
  shows "files ''index.html'' r = Inr response \<and> req_method r \<in> {''GET'', ''HEAD''} \<and> \<not> is_static_asset_path path
    \<and> \<not> is_api_path path \<and> \<not> is_reserved_backend_path path"
  using assms by (auto simp: spa_get_response_def is_spa_navigation_def split: if_splits sum.splits http_error.splits)

lemma spa_decided_by_files:
  assumes "\<not> is_spa_navigation path r" "\<not> is_api_path path" "\<not> is_reserved_backend_path path"
  shows "spa_get_response files path r = files path r"
  using assms by (auto simp: spa_get_response_def split: sum.splits http_error.splits)

lemma lower_append: "lower (a @ b) = lower a @ lower b"
  by (simp add: lower_def)

lemma api_prefix_reserved:
  assumes "rest \<noteq> []" "last rest \<noteq> CHR ''/''"
  shows "is_api_path (''/api/'' @ rest)"
proof -
  have "rstrip_with (\<lambda>c. c = CHR ''/'') (''api/'' @ rest) = ''api/'' @ rest"
    using assms by (cases rest rule: rev_cases) (simp_all add: rstrip_with_def)
  then have "normalized_path (''/api/'' @ rest) = lower (''api/'' @ rest)"
    by (simp add: normalized_path_def strip_with_def lstrip_with_def)
  also have "\<dots> = ''api/'' @ lower rest" unfolding lower_append by (simp add: lower_def lower_char_def)
  finally show ?thesis by (simp add: is_api_path_def STATIC_API_PREFIX_def startswith_def)
qed

end
