(* ===== verification/Start_Up.thy ===== *)
theory Start_Up
  imports System Static_Files Maintenance
begin

text \<open>
  What the process decides when it starts and when it ends: the limiter that
  \<^verbatim>\<open>app/bootstrap/modules.py\<close> builds from the settings, the options of the database engine
  (\<^verbatim>\<open>app/libraries/database_engine.py\<close>), the options of the application and its log level, the
  clean-up of \<open>lifespan\<close> (\<^verbatim>\<open>app/bootstrap/create_app.py\<close>) and of \<open>run_with_container\<close>
  (\<^verbatim>\<open>app/bootstrap/cli.py\<close>).
\<close>

subsection \<open>The rate limiter\<close>

record redis_pool_options =
  po_url :: string
  po_socket_timeout :: rat
  po_socket_connect_timeout :: rat
  po_max_connections :: int
  po_timeout :: rat

definition redis_pool_options_for :: "auth_settings \<Rightarrow> redis_pool_options" where
  "redis_pool_options_for settings = \<lparr>
     po_url = AUTH_RATE_LIMIT_REDIS_URL settings,
     po_socket_timeout = AUTH_RATE_LIMIT_REDIS_SOCKET_TIMEOUT_SECONDS settings,
     po_socket_connect_timeout = AUTH_RATE_LIMIT_REDIS_SOCKET_CONNECT_TIMEOUT_SECONDS settings,
     po_max_connections = AUTH_RATE_LIMIT_REDIS_MAX_CONNECTIONS settings,
     po_timeout = max (5 / 100) (AUTH_RATE_LIMIT_REDIS_OPERATION_DEADLINE_SECONDS settings / 2)\<rparr>"

text \<open>
  The arguments after the settings are what a limiter gets from outside: the Redis client that a pool
  and a deadline for each operation give, the state behind it, SHA-256, tokens and clocks.
\<close>

definition provide_rate_limiter ::
    "auth_settings \<Rightarrow> oidc_settings \<Rightarrow> (redis_pool_options \<Rightarrow> rat \<Rightarrow> 'r redis_client) \<Rightarrow> 'r \<Rightarrow> (string \<Rightarrow> string) \<Rightarrow> (nat \<Rightarrow> string)
      \<Rightarrow> (nat \<Rightarrow> rat) \<Rightarrow> 'r redis_limiter + in_memory_limiter" where
  "provide_rate_limiter settings oidc connect redis sha256 token_hex clock =
     (if AUTH_RATE_LIMIT_BACKEND settings = Redis then
        Inl (redis_init (AUTH_RATE_LIMIT_WINDOW_SECONDS settings) (AUTH_RATE_LIMIT_REGISTRATION_WINDOW_SECONDS settings)
          (AUTH_RATE_LIMIT_FAILURES_PER_EMAIL_IP settings) (AUTH_RATE_LIMIT_FAILURES_PER_IP settings)
          (AUTH_RATE_LIMIT_FAILURES_PER_EMAIL settings) (AUTH_RATE_LIMIT_REGISTRATIONS_PER_IP settings)
          (AUTH_OIDC_AUTHORIZATION_STARTS_PER_IP oidc)
          (connect (redis_pool_options_for settings) (AUTH_RATE_LIMIT_REDIS_OPERATION_DEADLINE_SECONDS settings)) redis
          (AUTH_RATE_LIMIT_REDIS_KEY_PREFIX settings) (AUTH_RATE_LIMIT_REDIS_UNAVAILABLE_POLICY settings)
          (AUTH_RATE_LIMIT_REDIS_CIRCUIT_BREAKER_FAILURES settings)
          (of_int (AUTH_RATE_LIMIT_REDIS_CIRCUIT_BREAKER_COOLDOWN_SECONDS settings)) sha256 token_hex clock)
      else
        Inr (in_memory_init (AUTH_RATE_LIMIT_WINDOW_SECONDS settings) (AUTH_RATE_LIMIT_REGISTRATION_WINDOW_SECONDS settings)
          (AUTH_RATE_LIMIT_FAILURES_PER_EMAIL_IP settings) (AUTH_RATE_LIMIT_FAILURES_PER_IP settings)
          (AUTH_RATE_LIMIT_FAILURES_PER_EMAIL settings) (AUTH_RATE_LIMIT_REGISTRATIONS_PER_IP settings)
          (AUTH_OIDC_AUTHORIZATION_STARTS_PER_IP oidc) (AUTH_RATE_LIMIT_MAX_BUCKETS_PER_SCOPE settings) clock))"

lemma provided_limiter_inv:
  assumes "mono clock"
  shows "case provide_rate_limiter settings oidc connect redis sha256 token_hex clock of Inl l \<Rightarrow> rl_inv l | Inr l \<Rightarrow> im_inv l"
  using assms by (simp add: provide_rate_limiter_def in_memory_init_inv rl_inv_def redis_init_def)

text \<open>With settings that validate, nobody is locked out before a failure was recorded.\<close>

lemma provided_limiter_lets_in:
  assumes "valid_settings settings" "mono clock"
    and "provide_rate_limiter settings oidc connect redis sha256 token_hex clock = Inr l"
  shows "fst (im_is_allowed ip email l)"
proof -
  obtain r l' where r: "im_is_allowed ip email l = (r, l')" by fastforce
  have "im_inv l" using provided_limiter_inv [OF assms(2), of settings oidc connect redis sha256 token_hex] assms(3) by simp
  from im_is_allowed_spec [OF this r] have "r = (active (email_ip_buckets l) (email_ip_key ip email) (im_now l) (window_seconds l) < max_failures_per_email_ip l
      \<and> active (ip_buckets l) ip (im_now l) (window_seconds l) < max_failures_per_ip l
      \<and> active (email_buckets l) email (im_now l) (window_seconds l) < max_failures_per_email l)" by blast
  moreover have "1 \<le> max_failures_per_email_ip l" "1 \<le> max_failures_per_ip l" "1 \<le> max_failures_per_email l"
    using assms(3) valid_settings_fields [OF assms(1)] by (auto simp: provide_rate_limiter_def in_memory_init_def split: if_splits)
  moreover have "email_ip_buckets l = []" "ip_buckets l = []" "email_buckets l = []"
    using assms(3) by (auto simp: provide_rate_limiter_def in_memory_init_def split: if_splits)
  ultimately show ?thesis using r by (simp add: active_def bucket_of_def)
qed

subsection \<open>The database engine\<close>

record engine_options =
  eo_url :: string
  eo_future :: bool
  eo_echo :: bool
  eo_hide_parameters :: bool
  eo_pool_pre_ping :: bool
  eo_pool :: "(int \<times> int \<times> int) option"

definition build_engine_options :: "database_settings \<Rightarrow> string option \<Rightarrow> engine_options" where
  "build_engine_options settings database_url =
     (let target_url = (case truthy database_url of Some u \<Rightarrow> u | None \<Rightarrow> DATABASE_URL settings) in
      \<lparr>eo_url = target_url, eo_future = True, eo_echo = DATABASE_ECHO settings, eo_hide_parameters = True, eo_pool_pre_ping = True,
       eo_pool = (if startswith target_url ''postgresql+asyncpg://''
                  then Some (DATABASE_POOL_SIZE settings, DATABASE_MAX_OVERFLOW settings, DATABASE_POOL_RECYCLE_SECONDS settings)
                  else None)\<rparr>)"

subsection \<open>The application\<close>

record app_options =
  ao_docs_url :: "string option"
  ao_redoc_url :: "string option"
  ao_openapi_url :: "string option"

text \<open>The error is the message of the \<open>RuntimeError\<close>.\<close>

definition create_app_options :: "string list \<Rightarrow> string \<Rightarrow> string + app_options" where
  "create_app_options authorization_errors environment =
     (if authorization_errors \<noteq> []
      then Inl (''Authorization config is invalid: '' @ join_with ''; '' authorization_errors)
      else
        let docs_enabled = (lower environment \<in> {''local'', ''development'', ''test''});
            only = (\<lambda>url. if docs_enabled then Some url else None)
        in Inr \<lparr>ao_docs_url = only ''/docs'', ao_redoc_url = only ''/redoc'', ao_openapi_url = only ''/openapi.json''\<rparr>)"

text \<open>\<open>logging.getLevelNamesMapping()\<close>; the second component tells whether the fallback was warned about.\<close>

definition LEVEL_NAMES :: "(string \<times> int) list" where
  "LEVEL_NAMES = [(''CRITICAL'', 50), (''FATAL'', 50), (''ERROR'', 40), (''WARN'', 30), (''WARNING'', 30), (''INFO'', 20),
     (''DEBUG'', 10), (''NOTSET'', 0)]"

definition setup_logging_level :: "string \<Rightarrow> int \<times> bool" where
  "setup_logging_level log_level = (case map_of LEVEL_NAMES (upper log_level) of None \<Rightarrow> (20, True) | Some l \<Rightarrow> (l, False))"

lemma docs_hidden_in_production:
  "create_app_options errors environment = Inr options \<Longrightarrow> ao_docs_url options \<noteq> None \<Longrightarrow> lower environment \<in> {''local'', ''development'', ''test''}"
  by (auto simp: create_app_options_def Let_def split: if_splits)

subsection \<open>Shutting down\<close>

text \<open>
  Each step of the clean-up runs whatever became of the ones before it. The application's own error
  comes first, then the first error of a step; a command line operation keeps its outcome.
\<close>

fun cleanup :: "('s, 'e, unit) comp list \<Rightarrow> 'e option \<Rightarrow> 's \<Rightarrow> 'e option \<times> 's" where
  "cleanup [] cleanup_error s = (cleanup_error, s)"
| "cleanup (step # steps) cleanup_error s =
     (case step s of
        (Inl e, s') \<Rightarrow> cleanup steps (case cleanup_error of None \<Rightarrow> Some e | Some first \<Rightarrow> Some first) s'
      | (Inr _, s') \<Rightarrow> cleanup steps cleanup_error s')"

definition lifespan ::
    "('s, 'e, unit) comp \<Rightarrow> ('s, 'e, unit) comp \<Rightarrow> ('s, 'e, unit) comp \<Rightarrow> ('s, 'e, unit) comp \<Rightarrow> ('s, 'e, unit) comp" where
  "lifespan serving close_limiter dispose_engine shutdown_executor =
     (\<lambda>s. case serving s of
        (app_result, s') \<Rightarrow> (case cleanup [close_limiter, dispose_engine, shutdown_executor] None s' of
          (cleanup_error, s'') \<Rightarrow>
            (case (app_result, cleanup_error) of
               (Inl app_error, _) \<Rightarrow> (Inl app_error, s'')
             | (Inr _, Some e) \<Rightarrow> (Inl e, s'')
             | (Inr _, None) \<Rightarrow> (Inr (), s''))))"

definition run_with_container :: "('s, 'e, 'a) comp \<Rightarrow> ('s, 'e, unit) comp \<Rightarrow> ('s, 'e, unit) comp \<Rightarrow> ('s, 'e, 'a) comp" where
  "run_with_container operation close_limiter dispose_engine =
     (\<lambda>s. case operation s of
        (outcome, s') \<Rightarrow> (case cleanup [close_limiter, dispose_engine] None s' of (_, s'') \<Rightarrow> (outcome, s'')))"

lemma cleanup_runs_all: "snd (cleanup steps err s) = fold (\<lambda>step t. snd (step t)) steps s"
  by (induction steps arbitrary: err s) (auto split: prod.splits sum.splits)

lemma lifespan_cleans_up:
  "snd (lifespan serving a b c s) = snd (c (snd (b (snd (a (snd (serving s)))))))"
  "fst (serving s) = Inl e \<Longrightarrow> fst (lifespan serving a b c s) = Inl e"
  using cleanup_runs_all [of "[a, b, c]" None "snd (serving s)"]
  by (auto simp: lifespan_def split: prod.splits sum.splits option.splits)

lemma run_with_container_keeps_outcome:
  "fst (run_with_container operation a b s) = fst (operation s)"
  "snd (run_with_container operation a b s) = snd (b (snd (a (snd (operation s)))))"
  using cleanup_runs_all [of "[a, b]" None "snd (operation s)"]
  by (auto simp: run_with_container_def split: prod.splits)

subsection \<open>Paths of the interface\<close>

lemma last_str_uuid: "str_uuid i \<noteq> [] \<and> last (str_uuid i) \<noteq> CHR ''/''"
proof -
  have "str_uuid i \<noteq> []" by (simp add: str_uuid_def Let_def)
  moreover have "CHR ''/'' \<notin> set (str_uuid i)"
  proof -
    obtain ds where ds: "show_num 16 (int i) = map digit_char ds" "\<forall>d \<in> set ds. 0 \<le> d \<and> d < 16" using show_num_digits [of "int i"] by auto
    have "hexit_of c \<noteq> None" if "c \<in> set (hex_padded 32 i)" for c
    proof -
      have "hexit_of (CHR ''0'') \<noteq> None" by code_simp
      with that ds show ?thesis by (auto simp: hex_padded_def Let_def hexit_of_char split: if_splits)
    qed
    moreover have "hexit_of (CHR ''/'') = None" by code_simp
    ultimately show ?thesis using str_uuid_chars [of i] by force
  qed
  ultimately show ?thesis by (metis last_in_set)
qed

text \<open>No file and no page of the application ever answers in place of an endpoint.\<close>

lemma endpoints_not_static:
  "spa_get_response files (snd (route_of call)) r = Inl (Framework_HTTPException 404 ''Not Found'' [])"
proof -
  let ?rest = "drop 5 (snd (route_of call))"
  have "snd (route_of call) = ''/api/'' @ ?rest" by (cases call) simp_all
  moreover have "?rest \<noteq> [] \<and> last ?rest \<noteq> CHR ''/''" by (cases call) (simp_all add: last_str_uuid)
  ultimately have "is_api_path (snd (route_of call))" using api_prefix_reserved [of ?rest] by metis
  then show ?thesis by (simp add: spa_get_response_def)
qed

end
