(* ===== verification/Documented_Responses.thy ===== *)
theory Documented_Responses
  imports System
begin

text \<open>
  Which answers an endpoint can give, compared with the ones its decorator documents
  (\<^verbatim>\<open>@router.get(..., status_code=..., responses=...)\<close> in \<^verbatim>\<open>app/controllers\<close>), from which the OpenAPI document is
  generated. The tables of problem responses have the same description for every status, so they
  are lists of status codes here.
\<close>

subsection \<open>What the decorators say\<close>

definition ME_ERROR_RESPONSES :: "int list" where
  [simp]: "ME_ERROR_RESPONSES = [401, 403, 422]"

definition OIDC_REDIRECT_ERROR_RESPONSES :: "int list" where
  [simp]: "OIDC_REDIRECT_ERROR_RESPONSES = [422]"

definition REGISTER_ERROR_RESPONSES :: "int list" where
  [simp]: "REGISTER_ERROR_RESPONSES = [403, 409, 422, 429]"

definition LOGIN_ERROR_RESPONSES :: "int list" where
  [simp]: "LOGIN_ERROR_RESPONSES = [401, 403, 422, 429]"

definition LOGOUT_ERROR_RESPONSES :: "int list" where
  [simp]: "LOGOUT_ERROR_RESPONSES = [403]"

definition DELETE_ACCOUNT_ERROR_RESPONSES :: "int list" where
  [simp]: "DELETE_ACCOUNT_ERROR_RESPONSES = [400, 401, 403, 422, 429]"

definition ADMIN_USER_ERROR_RESPONSES :: "int list" where
  [simp]: "ADMIN_USER_ERROR_RESPONSES = [401, 403, 404, 409, 422]"

definition ADMIN_ERROR_RESPONSES :: "int list" where
  [simp]: "ADMIN_ERROR_RESPONSES = [401, 403, 404, 422]"

definition LIST_ERROR_RESPONSES :: "int list" where
  [simp]: "LIST_ERROR_RESPONSES = [400, 401, 422]"

definition CREATE_ERROR_RESPONSES :: "int list" where
  [simp]: "CREATE_ERROR_RESPONSES = [401, 403, 422]"

definition GET_ITEM_ERROR_RESPONSES :: "int list" where
  [simp]: "GET_ITEM_ERROR_RESPONSES = [401, 404, 422]"

definition UPDATE_ERROR_RESPONSES :: "int list" where
  [simp]: "UPDATE_ERROR_RESPONSES = [401, 403, 404, 422]"

definition DELETE_ERROR_RESPONSES :: "int list" where
  [simp]: "DELETE_ERROR_RESPONSES = UPDATE_ERROR_RESPONSES"

definition HEALTHZ_ERROR_RESPONSES :: "int list" where
  [simp]: "HEALTHZ_ERROR_RESPONSES = [404]"

text \<open>The status of a success and those of the problems.\<close>

fun documented :: "api_call \<Rightarrow> int \<times> int list" where
  "documented List_oidc_providers = (200, [])"
| "documented (Start_oidc_login _ _ _) = (200, OIDC_REDIRECT_ERROR_RESPONSES)"
| "documented (Start_oidc_reauth _ _) = (200, OIDC_REDIRECT_ERROR_RESPONSES)"
| "documented (Complete_oidc_callback _ _ _ _) = (200, OIDC_REDIRECT_ERROR_RESPONSES)"
| "documented Get_csrf = (200, [])"
| "documented Get_me = (200, ME_ERROR_RESPONSES)"
| "documented (Update_me _) = (200, ME_ERROR_RESPONSES)"
| "documented (Delete_me _ _) = (204, DELETE_ACCOUNT_ERROR_RESPONSES)"
| "documented (Register _ _ _) = (201, REGISTER_ERROR_RESPONSES)"
| "documented (Login_call _ _) = (200, LOGIN_ERROR_RESPONSES)"
| "documented Logout = (204, LOGOUT_ERROR_RESPONSES)"
| "documented (List_admin_users _ _ _ _ _) = (200, ADMIN_USER_ERROR_RESPONSES)"
| "documented (Create_admin_user _ _ _ _) = (201, ADMIN_USER_ERROR_RESPONSES)"
| "documented (Get_admin_user _) = (200, ADMIN_USER_ERROR_RESPONSES)"
| "documented (Update_admin_user _ _) = (200, ADMIN_USER_ERROR_RESPONSES)"
| "documented (Delete_admin_user _) = (204, ADMIN_USER_ERROR_RESPONSES)"
| "documented List_roles = (200, ADMIN_ERROR_RESPONSES)"
| "documented (Get_user_roles _) = (200, ADMIN_ERROR_RESPONSES)"
| "documented (Replace_user_roles _ _) = (200, ADMIN_ERROR_RESPONSES)"
| "documented (List_sample_items _ _) = (200, LIST_ERROR_RESPONSES)"
| "documented (Create_sample_item _ _) = (201, CREATE_ERROR_RESPONSES)"
| "documented (Get_sample_item _) = (200, GET_ITEM_ERROR_RESPONSES)"
| "documented (Update_sample_item _ _) = (200, UPDATE_ERROR_RESPONSES)"
| "documented (Delete_sample_item _) = (204, DELETE_ERROR_RESPONSES)"
| "documented Healthz = (200, HEALTHZ_ERROR_RESPONSES)"

text \<open>The endpoints of the OpenID Connect flows always answer with a redirect, which their decorators do not mention.\<close>

fun redirecting :: "api_call \<Rightarrow> bool" where
  "redirecting (Start_oidc_login _ _ _) = True"
| "redirecting (Start_oidc_reauth _ _) = True"
| "redirecting (Complete_oidc_callback _ _ _ _) = True"
| "redirecting _ = False"

definition success_status :: "api_call \<Rightarrow> int" where
  "success_status call = (if redirecting call then 303 else fst (documented call))"

subsection \<open>Outcomes of a computation\<close>

text \<open>What a computation returns or raises, from whichever state it starts.\<close>

definition yields :: "('a \<Rightarrow> bool) \<Rightarrow> ('e \<Rightarrow> bool) \<Rightarrow> ('s, 'e, 'a) comp \<Rightarrow> bool" where
  "yields Q E m = (\<forall>s. wp m (\<lambda>x _. Q x) (\<lambda>e _. E e) s)"

lemma yields_iff: "yields Q E m \<longleftrightarrow> (\<forall>s. case fst (m s) of Inl e \<Rightarrow> E e | Inr x \<Rightarrow> Q x)"
  unfolding yields_def wp_def by (intro iff_allI) (simp split: prod.split sum.split)

named_theorems yields_intros \<open>rules for the outcomes of a computation\<close>

lemma yields_basic [yields_intros]:
  "Q x \<Longrightarrow> yields Q E (ok x)" "E e \<Longrightarrow> yields Q E (raise e)" "(\<And>e. E (f e)) \<Longrightarrow> yields (\<lambda>_. True) E (calling m f)"
  by (simp_all add: yields_def wp_simps)

lemma yields_bind [yields_intros]:
  "yields (\<lambda>_. True) E m \<Longrightarrow> (\<And>x. yields Q E (f x)) \<Longrightarrow> yields Q E (bind m f)"
  unfolding yields_def wp_bind by (blast intro: wp_mono)

lemma yields_bind_with: "yields R E m \<Longrightarrow> (\<And>x. R x \<Longrightarrow> yields Q E (f x)) \<Longrightarrow> yields Q E (bind m f)"
  unfolding yields_def wp_bind by (blast intro: wp_mono)

lemma yields_seq [yields_intros]: "yields (\<lambda>_. True) E m \<Longrightarrow> yields Q E n \<Longrightarrow> yields Q E (seq m n)"
  by (simp add: seq_def yields_bind)

lemma yields_cases [yields_intros]:
  "(b \<Longrightarrow> yields Q E m) \<Longrightarrow> (\<not> b \<Longrightarrow> yields Q E n) \<Longrightarrow> yields Q E (if b then m else n)"
  "(v = None \<Longrightarrow> yields Q E m) \<Longrightarrow> (\<And>x. v = Some x \<Longrightarrow> yields Q E (g x)) \<Longrightarrow>
     yields Q E (case v of None \<Rightarrow> m | Some x \<Rightarrow> g x)"
  "(\<And>x y. p = (x, y) \<Longrightarrow> yields Q E (h x y)) \<Longrightarrow> yields Q E (case p of (x, y) \<Rightarrow> h x y)"
  by (auto split: option.splits prod.splits)

subsection \<open>Errors\<close>

definition entry_status :: "string \<Rightarrow> int option" where
  "entry_status code = map_option pt_status (map_of PROBLEM_TYPES code)"

text \<open>
  An error that is documented: its code has an entry in the catalogue, with the status of the response, which
  is one of the given ones. Other exceptions are answered by the handler for unexpected ones.
\<close>

definition answers :: "int list \<Rightarrow> http_error \<Rightarrow> bool" where
  "answers statuses e =
     (case e of
        HTTPException status code _ _ _ extensions \<Rightarrow> entry_status code = Some status \<and> distinct (map fst extensions) \<and> status \<in> set statuses
      | Framework_HTTPException _ _ _ \<Rightarrow> False
      | RequestValidationError _ \<Rightarrow> 422 \<in> set statuses
      | Unhandled _ \<Rightarrow> True)"

abbreviation has_status :: "int \<Rightarrow> response \<Rightarrow> bool" where
  "has_status st rs \<equiv> rs_status rs = st"

lemma entry_status_values:
  "entry_status ''unauthorized'' = Some 401" "entry_status ''permission_denied'' = Some 403"
  "entry_status ''invalid_admin_user_query'' = Some 422" "entry_status ''sample_item_invalid_cursor'' = Some 400"
  "entry_status ''role_not_found'' = Some 422" "entry_status ''user_not_found'' = Some 404"
  "entry_status ''email_already_registered'' = Some 409" "entry_status ''weak_password'' = Some 422"
  "entry_status ''register_rate_limited'' = Some 429" "entry_status ''login_rate_limited'' = Some 429"
  "entry_status ''invalid_credentials'' = Some 401" "entry_status ''sample_item_not_found'' = Some 404"
  by code_simp+

lemma entry_status_deletion_values:
  "entry_status ''account_deletion_confirmation_mismatch'' = Some 400" "entry_status ''account_deletion_reauth_required'' = Some 400"
  "entry_status ''account_deletion_invalid_password'' = Some 400" "entry_status ''account_deletion_oidc_reauth_required'' = Some 400"
  "entry_status ''account_deletion_reauth_rate_limited'' = Some 429"
  by code_simp+

lemma answers_iff [simp]:
  "answers ds (api_error st code m) \<longleftrightarrow> entry_status code = Some st \<and> st \<in> set ds"
  "answers ds (HTTPException st code m hs er exts) \<longleftrightarrow> entry_status code = Some st \<and> distinct (map fst exts) \<and> st \<in> set ds"
  "answers ds (Unhandled e)" "answers ds (RequestValidationError es) \<longleftrightarrow> 422 \<in> set ds"
  by (simp_all add: answers_def api_error_def)

lemmas answers_values = entry_status_values entry_status_deletion_values

lemma answers_account_errors [yields_intros]:
  "401 \<in> set ds \<Longrightarrow> 429 \<in> set ds \<Longrightarrow> answers ds (login_error app e)"
  "409 \<in> set ds \<Longrightarrow> 422 \<in> set ds \<Longrightarrow> 429 \<in> set ds \<Longrightarrow> answers ds (register_error app e)"
  "400 \<in> set ds \<Longrightarrow> 429 \<in> set ds \<Longrightarrow> answers ds (delete_me_error app e)"
  by ((cases e, simp_all add: login_error_def answers_values)[1], (cases e, simp_all add: register_error_def answers_values)[1],
      (cases e, simp_all add: delete_me_error_def answers_values)[1])

lemma answers_not_found [simp]:
  "answers ds user_not_found_error \<longleftrightarrow> 404 \<in> set ds" "answers ds (role_not_found_error codes) \<longleftrightarrow> 422 \<in> set ds"
  by (simp_all add: user_not_found_error_def role_not_found_error_def answers_values)

lemma answers_resource_errors [yields_intros]:
  "404 \<in> set ds \<Longrightarrow> 409 \<in> set ds \<Longrightarrow> 422 \<in> set ds \<Longrightarrow> answers ds (admin_user_error e)"
  "404 \<in> set ds \<Longrightarrow> answers ds (only_user_not_found e)"
  "404 \<in> set ds \<Longrightarrow> 422 \<in> set ds \<Longrightarrow> answers ds (authorization_error e)" "404 \<in> set ds \<Longrightarrow> answers ds (item_not_found e)"
  by (cases e; simp add: admin_user_error_def only_user_not_found_def authorization_error_def item_not_found_def answers_values)+

lemma answers_create_user_error [yields_intros]: "404 \<in> set ds \<Longrightarrow> 409 \<in> set ds \<Longrightarrow> 422 \<in> set ds \<Longrightarrow> answers ds (create_user_error e)"
  using answers_resource_errors(1) [of ds e] by (cases e) (simp_all add: create_user_error_def)

subsection \<open>Endpoints\<close>

lemma yields_dependencies [yields_intros]:
  "yields (\<lambda>_. True) (answers ds) (get_client_ip app r)" "yields (\<lambda>_. True) (answers ds) (current_session app r)"
  "401 \<in> set ds \<Longrightarrow> yields (\<lambda>_. True) (answers ds) (require_current_session app r)"
  "401 \<in> set ds \<Longrightarrow> 403 \<in> set ds \<Longrightarrow> yields (\<lambda>_. True) (answers ds) (require_admin_access app r)"
  unfolding require_admin_access_def require_permission_def require_current_session_def current_session_def get_client_ip_def
  by (auto simp: answers_values intro!: yields_intros)

lemma yields_cookie_step [yields_intros]: "yields (\<lambda>_. True) (answers ds) (cookie_step f cs)"
  by (simp add: cookie_step_def yields_def wp_lift split: sum.splits)

lemma yields_cookies [yields_intros]:
  "yields (\<lambda>_. True) (answers ds) (set_session_cookie app t cs)" "yields (\<lambda>_. True) (answers ds) (set_csrf_cookie app t cs)"
  "yields (\<lambda>_. True) (answers ds) (clear_session_cookie app cs)" "yields (\<lambda>_. True) (answers ds) (clear_csrf_cookie app cs)"
  "yields (\<lambda>_. True) (answers ds) (set_oidc_binding_cookie app k v m cs)" "yields (\<lambda>_. True) (answers ds) (clear_oidc_binding_cookie app k cs)"
  unfolding set_session_cookie_def set_csrf_cookie_def clear_session_cookie_def clear_csrf_cookie_def
    set_oidc_binding_cookie_def clear_oidc_binding_cookie_def by (intro yields_intros)+

lemma response_statuses [simp]:
  "rs_status (json_response st hs cs b) = st" "rs_status (empty_response st cs) = st" "rs_status (oidc_redirect p) = 303"
  by (simp_all add: json_response_def empty_response_def oidc_redirect_def)

lemma yields_with_cookies [yields_intros]:
  "rs_status r = st \<Longrightarrow> (\<And>cs. yields (\<lambda>_. True) (answers ds) (f cs)) \<Longrightarrow> yields (has_status st) (answers ds) (with_cookies r f)"
  unfolding with_cookies_def by (intro yields_intros) simp_all

lemma yields_merged_redirect [yields_intros]: "yields (has_status 303) (answers ds) (merged_redirect p u)"
  by (simp add: merged_redirect_def yields_def wp_lift split: sum.splits)

lemma yields_redirects [yields_intros]:
  "yields (has_status 303) (answers ds) (oidc_start_failure_redirect p e)" "yields (has_status 303) (answers ds) (oidc_callback_failure_redirect app e n)"
  unfolding oidc_callback_failure_redirect_def oidc_start_failure_redirect_def Let_def
  by (auto intro!: yields_intros yields_bind_with [OF yields_merged_redirect] split: prod.splits)

lemma yields_try:
  "(\<And>e. yields Q E (h e)) \<Longrightarrow> (\<And>x. yields Q E (f x)) \<Longrightarrow>
     yields Q E (\<lambda>s. case m s of (Inl e, s') \<Rightarrow> h e s' | (Inr x, s') \<Rightarrow> f x s')"
  unfolding yields_iff
proof
  fix s assume h: "\<And>e. \<forall>s. case fst (h e s) of Inl e \<Rightarrow> E e | Inr x \<Rightarrow> Q x" "\<And>x. \<forall>s. case fst (f x s) of Inl e \<Rightarrow> E e | Inr x \<Rightarrow> Q x"
  show "case fst (case m s of (Inl e, s') \<Rightarrow> h e s' | (Inr x, s') \<Rightarrow> f x s') of Inl e \<Rightarrow> E e | Inr x \<Rightarrow> Q x"
    by (cases "m s"; cases "fst (m s)") (use h in auto)
qed

lemma yields_started [yields_intros]: "yields (has_status 303) (answers ds) (started app p m)"
  unfolding started_def by (intro yields_try yields_intros response_statuses)

lemma yields_reporting [yields_intros]:
  "(\<And>x. yields (has_status 303) (answers ds) (f x)) \<Longrightarrow> yields (has_status 303) (answers ds) (reporting_failures app n m f)"
  unfolding reporting_failures_def by (rule yields_try) (rule yields_redirects)

lemma yields_bind_response:
  "(\<And>x. rs_status x = 303 \<Longrightarrow> yields Q (answers ds) (g x)) \<Longrightarrow> yields Q (answers ds) (bind (merged_redirect p u) g)"
  "rs_status r = st \<Longrightarrow> (\<And>cs. yields (\<lambda>_. True) (answers ds) (f cs)) \<Longrightarrow> (\<And>x. rs_status x = st \<Longrightarrow> yields Q (answers ds) (g x)) \<Longrightarrow>
     yields Q (answers ds) (bind (with_cookies r f) g)"
  by (rule yields_bind_with [OF yields_merged_redirect], simp)
    (rule yields_bind_with [where R = "has_status st"], rule yields_with_cookies, simp_all)

lemma yields_callback_response [yields_intros]: "yields (has_status 303) (answers ds) (callback_response app r n res)"
  unfolding callback_response_def
  by (auto split: option.splits intro!: yields_bind_response yields_bind [OF yields_basic(3)] yields_cookies yields_with_cookies)

lemma yields_oidc_endpoints:
  "yields (has_status 200) (answers ds) (list_oidc_providers app)" "yields (has_status 303) (answers ds) (start_oidc_login app r p redirect lang)"
  "yields (has_status 303) (answers ds) (start_oidc_reauth app r p redirect)"
  "yields (has_status 303) (answers ds) (complete_oidc_code app r p state code n)"
  unfolding list_oidc_providers_def start_oidc_login_def start_oidc_reauth_def complete_oidc_code_def Let_def
  by (auto split: option.splits intro!: yields_intros)

lemma yields_callback: "yields (has_status 303) (answers ds) (complete_oidc_callback app r p state code error)"
  unfolding complete_oidc_callback_def Let_def
  by (auto split: option.splits intro!: yields_intros yields_oidc_endpoints)

lemma yields_signed [yields_intros]: "yields (has_status 204) (answers ds) (signed_out app)" "yields (has_status st) (answers ds) (signed_in app st x)"
  unfolding signed_out_def signed_in_def by (auto intro!: yields_intros)

lemma yields_auth_endpoints:
  "yields (has_status 200) (answers ds) (get_csrf app r)" "yields (has_status 200) (answers ME_ERROR_RESPONSES) (get_me app r)"
  "yields (has_status 200) (answers ME_ERROR_RESPONSES) (update_me app r payload)"
  "yields (has_status 204) (answers DELETE_ACCOUNT_ERROR_RESPONSES) (delete_me app r em confirmation)"
  "yields (has_status 201) (answers REGISTER_ERROR_RESPONSES) (register_endpoint app r em pw lang)"
  "yields (has_status 200) (answers LOGIN_ERROR_RESPONSES) (login_endpoint app r em pw)"
  "yields (has_status 204) (answers LOGOUT_ERROR_RESPONSES) (logout_endpoint app r)"
  unfolding get_csrf_def get_me_def update_me_def register_endpoint_def login_endpoint_def logout_endpoint_def delete_me_def Let_def
  by (auto split: option.splits intro!: yields_intros)

lemma yields_admin_endpoints:
  "yields (has_status 200) (answers ADMIN_USER_ERROR_RESPONSES) (list_admin_users app r offset limit search role a)"
  "yields (has_status 201) (answers ADMIN_USER_ERROR_RESPONSES) (create_admin_user app r em pw enabled roles)"
  "yields (has_status 200) (answers ADMIN_USER_ERROR_RESPONSES) (get_admin_user app r i)"
  "yields (has_status 200) (answers ADMIN_USER_ERROR_RESPONSES) (update_admin_user app r i changes)"
  "yields (has_status 204) (answers ADMIN_USER_ERROR_RESPONSES) (delete_admin_user app r i)"
  "yields (has_status 200) (answers ADMIN_ERROR_RESPONSES) (list_roles_endpoint app r)"
  "yields (has_status 200) (answers ADMIN_ERROR_RESPONSES) (get_user_roles app r i)"
  "yields (has_status 200) (answers ADMIN_ERROR_RESPONSES) (replace_user_roles_endpoint app r i roles)"
  unfolding list_admin_users_def create_admin_user_def get_admin_user_def update_admin_user_def delete_admin_user_def list_roles_endpoint_def
    get_user_roles_def replace_user_roles_endpoint_def
  by (auto simp: answers_values split: exn.splits intro!: yields_intros)

lemma yields_sample_endpoints:
  "yields (has_status 200) (answers LIST_ERROR_RESPONSES) (list_sample_items lib app r n c)"
  "yields (has_status 201) (answers CREATE_ERROR_RESPONSES) (create_sample_item app r t d)"
  "yields (has_status 200) (answers GET_ITEM_ERROR_RESPONSES) (get_sample_item app r i)"
  "yields (has_status 200) (answers UPDATE_ERROR_RESPONSES) (update_sample_item app r i ch)"
  "yields (has_status 204) (answers DELETE_ERROR_RESPONSES) (delete_sample_item app r i)"
  "yields (has_status 200) (answers ds) healthz"
  unfolding list_sample_items_def create_sample_item_def get_sample_item_def update_sample_item_def delete_sample_item_def healthz_def
  by (auto simp: answers_values split: exn.splits intro!: yields_intros)

lemma yields_dispatch: "yields (has_status (success_status call)) (answers (snd (documented call))) (dispatch lib app r call)"
  unfolding success_status_def
  by (cases call; simp only: dispatch.simps documented.simps redirecting.simps fst_conv snd_conv if_True if_False;
      rule yields_oidc_endpoints yields_callback yields_auth_endpoints yields_admin_endpoints yields_sample_endpoints)

text \<open>Every endpoint that the CSRF middleware protects documents the refusal.\<close>

lemma csrf_documented: "fst (route_of call) \<noteq> ''GET'' \<Longrightarrow> 403 \<in> set (snd (documented call))"
  by (cases call) simp_all

end
