(* ===== verification/Request_Schemas.thy ===== *)
theory Request_Schemas
  imports Documented_Responses
begin

text \<open>
  The schemas of request bodies (\<^verbatim>\<open>app/models/auth_schemas.py\<close>, \<^verbatim>\<open>admin_user_schemas.py\<close>,
  \<^verbatim>\<open>authorization_schemas.py\<close>, \<^verbatim>\<open>sample_item_schemas.py\<close>): which JSON documents an endpoint accepts and the
  call they become.

  How pydantic reads a string, a boolean, an integer, a UUID and an email address is the record \<open>pydantic\<close>, with the
  message of each kind of error. The fields, their constraints, defaults and validators are those of the
  source. All errors of a document are collected, unknown members are refused.
\<close>

type_synonym field_errors = "(loc_part list \<times> string) list"
type_synonym 'a reader = "json \<Rightarrow> field_errors + 'a"

record pydantic =
  read_str :: "string reader"
  read_bool :: "bool reader"
  read_int :: "int reader"
  read_uuid :: "uuid reader"
  read_email :: "string reader"
  message_of :: "string \<Rightarrow> string"

subsection \<open>Fields\<close>

definition str_field :: "pydantic \<Rightarrow> nat \<Rightarrow> nat \<Rightarrow> string reader" where
  "str_field pd min_length max_length v =
     sum_bind (read_str pd v) (\<lambda>s.
       if length s < min_length then Inl [([], ''string_too_short'')]
       else if length s > max_length then Inl [([], ''string_too_long'')]
       else Inr s)"

definition language_field :: "string reader" where
  "language_field v = (case v of JStr s \<Rightarrow> if is_supported_language_code s then Inr s else Inl [([], ''literal_error'')]
     | _ \<Rightarrow> Inl [([], ''literal_error'')])"

fun read_items :: "'a reader \<Rightarrow> nat \<Rightarrow> json list \<Rightarrow> field_errors + 'a list" where
  "read_items r i [] = Inr []"
| "read_items r i (v # vs) =
     (case (r v, read_items r (Suc i) vs) of
        (Inr x, Inr xs) \<Rightarrow> Inr (x # xs)
      | (Inr _, Inl es) \<Rightarrow> Inl es
      | (Inl e, Inr _) \<Rightarrow> Inl (map (\<lambda>(loc, k). (Loc_int (int i) # loc, k)) e)
      | (Inl e, Inl es) \<Rightarrow> Inl (map (\<lambda>(loc, k). (Loc_int (int i) # loc, k)) e @ es))"

definition list_field :: "'a reader \<Rightarrow> nat \<Rightarrow> 'a list reader" where
  "list_field r max_length v =
     (case v of
        JList xs \<Rightarrow> if length xs > max_length then Inl [([], ''too_long'')] else read_items r 0 xs
      | _ \<Rightarrow> Inl [([], ''list_type'')])"

definition optional_field :: "'a reader \<Rightarrow> 'a option reader" where
  "optional_field r v = (if v = JNull then Inr None else map_sum id Some (r v))"

text \<open>The validator \<open>reject_null_for_non_nullable_patch_fields\<close> runs before the field is read.\<close>

definition patch_field :: "'a reader \<Rightarrow> 'a option reader" where
  "patch_field r v = (if v = JNull then Inl [([], ''value_error'')] else map_sum id Some (r v))"

text \<open>A member of the document: read if it is there, otherwise the default.\<close>

definition field :: "(string \<times> json) list \<Rightarrow> string \<Rightarrow> 'a reader \<Rightarrow> 'a option \<Rightarrow> field_errors + 'a" where
  "field d name r fallback =
     (case map_of d name of
        Some v \<Rightarrow> map_sum (map (\<lambda>(loc, k). (Loc_str name # loc, k))) id (r v)
      | None \<Rightarrow> (case fallback of None \<Rightarrow> Inl [([Loc_str name], ''missing'')] | Some x \<Rightarrow> Inr x))"

text \<open>Two results, with the errors of both.\<close>

definition both :: "field_errors + 'a \<Rightarrow> field_errors + 'b \<Rightarrow> field_errors + 'a \<times> 'b" where
  "both a b =
     (case (a, b) of
        (Inr x, Inr y) \<Rightarrow> Inr (x, y)
      | (Inl e, Inr _) \<Rightarrow> Inl e
      | (Inr _, Inl e) \<Rightarrow> Inl e
      | (Inl e, Inl e') \<Rightarrow> Inl (e @ e'))"

definition forbid_extra :: "(string \<times> json) list \<Rightarrow> string list \<Rightarrow> field_errors + unit" where
  "forbid_extra d names =
     (case filter (\<lambda>k. k \<notin> set names) (map fst d) of
        [] \<Rightarrow> Inr ()
      | extra \<Rightarrow> Inl (map (\<lambda>k. ([Loc_str k], ''extra_forbidden'')) extra))"

definition fields_set :: "(string \<times> json) list \<Rightarrow> string list \<Rightarrow> string set" where
  "fields_set d names = set (filter (\<lambda>n. n \<in> fst ` set d) names)"

subsection \<open>Schemas\<close>

definition register_request :: "pydantic \<Rightarrow> (string \<times> json) list \<Rightarrow> field_errors + api_call" where
  "register_request pd d =
     map_sum id (\<lambda>(email, password, language_code, _). Register email password language_code)
       (both (field d ''email'' (read_email pd) None)
       (both (field d ''password'' (str_field pd 12 128) None)
       (both (field d ''language_code'' language_field (Some DEFAULT_LANGUAGE_CODE))
          (forbid_extra d [''email'', ''password'', ''language_code'']))))"

definition login_request :: "pydantic \<Rightarrow> (string \<times> json) list \<Rightarrow> field_errors + api_call" where
  "login_request pd d =
     map_sum id (\<lambda>(email, password, _). Login_call email password)
       (both (field d ''email'' (read_email pd) None)
       (both (field d ''password'' (str_field pd 0 128) None)
          (forbid_extra d [''email'', ''password''])))"

definition account_deletion_request :: "pydantic \<Rightarrow> (string \<times> json) list \<Rightarrow> field_errors + api_call" where
  "account_deletion_request pd d =
     map_sum id (\<lambda>(confirm_email, password, _). Delete_me confirm_email password)
       (both (field d ''confirm_email'' (read_email pd) None)
       (both (field d ''password'' (optional_field (str_field pd 0 128)) (Some None))
          (forbid_extra d [''confirm_email'', ''password''])))"

definition update_auth_user_request :: "(string \<times> json) list \<Rightarrow> field_errors + api_call" where
  "update_auth_user_request d =
     map_sum id (\<lambda>(language_code, _). Update_me \<lparr>uc_language_code = language_code, uc_fields_set = fields_set d [''language_code'']\<rparr>)
       (both (field d ''language_code'' (patch_field language_field) (Some None)) (forbid_extra d [''language_code'']))"

definition admin_user_create_request :: "pydantic \<Rightarrow> (string \<times> json) list \<Rightarrow> field_errors + api_call" where
  "admin_user_create_request pd d =
     map_sum id (\<lambda>(email, password, is_active, roles, _). Create_admin_user email password is_active roles)
       (both (field d ''email'' (read_email pd) None)
       (both (field d ''password'' (str_field pd 12 128) None)
       (both (field d ''is_active'' (read_bool pd) (Some True))
       (both (field d ''roles'' (list_field (read_str pd) 100) (Some []))
          (forbid_extra d [''email'', ''password'', ''is_active'', ''roles''])))))"

definition admin_user_update_request :: "pydantic \<Rightarrow> uuid \<Rightarrow> (string \<times> json) list \<Rightarrow> field_errors + api_call" where
  "admin_user_update_request pd user_id d =
     (let names = [''email'', ''password'', ''is_active'', ''roles''] in
      map_sum id (\<lambda>(email, password, is_active, roles, _). Update_admin_user user_id
          \<lparr>ch_email = email, ch_password = password, ch_is_active = is_active, ch_roles = roles, ch_fields_set = fields_set d names\<rparr>)
       (both (field d ''email'' (patch_field (read_email pd)) (Some None))
       (both (field d ''password'' (patch_field (str_field pd 12 128)) (Some None))
       (both (field d ''is_active'' (patch_field (read_bool pd)) (Some None))
       (both (field d ''roles'' (patch_field (list_field (read_str pd) 100)) (Some None))
          (forbid_extra d names))))))"

definition user_role_replace_request :: "pydantic \<Rightarrow> uuid \<Rightarrow> (string \<times> json) list \<Rightarrow> field_errors + api_call" where
  "user_role_replace_request pd user_id d =
     map_sum id (\<lambda>(roles, _). Replace_user_roles user_id roles)
       (both (field d ''roles'' (list_field (read_str pd) 100) None) (forbid_extra d [''roles'']))"

definition sample_item_create_request :: "pydantic \<Rightarrow> (string \<times> json) list \<Rightarrow> field_errors + api_call" where
  "sample_item_create_request pd d =
     map_sum id (\<lambda>(title, description, _). Create_sample_item title description)
       (both (field d ''title'' (str_field pd 1 120) None)
       (both (field d ''description'' (optional_field (str_field pd 0 1000)) (Some None))
          (forbid_extra d [''title'', ''description''])))"

definition sample_item_update_request :: "pydantic \<Rightarrow> uuid \<Rightarrow> (string \<times> json) list \<Rightarrow> field_errors + api_call" where
  "sample_item_update_request pd item_id d =
     (let names = [''title'', ''description'', ''is_completed''] in
      map_sum id (\<lambda>(title, description, is_completed, _). Update_sample_item item_id
          \<lparr>sc_title = title, sc_description = description, sc_is_completed = is_completed, sc_fields_set = fields_set d names\<rparr>)
       (both (field d ''title'' (patch_field (str_field pd 1 120)) (Some None))
       (both (field d ''description'' (optional_field (str_field pd 0 1000)) (Some None))
       (both (field d ''is_completed'' (patch_field (read_bool pd)) (Some None))
          (forbid_extra d names)))))"

subsection \<open>Requests with a body\<close>

datatype body_endpoint =
    Register_body
  | Login_body
  | Delete_me_body
  | Update_me_body
  | Create_admin_user_body
  | Update_admin_user_body uuid
  | Replace_user_roles_body uuid
  | Create_sample_item_body
  | Update_sample_item_body uuid

fun body_schema :: "pydantic \<Rightarrow> body_endpoint \<Rightarrow> (string \<times> json) list \<Rightarrow> field_errors + api_call" where
  "body_schema pd Register_body = register_request pd"
| "body_schema pd Login_body = login_request pd"
| "body_schema pd Delete_me_body = account_deletion_request pd"
| "body_schema pd Update_me_body = update_auth_user_request"
| "body_schema pd Create_admin_user_body = admin_user_create_request pd"
| "body_schema pd (Update_admin_user_body i) = admin_user_update_request pd i"
| "body_schema pd (Replace_user_roles_body i) = user_role_replace_request pd i"
| "body_schema pd Create_sample_item_body = sample_item_create_request pd"
| "body_schema pd (Update_sample_item_body i) = sample_item_update_request pd i"

definition located_error :: "pydantic \<Rightarrow> string \<Rightarrow> loc_part list \<times> string \<Rightarrow> validation_error" where
  "located_error pd place e = \<lparr>ve_loc = Loc_str place # fst e, ve_msg = Some (message_of pd (snd e)), ve_type = Some (snd e)\<rparr>"

definition accept_body :: "pydantic \<Rightarrow> body_endpoint \<Rightarrow> json \<Rightarrow> validation_error list + api_call" where
  "accept_body pd ep body =
     map_sum (map (located_error pd ''body'')) id
       (case body of JObj d \<Rightarrow> body_schema pd ep d | _ \<Rightarrow> Inl [([], ''model_attributes_type'')])"

text \<open>
  FastAPI resolves the dependencies of an endpoint, which may raise, before it reports the errors of its parameters. The
  dependencies that do something are those that authenticate the caller.
\<close>

datatype guard = Anyone | Session | Administrator

fun run_guard :: "('l, 'c) app \<Rightarrow> request \<Rightarrow> guard \<Rightarrow> ('l, 'c, unit) http" where
  "run_guard app r Anyone = ok ()"
| "run_guard app r Session = bind (require_current_session app r) (\<lambda>_. ok ())"
| "run_guard app r Administrator = bind (require_admin_access app r) (\<lambda>_. ok ())"

definition checked ::
    "('l, 'c, unit) http \<Rightarrow> validation_error list + api_call \<Rightarrow> (api_call \<Rightarrow> ('l, 'c, response) http) \<Rightarrow> ('l, 'c, response) http" where
  "checked dependency accepted run =
     (case accepted of Inr call \<Rightarrow> run call | Inl errors \<Rightarrow> seq dependency (raise (RequestValidationError errors)))"

fun body_guard :: "body_endpoint \<Rightarrow> guard" where
  "body_guard Register_body = Anyone"
| "body_guard Login_body = Anyone"
| "body_guard Create_admin_user_body = Administrator"
| "body_guard (Update_admin_user_body _) = Administrator"
| "body_guard (Replace_user_roles_body _) = Administrator"
| "body_guard _ = Session"

definition dispatch_body :: "text_lib \<Rightarrow> pydantic \<Rightarrow> ('l, 'c) app \<Rightarrow> request \<Rightarrow> body_endpoint \<Rightarrow> json \<Rightarrow> ('l, 'c, response) http" where
  "dispatch_body lib pd app r ep body = checked (run_guard app r (body_guard ep)) (accept_body pd ep body) (dispatch lib app r)"

fun body_route :: "body_endpoint \<Rightarrow> string \<times> string" where
  "body_route Register_body = (''POST'', ''/api/auth/register'')"
| "body_route Login_body = (''POST'', ''/api/auth/login'')"
| "body_route Delete_me_body = (''DELETE'', ''/api/auth/me'')"
| "body_route Update_me_body = (''PATCH'', ''/api/auth/me'')"
| "body_route Create_admin_user_body = (''POST'', ''/api/admin/users'')"
| "body_route (Update_admin_user_body i) = (''PATCH'', ''/api/admin/users/'' @ str_uuid i)"
| "body_route (Replace_user_roles_body i) = (''PUT'', ''/api/admin/users/'' @ str_uuid i @ ''/roles'')"
| "body_route Create_sample_item_body = (''POST'', ''/api/samples'')"
| "body_route (Update_sample_item_body i) = (''PATCH'', ''/api/samples/'' @ str_uuid i)"

definition serve_body :: "text_lib \<Rightarrow> pydantic \<Rightarrow> ('l, 'c) app \<Rightarrow> request \<Rightarrow> body_endpoint \<Rightarrow> json \<Rightarrow> ('l, 'c, response) prog" where
  "serve_body lib pd app r ep body =
     (let r' = r\<lparr>req_method := fst (body_route ep), req_path := req_root_path r @ snd (body_route ep)\<rparr> in
      csrf_middleware app r' (dispatch_body lib pd app r' ep body))"

subsection \<open>What an accepted body guarantees\<close>

text \<open>
  The calls that the endpoints are written for: passwords within the policy, supported languages, at most a hundred roles, titles
  and descriptions that fit their columns, a value for every member that a change names, and pages of one to a hundred rows.
\<close>

fun well_formed_call :: "api_call \<Rightarrow> bool" where
  "well_formed_call (Register _ password language_code) =
     (fst (validate_password_policy password) \<and> is_supported_language_code language_code)"
| "well_formed_call (Login_call _ password) = (length password \<le> 128)"
| "well_formed_call (Delete_me _ password) = (\<forall>p. password = Some p \<longrightarrow> length p \<le> 128)"
| "well_formed_call (Update_me ch) =
     (''language_code'' \<in> uc_fields_set ch \<longrightarrow> (\<exists>l. uc_language_code ch = Some l \<and> is_supported_language_code l))"
| "well_formed_call (Create_admin_user _ password _ roles) = (fst (validate_password_policy password) \<and> length roles \<le> 100)"
| "well_formed_call (Update_admin_user _ ch) =
     ((''email'' \<in> ch_fields_set ch \<longrightarrow> ch_email ch \<noteq> None) \<and>
      (''password'' \<in> ch_fields_set ch \<longrightarrow> (\<exists>p. ch_password ch = Some p \<and> fst (validate_password_policy p))) \<and>
      (''is_active'' \<in> ch_fields_set ch \<longrightarrow> ch_is_active ch \<noteq> None) \<and>
      (''roles'' \<in> ch_fields_set ch \<longrightarrow> (\<exists>rs. ch_roles ch = Some rs \<and> length rs \<le> 100)))"
| "well_formed_call (Replace_user_roles _ roles) = (length roles \<le> 100)"
| "well_formed_call (Create_sample_item title description) =
     (1 \<le> length title \<and> length title \<le> 120 \<and> (\<forall>t. description = Some t \<longrightarrow> length t \<le> 1000))"
| "well_formed_call (Update_sample_item _ ch) =
     ((\<forall>item. \<not> isl (apply_item_changes ch item)) \<and>
      (\<forall>t. sc_title ch = Some t \<longrightarrow> 1 \<le> length t \<and> length t \<le> 120) \<and> (\<forall>t. sc_description ch = Some t \<longrightarrow> length t \<le> 1000))"
| "well_formed_call (List_admin_users _ limit search role _) =
     (1 \<le> limit \<and> limit \<le> 100 \<and> (\<forall>t. search = Some t \<longrightarrow> length t \<le> 320) \<and> (\<forall>t. role = Some t \<longrightarrow> length t \<le> 64))"
| "well_formed_call (List_sample_items limit _) = (1 \<le> limit \<and> limit \<le> 100)"
| "well_formed_call _ = True"

lemma both_Inr: "both a b = Inr z \<longleftrightarrow> a = Inr (fst z) \<and> b = Inr (snd z)"
  by (cases z) (auto simp: both_def split: sum.splits)

lemma field_Inr:
  "field d n r v = Inr x \<longleftrightarrow> (\<exists>w. map_of d n = Some w \<and> r w = Inr x) \<or> (map_of d n = None \<and> v = Some x)"
  by (auto simp: field_def map_sum_Inr split: option.splits)

lemma fields_set_iff: "n \<in> fields_set d names \<longleftrightarrow> n \<in> set names \<and> map_of d n \<noteq> None"
  by (auto simp: fields_set_def map_of_eq_None_iff)

lemma str_field_Inr: "str_field pd lo hi v = Inr s \<Longrightarrow> lo \<le> length s \<and> length s \<le> hi"
  by (auto simp: str_field_def sum_bind_Inr split: if_splits)

lemma language_field_Inr: "language_field v = Inr s \<Longrightarrow> is_supported_language_code s"
  by (auto simp: language_field_def split: json.splits if_splits)

lemma read_items_length: "read_items r i vs = Inr xs \<Longrightarrow> length xs = length vs"
  by (induction vs arbitrary: i xs) (auto split: sum.splits)

lemma list_field_Inr: "list_field r n v = Inr xs \<Longrightarrow> length xs \<le> n"
  by (cases v) (auto simp: list_field_def dest: read_items_length split: if_splits)

lemma optional_field_Inr: "optional_field r v = Inr x \<Longrightarrow> x = None \<or> (\<exists>y. x = Some y \<and> r v = Inr y)"
  by (auto simp: optional_field_def map_sum_Inr split: if_splits)

lemma patch_field_Inr: "patch_field r v = Inr x \<Longrightarrow> \<exists>y. x = Some y \<and> r v = Inr y"
  by (auto simp: patch_field_def map_sum_Inr split: if_splits)

lemmas schema_defs = register_request_def login_request_def account_deletion_request_def update_auth_user_request_def
  admin_user_create_request_def admin_user_update_request_def user_role_replace_request_def sample_item_create_request_def
  sample_item_update_request_def Let_def

lemmas schema_dests = str_field_Inr language_field_Inr list_field_Inr optional_field_Inr patch_field_Inr

lemma schema_well_formed: "body_schema pd ep d = Inr call \<Longrightarrow> well_formed_call call"
proof (cases ep)
  case (Update_sample_item_body i)
  assume "body_schema pd ep d = Inr call"
  then show ?thesis
    unfolding Update_sample_item_body
    by (auto simp: schema_defs map_sum_Inr both_Inr field_Inr fields_set_iff apply_item_changes_def sum_bind_def isl_def
        dest!: schema_dests)
qed (auto simp: schema_defs map_sum_Inr both_Inr field_Inr fields_set_iff policy_accepts_iff is_supported_language_code_def
      DEFAULT_LANGUAGE_CODE_def SUPPORTED_LANGUAGE_CODES_def dest!: schema_dests)

lemma schema_route: "body_schema pd ep d = Inr call \<Longrightarrow> route_of call = body_route ep"
  by (cases ep) (auto simp: schema_defs map_sum_Inr)

lemma accept_body_Inr: "accept_body pd ep body = Inr call \<longleftrightarrow> (\<exists>d. body = JObj d \<and> body_schema pd ep d = Inr call)"
  by (cases body) (auto simp: accept_body_def map_sum_Inr)

lemma serve_accepted:
  assumes "accept_body pd ep body = Inr call"
  shows "serve_body lib pd app r ep body = serve lib app r call"
proof -
  have "route_of call = body_route ep" using assms by (auto simp: accept_body_Inr dest: schema_route)
  then show ?thesis using assms by (simp add: serve_body_def serve_def routed_def dispatch_body_def checked_def Let_def)
qed

text \<open>What a request with errors does: it runs the guard, whose exception comes first.\<close>

lemma checked_rejected:
  "checked dependency (Inl errors) run s =
     (case fst (dependency s) of Inl e \<Rightarrow> Inl e | Inr _ \<Rightarrow> Inl (RequestValidationError errors), snd (dependency s))"
  by (simp add: checked_def seq_def bind_def raise_def split: prod.splits sum.splits)

lemma checked_accepted [simp]: "checked dependency (Inr call) run = run call"
  by (simp add: checked_def)

subsection \<open>The documents of the calls\<close>

text \<open>
  The document that asks for a call, as a client of the interface writes it: a change has the members
  that it sets, and \<open>null\<close> stands for a missing description or password.
\<close>

definition nullable :: "('a \<Rightarrow> json) \<Rightarrow> 'a option \<Rightarrow> json" where
  "nullable f v = (case v of None \<Rightarrow> JNull | Some x \<Rightarrow> f x)"

definition member :: "string set \<Rightarrow> string \<Rightarrow> json \<Rightarrow> (string \<times> json) list" where
  "member present name v = (if name \<in> present then [(name, v)] else [])"

fun document :: "api_call \<Rightarrow> (body_endpoint \<times> (string \<times> json) list) option" where
  "document (Register email password language_code) =
     Some (Register_body, [(''email'', JStr email), (''password'', JStr password), (''language_code'', JStr language_code)])"
| "document (Login_call email password) = Some (Login_body, [(''email'', JStr email), (''password'', JStr password)])"
| "document (Delete_me email password) = Some (Delete_me_body, [(''confirm_email'', JStr email), (''password'', nullable JStr password)])"
| "document (Update_me ch) =
     Some (Update_me_body, member (uc_fields_set ch) ''language_code'' (nullable JStr (uc_language_code ch)))"
| "document (Create_admin_user email password is_active roles) =
     Some (Create_admin_user_body, [(''email'', JStr email), (''password'', JStr password), (''is_active'', JBool is_active),
       (''roles'', JList (map JStr roles))])"
| "document (Update_admin_user i ch) =
     Some (Update_admin_user_body i,
       member (ch_fields_set ch) ''email'' (nullable JStr (ch_email ch)) @ member (ch_fields_set ch) ''password'' (nullable JStr (ch_password ch)) @
       member (ch_fields_set ch) ''is_active'' (nullable JBool (ch_is_active ch)) @
       member (ch_fields_set ch) ''roles'' (nullable (\<lambda>rs. JList (map JStr rs)) (ch_roles ch)))"
| "document (Replace_user_roles i roles) = Some (Replace_user_roles_body i, [(''roles'', JList (map JStr roles))])"
| "document (Create_sample_item title description) =
     Some (Create_sample_item_body, [(''title'', JStr title), (''description'', nullable JStr description)])"
| "document (Update_sample_item i ch) =
     Some (Update_sample_item_body i,
       member (sc_fields_set ch) ''title'' (nullable JStr (sc_title ch)) @ member (sc_fields_set ch) ''description'' (nullable JStr (sc_description ch)) @
       member (sc_fields_set ch) ''is_completed'' (nullable JBool (sc_is_completed ch)))"
| "document _ = None"

text \<open>A change that names only members of its schema, and has no value for those it does not name.\<close>

fun plain_changes :: "api_call \<Rightarrow> bool" where
  "plain_changes (Update_me ch) =
     (uc_fields_set ch \<subseteq> {''language_code''} \<and> (''language_code'' \<notin> uc_fields_set ch \<longrightarrow> uc_language_code ch = None))"
| "plain_changes (Update_admin_user _ ch) =
     (ch_fields_set ch \<subseteq> {''email'', ''password'', ''is_active'', ''roles''} \<and>
      (''email'' \<notin> ch_fields_set ch \<longrightarrow> ch_email ch = None) \<and> (''password'' \<notin> ch_fields_set ch \<longrightarrow> ch_password ch = None) \<and>
      (''is_active'' \<notin> ch_fields_set ch \<longrightarrow> ch_is_active ch = None) \<and> (''roles'' \<notin> ch_fields_set ch \<longrightarrow> ch_roles ch = None))"
| "plain_changes (Update_sample_item _ ch) =
     (sc_fields_set ch \<subseteq> {''title'', ''description'', ''is_completed''} \<and>
      (''title'' \<notin> sc_fields_set ch \<longrightarrow> sc_title ch = None) \<and> (''description'' \<notin> sc_fields_set ch \<longrightarrow> sc_description ch = None) \<and>
      (''is_completed'' \<notin> sc_fields_set ch \<longrightarrow> sc_is_completed ch = None))"
| "plain_changes _ = True"

fun call_emails :: "api_call \<Rightarrow> string set" where
  "call_emails (Register email _ _) = {email}"
| "call_emails (Login_call email _) = {email}"
| "call_emails (Delete_me email _) = {email}"
| "call_emails (Create_admin_user email _ _ _) = {email}"
| "call_emails (Update_admin_user _ ch) = set_option (ch_email ch)"
| "call_emails _ = {}"

text \<open>Strings and booleans are read as they are; an address only where it is a valid one.\<close>

definition reads_plainly :: "pydantic \<Rightarrow> string set \<Rightarrow> bool" where
  "reads_plainly pd emails =
     ((\<forall>s. read_str pd (JStr s) = Inr s) \<and> (\<forall>b. read_bool pd (JBool b) = Inr b) \<and>
      (\<forall>e\<in>emails. read_email pd (JStr e) = Inr e))"

lemma read_items_strings: "(\<And>s. r (JStr s) = Inr s) \<Longrightarrow> read_items r i (map JStr xs) = Inr xs"
  by (induction xs arbitrary: i) simp_all

lemma map_of_member: "map_of (member p n v) k = (if k = n \<and> n \<in> p then Some v else None)"
  by (simp add: member_def)

lemma set_member: "set (member p n v) \<subseteq> {(n, v)}"
  by (auto simp: member_def)

lemma both_values [simp]: "both (Inr x) (Inr y) = Inr (x, y)"
  by (simp add: both_def)

lemma forbid_extra_none: "set (map fst d) \<subseteq> set names \<Longrightarrow> forbid_extra d names = Inr ()"
proof -
  assume "set (map fst d) \<subseteq> set names"
  then have "filter (\<lambda>k. k \<notin> set names) (map fst d) = []" by (intro filter_False) auto
  then show ?thesis by (simp add: forbid_extra_def)
qed

lemma str_field_ok: "read_str pd (JStr s) = Inr s \<Longrightarrow> lo \<le> length s \<Longrightarrow> length s \<le> hi \<Longrightarrow> str_field pd lo hi (JStr s) = Inr s"
  by (simp add: str_field_def sum_bind_def)

lemma list_field_ok:
  "(\<And>s. read_str pd (JStr s) = Inr s) \<Longrightarrow> length xs \<le> n \<Longrightarrow> list_field (read_str pd) n (JList (map JStr xs)) = Inr xs"
  by (simp add: list_field_def read_items_strings)

lemma language_field_ok: "is_supported_language_code s \<Longrightarrow> language_field (JStr s) = Inr s"
  by (simp add: language_field_def)

lemma patch_field_ok: "v \<noteq> JNull \<Longrightarrow> r v = Inr x \<Longrightarrow> patch_field r v = Inr (Some x)"
  by (simp add: patch_field_def)

lemma optional_field_ok:
  "(\<And>x. v = Some x \<Longrightarrow> f x \<noteq> JNull \<and> r (f x) = Inr x) \<Longrightarrow> optional_field r (nullable f v) = Inr v"
  by (simp add: optional_field_def nullable_def split: option.splits)

lemmas readers_ok = str_field_ok list_field_ok language_field_ok patch_field_ok optional_field_ok

text \<open>The members of a change.\<close>

lemma patch_member:
  assumes "map_of d n = (if n \<in> p then Some (nullable f v) else None)"
    and "n \<in> p \<Longrightarrow> \<exists>x. v = Some x \<and> f x \<noteq> JNull \<and> r (f x) = Inr x" "n \<notin> p \<Longrightarrow> v = None"
  shows "field d n (patch_field r) (Some None) = Inr v"
  using assms by (cases "n \<in> p") (auto simp: field_def nullable_def patch_field_ok)

lemma optional_member:
  assumes "map_of d n = (if n \<in> p then Some (nullable f v) else None)"
    and "\<And>x. v = Some x \<Longrightarrow> f x \<noteq> JNull \<and> r (f x) = Inr x" "n \<notin> p \<Longrightarrow> v = None"
  shows "field d n (optional_field r) (Some None) = Inr v"
  using assms by (cases "n \<in> p") (auto simp: field_def optional_field_ok)

lemma fields_set_members:
  "\<forall>n\<in>set names. map_of d n = None \<longleftrightarrow> n \<notin> p \<Longrightarrow> p \<subseteq> set names \<Longrightarrow> fields_set d names = p"
  by (rule set_eqI) (use fields_set_iff in blast)

lemma update_document:
  assumes r: "\<And>s. read_str pd (JStr s) = Inr s" "\<And>b. read_bool pd (JBool b) = Inr b"
    "\<And>e. ch_email ch = Some e \<Longrightarrow> read_email pd (JStr e) = Inr e"
    and w: "well_formed_call (Update_admin_user i ch)" "plain_changes (Update_admin_user i ch)"
    and d: "document (Update_admin_user i ch) = Some (ep, d)"
  shows "body_schema pd ep d = Inr (Update_admin_user i ch)"
proof -
  let ?p = "ch_fields_set ch" and ?names = "[''email'', ''password'', ''is_active'', ''roles'']"
  have ep: "ep = Update_admin_user_body i" using d by simp
  have m: "map_of d ''email'' = (if ''email'' \<in> ?p then Some (nullable JStr (ch_email ch)) else None)"
    "map_of d ''password'' = (if ''password'' \<in> ?p then Some (nullable JStr (ch_password ch)) else None)"
    "map_of d ''is_active'' = (if ''is_active'' \<in> ?p then Some (nullable JBool (ch_is_active ch)) else None)"
    "map_of d ''roles'' = (if ''roles'' \<in> ?p then Some (nullable (\<lambda>rs. JList (map JStr rs)) (ch_roles ch)) else None)"
    using d by (auto simp: map_of_member map_add_def)
  have "field d ''email'' (patch_field (read_email pd)) (Some None) = Inr (ch_email ch)"
    using w r(3) by (intro patch_member [OF m(1)]) auto
  moreover have "field d ''password'' (patch_field (str_field pd 12 128)) (Some None) = Inr (ch_password ch)"
    using w by (intro patch_member [OF m(2)]) (auto simp: str_field_ok r policy_accepts_iff)
  moreover have "field d ''is_active'' (patch_field (read_bool pd)) (Some None) = Inr (ch_is_active ch)"
    using w by (intro patch_member [OF m(3)]) (auto simp: r)
  moreover have "field d ''roles'' (patch_field (list_field (read_str pd) 100)) (Some None) = Inr (ch_roles ch)"
    using w by (intro patch_member [OF m(4)]) (auto simp: list_field_ok r)
  moreover have "forbid_extra d ?names = Inr ()" using d by (intro forbid_extra_none) (auto dest!: subsetD [OF set_member])
  moreover have "fields_set d ?names = ?p" using w(2) by (intro fields_set_members) (simp_all add: m)
  ultimately show ?thesis by (simp add: ep admin_user_update_request_def Let_def)
qed

lemma item_document:
  assumes r: "\<And>s. read_str pd (JStr s) = Inr s" "\<And>b. read_bool pd (JBool b) = Inr b"
    and w: "well_formed_call (Update_sample_item i ch)" "plain_changes (Update_sample_item i ch)"
    and d: "document (Update_sample_item i ch) = Some (ep, d)"
  shows "body_schema pd ep d = Inr (Update_sample_item i ch)"
proof -
  let ?p = "sc_fields_set ch" and ?names = "[''title'', ''description'', ''is_completed'']"
  have ep: "ep = Update_sample_item_body i" using d by simp
  have m: "map_of d ''title'' = (if ''title'' \<in> ?p then Some (nullable JStr (sc_title ch)) else None)"
    "map_of d ''description'' = (if ''description'' \<in> ?p then Some (nullable JStr (sc_description ch)) else None)"
    "map_of d ''is_completed'' = (if ''is_completed'' \<in> ?p then Some (nullable JBool (sc_is_completed ch)) else None)"
    using d by (auto simp: map_of_member map_add_def)
  have given: "''title'' \<in> ?p \<Longrightarrow> sc_title ch \<noteq> None" "''is_completed'' \<in> ?p \<Longrightarrow> sc_is_completed ch \<noteq> None"
    using w(1) by (auto simp: apply_item_changes_def sum_bind_def split: if_splits option.splits)
  have "field d ''title'' (patch_field (str_field pd 1 120)) (Some None) = Inr (sc_title ch)"
    using w given by (intro patch_member [OF m(1)]) (auto simp: str_field_ok r)
  moreover have "field d ''description'' (optional_field (str_field pd 0 1000)) (Some None) = Inr (sc_description ch)"
    using w by (intro optional_member [OF m(2)]) (auto simp: str_field_ok r)
  moreover have "field d ''is_completed'' (patch_field (read_bool pd)) (Some None) = Inr (sc_is_completed ch)"
    using w given by (intro patch_member [OF m(3)]) (auto simp: r)
  moreover have "forbid_extra d ?names = Inr ()" using d by (intro forbid_extra_none) (auto dest!: subsetD [OF set_member])
  moreover have "fields_set d ?names = ?p" using w(2) by (intro fields_set_members) (simp_all add: m)
  ultimately show ?thesis by (simp add: ep sample_item_update_request_def Let_def)
qed

lemma language_document:
  assumes "well_formed_call (Update_me ch)" "plain_changes (Update_me ch)" "document (Update_me ch) = Some (ep, d)"
  shows "body_schema pd ep d = Inr (Update_me ch)"
proof -
  let ?p = "uc_fields_set ch" and ?names = "[''language_code'']"
  have m: "map_of d ''language_code'' = (if ''language_code'' \<in> ?p then Some (nullable JStr (uc_language_code ch)) else None)"
    using assms(3) by (auto simp: map_of_member map_add_def)
  have "field d ''language_code'' (patch_field language_field) (Some None) = Inr (uc_language_code ch)"
    using assms by (intro patch_member [OF m]) (auto simp: language_field_ok)
  moreover have "forbid_extra d ?names = Inr ()" using assms(3) by (intro forbid_extra_none) (auto dest!: subsetD [OF set_member])
  moreover have "fields_set d ?names = ?p" using assms(2) by (intro fields_set_members) (simp_all add: m)
  ultimately show ?thesis using assms(3) by (auto simp: update_auth_user_request_def)
qed

lemma document_accepted:
  assumes "reads_plainly pd (call_emails call)" "well_formed_call call" "plain_changes call" "document call = Some (ep, d)"
  shows "accept_body pd ep (JObj d) = Inr call"
proof -
  have r: "\<And>s. read_str pd (JStr s) = Inr s" "\<And>b. read_bool pd (JBool b) = Inr b"
    "\<And>e. e \<in> call_emails call \<Longrightarrow> read_email pd (JStr e) = Inr e"
    using assms(1) by (simp_all add: reads_plainly_def)
  have "body_schema pd ep d = Inr call"
  proof (cases call)
    case (Update_me ch)
    then show ?thesis using assms language_document by blast
  next
    case (Update_admin_user i ch)
    show ?thesis unfolding Update_admin_user by (rule update_document) (use assms r Update_admin_user in auto)
  next
    case (Update_sample_item i ch)
    show ?thesis unfolding Update_sample_item by (rule item_document) (use assms r Update_sample_item in auto)
  qed (use assms r in \<open>auto simp: schema_defs field_def forbid_extra_none readers_ok policy_accepts_iff\<close>)
  then show ?thesis by (simp add: accept_body_def)
qed

text \<open>
  C13: A request body reaches an endpoint exactly when it should. A document that is accepted becomes a
  call that the endpoint is written for: passwords within the policy, supported languages, at most
  a hundred roles, titles and descriptions that fit their columns, no change that clears a column that
  must not be empty; and the request is then served as that call. A document that is refused does nothing beyond the
  authentication of the caller, whose failure takes precedence over the list of errors. And
  every such call can be made: the document that asks for it is accepted and read back as that very call.
\<close>

theorem request_bodies_checked:
  assumes "reads_plainly pd (call_emails call)" "well_formed_call call" "plain_changes call" "document call = Some (ep', d)"
  shows "(case accept_body pd ep body of
       Inr c \<Rightarrow> well_formed_call c \<and> serve_body lib pd app r ep body = serve lib app r c
     | Inl errors \<Rightarrow> dispatch_body lib pd app r ep body s =
         (case fst (run_guard app r (body_guard ep) s) of Inl e \<Rightarrow> Inl e | Inr _ \<Rightarrow> Inl (RequestValidationError errors),
          snd (run_guard app r (body_guard ep) s)))
    \<and> accept_body pd ep' (JObj d) = Inr call"
proof (cases "accept_body pd ep body")
  case (Inl errors)
  then show ?thesis using document_accepted [OF assms] by (simp add: dispatch_body_def checked_rejected)
next
  case (Inr c)
  then have "well_formed_call c" by (auto simp: accept_body_Inr dest: schema_well_formed)
  then show ?thesis using serve_accepted [OF Inr] document_accepted [OF assms] Inr by simp
qed

text \<open>A reader of decimal numbers, for the examples.\<close>

definition read_decimal :: "string \<Rightarrow> field_errors + int" where
  "read_decimal s =
     (if s \<noteq> [] \<and> list_all ascii_digit s then Inr (fold (\<lambda>c n. 10 * n + (of_char c - 48)) s 0) else Inl [([], ''int_parsing'')])"

definition demo_pydantic :: pydantic where
  "demo_pydantic =
     \<lparr>read_str = (\<lambda>v. case v of JStr s \<Rightarrow> Inr s | _ \<Rightarrow> Inl [([], ''string_type'')]),
      read_bool = (\<lambda>v. case v of JBool b \<Rightarrow> Inr b
         | JStr s \<Rightarrow> if s = ''true'' then Inr True else if s = ''false'' then Inr False else Inl [([], ''bool_parsing'')] | _ \<Rightarrow> Inl [([], ''bool_type'')]),
      read_int = (\<lambda>v. case v of JInt n \<Rightarrow> Inr n | JStr s \<Rightarrow> read_decimal s | _ \<Rightarrow> Inl [([], ''int_type'')]),
      read_uuid = (\<lambda>v. case v of JStr s \<Rightarrow> (case uuid_of_text s of Some u \<Rightarrow> Inr u | None \<Rightarrow> Inl [([], ''uuid_parsing'')]) | _ \<Rightarrow> Inl [([], ''uuid_type'')]),
      read_email = (\<lambda>v. case v of JStr s \<Rightarrow> if CHR ''@'' \<in> set s then Inr s else Inl [([], ''value_error'')]
         | _ \<Rightarrow> Inl [([], ''string_type'')]),
      message_of = id\<rparr>"

lemma request_bodies_checked_witness:
  "accept_body demo_pydantic Register_body
     (JObj [(''email'', JStr ''cleo''), (''password'', JStr ''correct horse''), (''admin'', JBool True)])
     = Inl [\<lparr>ve_loc = [Loc_str ''body'', Loc_str ''email''], ve_msg = Some ''value_error'', ve_type = Some ''value_error''\<rparr>,
        \<lparr>ve_loc = [Loc_str ''body'', Loc_str ''admin''], ve_msg = Some ''extra_forbidden'', ve_type = Some ''extra_forbidden''\<rparr>]
   \<and> accept_body demo_pydantic (Update_admin_user_body 7) (JObj [(''email'', JStr ''cleo@example.com''), (''roles'', JList [JStr ''admin''])])
     = Inr (Update_admin_user 7 \<lparr>ch_email = Some ''cleo@example.com'', ch_password = None, ch_is_active = None,
         ch_roles = Some [''admin''], ch_fields_set = {''email'', ''roles''}\<rparr>)"
proof -
  let ?call = "Update_admin_user 7 \<lparr>ch_email = Some ''cleo@example.com'', ch_password = None, ch_is_active = None,
         ch_roles = Some [''admin''], ch_fields_set = {''email'', ''roles''}\<rparr>"
  have r: "reads_plainly demo_pydantic (call_emails ?call)" by (simp add: reads_plainly_def demo_pydantic_def)
  have "accept_body demo_pydantic (Update_admin_user_body 7)
      (JObj [(''email'', JStr ''cleo@example.com''), (''roles'', JList [JStr ''admin''])]) = Inr ?call"
    by (rule request_bodies_checked [OF r, THEN conjunct2]) (simp_all add: member_def nullable_def)
  moreover have "accept_body demo_pydantic Register_body
     (JObj [(''email'', JStr ''cleo''), (''password'', JStr ''correct horse''), (''admin'', JBool True)])
     = Inl [\<lparr>ve_loc = [Loc_str ''body'', Loc_str ''email''], ve_msg = Some ''value_error'', ve_type = Some ''value_error''\<rparr>,
        \<lparr>ve_loc = [Loc_str ''body'', Loc_str ''admin''], ve_msg = Some ''extra_forbidden'', ve_type = Some ''extra_forbidden''\<rparr>]"
    by code_simp
  ultimately show ?thesis by blast
qed

subsection \<open>The invariant and the outcomes\<close>

definition guard_documented :: "guard \<Rightarrow> int list \<Rightarrow> bool" where
  "guard_documented g ds = ((g \<noteq> Anyone \<longrightarrow> 401 \<in> set ds) \<and> (g = Administrator \<longrightarrow> 403 \<in> set ds))"

lemma yields_guard: "guard_documented g ds \<Longrightarrow> yields (\<lambda>_. True) (answers ds) (run_guard app r g)"
  by (cases g) (auto simp: guard_documented_def intro!: yields_intros)

lemma yields_checked:
  assumes "guard_documented g ds" "422 \<in> set ds" "\<And>call. accepted = Inr call \<Longrightarrow> yields Q (answers ds) (run call)"
  shows "yields Q (answers ds) (checked (run_guard app r g) accepted run)"
  using assms by (cases accepted) (auto simp: checked_def intro!: yields_seq yields_guard yields_basic)

fun body_documented :: "body_endpoint \<Rightarrow> int \<times> int list" where
  "body_documented Register_body = (201, REGISTER_ERROR_RESPONSES)"
| "body_documented Login_body = (200, LOGIN_ERROR_RESPONSES)"
| "body_documented Delete_me_body = (204, DELETE_ACCOUNT_ERROR_RESPONSES)"
| "body_documented Update_me_body = (200, ME_ERROR_RESPONSES)"
| "body_documented Create_admin_user_body = (201, ADMIN_USER_ERROR_RESPONSES)"
| "body_documented (Update_admin_user_body _) = (200, ADMIN_USER_ERROR_RESPONSES)"
| "body_documented (Replace_user_roles_body _) = (200, ADMIN_ERROR_RESPONSES)"
| "body_documented Create_sample_item_body = (201, CREATE_ERROR_RESPONSES)"
| "body_documented (Update_sample_item_body _) = (200, UPDATE_ERROR_RESPONSES)"

lemma schema_documented: "body_schema pd ep d = Inr call \<Longrightarrow> documented call = body_documented ep \<and> \<not> redirecting call"
  by (cases ep) (auto simp: schema_defs map_sum_Inr)

lemma yields_dispatch_body: "yields (has_status (fst (body_documented ep))) (answers (snd (body_documented ep))) (dispatch_body lib pd app r ep body)"
  unfolding dispatch_body_def
proof (rule yields_checked)
  fix call assume "accept_body pd ep body = Inr call"
  then have "documented call = body_documented ep \<and> \<not> redirecting call" by (auto simp: accept_body_Inr dest: schema_documented)
  with yields_dispatch [of call lib app r]
  show "yields (has_status (fst (body_documented ep))) (answers (snd (body_documented ep))) (dispatch lib app r call)"
    by (simp add: success_status_def)
qed (cases ep; simp add: guard_documented_def)+

context auth_app
begin

lemma keeps_guard: "keeps (inv_live {}) (run_guard app r g)"
  by (cases g) (auto intro!: keeps_intros keeps_sessions)

lemma checked_inv:
  assumes "inv_live {} s" "outside s"
  shows "inv_live {} (snd (checked (run_guard app r g) accepted (dispatch lib app r) s))"
  by (cases accepted) (simp_all add: checked_rejected keepsD [OF keeps_guard assms(1)] dispatch_inv [OF assms])

lemma serve_body_inv: "inv_live {} s \<Longrightarrow> outside s \<Longrightarrow> inv_live {} (snd (serve_body lib pd app r ep body s))"
  unfolding serve_body_def Let_def by (rule middleware_inv) (simp_all add: dispatch_body_def checked_inv)

end

end
