(* ===== verification/Request_Parameters.thy ===== *)
theory Request_Parameters
  imports Request_Schemas
begin

text \<open>
  The parameters of requests without a body: the constraints of \<^verbatim>\<open>Query(...)\<close> and the identifiers in paths, as the
  signatures of the endpoints in \<^verbatim>\<open>app/controllers\<close> declare them. A parameter that is given several times counts with its
  last value, unknown parameters are ignored, and all errors are collected.
\<close>

type_synonym query_params = "(string \<times> string) list"

definition param :: "query_params \<Rightarrow> string \<Rightarrow> 'a reader \<Rightarrow> 'a \<Rightarrow> field_errors + 'a" where
  "param q name r fallback = field (map (\<lambda>(k, v). (k, JStr v)) (rev q)) name r (Some fallback)"

definition int_field :: "pydantic \<Rightarrow> int \<Rightarrow> int option \<Rightarrow> nat reader" where
  "int_field pd ge le v =
     sum_bind (read_int pd v) (\<lambda>n.
       if n < ge then Inl [([], ''greater_than_equal'')]
       else if (case le of None \<Rightarrow> False | Some m \<Rightarrow> n > m) then Inl [([], ''less_than_equal'')]
       else Inr (nat n))"

definition some_field :: "'a reader \<Rightarrow> 'a option reader" where
  "some_field r v = map_sum id Some (r v)"

subsection \<open>Signatures\<close>

definition list_admin_users_params :: "pydantic \<Rightarrow> query_params \<Rightarrow> field_errors + api_call" where
  "list_admin_users_params pd q =
     map_sum id (\<lambda>(offset, limit, search, role, is_active). List_admin_users offset limit search role is_active)
       (both (param q ''offset'' (int_field pd 0 None) 0)
       (both (param q ''limit'' (int_field pd 1 (Some 100)) 20)
       (both (param q ''query'' (some_field (str_field pd 0 320)) None)
       (both (param q ''role'' (some_field (str_field pd 0 64)) None)
             (param q ''is_active'' (some_field (read_bool pd)) None)))))"

definition list_sample_items_params :: "pydantic \<Rightarrow> query_params \<Rightarrow> field_errors + api_call" where
  "list_sample_items_params pd q =
     map_sum id (\<lambda>(limit, cursor). List_sample_items limit cursor)
       (both (param q ''limit'' (int_field pd 1 (Some 100)) 20) (param q ''cursor'' (some_field (read_str pd)) None))"

definition start_oidc_login_params :: "pydantic \<Rightarrow> string \<Rightarrow> query_params \<Rightarrow> field_errors + api_call" where
  "start_oidc_login_params pd provider_id q =
     map_sum id (\<lambda>(redirect, language_code). Start_oidc_login provider_id redirect language_code)
       (both (param q ''redirect'' (some_field (read_str pd)) None) (param q ''language_code'' (some_field (read_str pd)) None))"

definition start_oidc_reauth_params :: "pydantic \<Rightarrow> string \<Rightarrow> query_params \<Rightarrow> field_errors + api_call" where
  "start_oidc_reauth_params pd provider_id q = map_sum id (Start_oidc_reauth provider_id) (param q ''redirect'' (some_field (read_str pd)) None)"

text \<open>The fourth parameter, \<open>error_description\<close>, is only logged.\<close>

definition complete_oidc_callback_params :: "pydantic \<Rightarrow> string \<Rightarrow> query_params \<Rightarrow> field_errors + api_call" where
  "complete_oidc_callback_params pd provider_id q =
     map_sum id (\<lambda>(state, code, error, _). Complete_oidc_callback provider_id state code error)
       (both (param q ''state'' (some_field (read_str pd)) None)
       (both (param q ''code'' (some_field (read_str pd)) None)
       (both (param q ''error'' (some_field (read_str pd)) None)
             (param q ''error_description'' (some_field (read_str pd)) None))))"

definition uuid_param :: "pydantic \<Rightarrow> string \<Rightarrow> string \<Rightarrow> field_errors + uuid" where
  "uuid_param pd name given = field [(name, JStr given)] name (read_uuid pd) None"

subsection \<open>Requests with parameters\<close>

datatype param_endpoint =
    List_admin_users_query
  | List_sample_items_query
  | Start_oidc_login_query string
  | Start_oidc_reauth_query string
  | Complete_oidc_callback_query string
  | Get_admin_user_path string
  | Delete_admin_user_path string
  | Get_user_roles_path string
  | Get_sample_item_path string
  | Delete_sample_item_path string

fun accept_params :: "pydantic \<Rightarrow> param_endpoint \<Rightarrow> query_params \<Rightarrow> validation_error list + api_call" where
  "accept_params pd List_admin_users_query q = map_sum (map (located_error pd ''query'')) id (list_admin_users_params pd q)"
| "accept_params pd List_sample_items_query q = map_sum (map (located_error pd ''query'')) id (list_sample_items_params pd q)"
| "accept_params pd (Start_oidc_login_query p) q = map_sum (map (located_error pd ''query'')) id (start_oidc_login_params pd p q)"
| "accept_params pd (Start_oidc_reauth_query p) q = map_sum (map (located_error pd ''query'')) id (start_oidc_reauth_params pd p q)"
| "accept_params pd (Complete_oidc_callback_query p) q = map_sum (map (located_error pd ''query'')) id (complete_oidc_callback_params pd p q)"
| "accept_params pd (Get_admin_user_path t) q = map_sum (map (located_error pd ''path'')) Get_admin_user (uuid_param pd ''user_id'' t)"
| "accept_params pd (Delete_admin_user_path t) q = map_sum (map (located_error pd ''path'')) Delete_admin_user (uuid_param pd ''user_id'' t)"
| "accept_params pd (Get_user_roles_path t) q = map_sum (map (located_error pd ''path'')) Get_user_roles (uuid_param pd ''user_id'' t)"
| "accept_params pd (Get_sample_item_path t) q = map_sum (map (located_error pd ''path'')) Get_sample_item (uuid_param pd ''item_id'' t)"
| "accept_params pd (Delete_sample_item_path t) q = map_sum (map (located_error pd ''path'')) Delete_sample_item (uuid_param pd ''item_id'' t)"

fun param_guard :: "param_endpoint \<Rightarrow> guard" where
  "param_guard List_admin_users_query = Administrator"
| "param_guard (Get_admin_user_path _) = Administrator"
| "param_guard (Delete_admin_user_path _) = Administrator"
| "param_guard (Get_user_roles_path _) = Administrator"
| "param_guard List_sample_items_query = Session"
| "param_guard (Get_sample_item_path _) = Session"
| "param_guard (Delete_sample_item_path _) = Session"
| "param_guard _ = Anyone"

fun param_route :: "param_endpoint \<Rightarrow> string \<times> string" where
  "param_route List_admin_users_query = (''GET'', ''/api/admin/users'')"
| "param_route List_sample_items_query = (''GET'', ''/api/samples'')"
| "param_route (Start_oidc_login_query p) = (''GET'', ''/api/auth/oidc/'' @ p @ ''/start'')"
| "param_route (Start_oidc_reauth_query p) = (''GET'', ''/api/auth/oidc/'' @ p @ ''/reauth'')"
| "param_route (Complete_oidc_callback_query p) = (''GET'', ''/api/auth/oidc/'' @ p @ ''/callback'')"
| "param_route (Get_admin_user_path t) = (''GET'', ''/api/admin/users/'' @ t)"
| "param_route (Delete_admin_user_path t) = (''DELETE'', ''/api/admin/users/'' @ t)"
| "param_route (Get_user_roles_path t) = (''GET'', ''/api/admin/users/'' @ t @ ''/roles'')"
| "param_route (Get_sample_item_path t) = (''GET'', ''/api/samples/'' @ t)"
| "param_route (Delete_sample_item_path t) = (''DELETE'', ''/api/samples/'' @ t)"

definition dispatch_params ::
    "text_lib \<Rightarrow> pydantic \<Rightarrow> ('l, 'c) app \<Rightarrow> request \<Rightarrow> param_endpoint \<Rightarrow> query_params \<Rightarrow> ('l, 'c, response) http" where
  "dispatch_params lib pd app r ep q = checked (run_guard app r (param_guard ep)) (accept_params pd ep q) (dispatch lib app r)"

definition serve_params ::
    "text_lib \<Rightarrow> pydantic \<Rightarrow> ('l, 'c) app \<Rightarrow> request \<Rightarrow> param_endpoint \<Rightarrow> query_params \<Rightarrow> ('l, 'c, response) prog" where
  "serve_params lib pd app r ep q =
     (let r' = r\<lparr>req_method := fst (param_route ep), req_path := req_root_path r @ snd (param_route ep)\<rparr> in
      csrf_middleware app r' (dispatch_params lib pd app r' ep q))"

subsection \<open>What accepted parameters guarantee\<close>

lemma param_Inr:
  "param q n r v = Inr x \<longleftrightarrow> (\<exists>t. map_of (rev q) n = Some t \<and> r (JStr t) = Inr x) \<or> (map_of (rev q) n = None \<and> v = x)"
  by (auto simp: param_def field_Inr map_of_map)

lemma int_field_Inr:
  "int_field pd lo hi v = Inr n \<longleftrightarrow> (\<exists>m. read_int pd v = Inr m \<and> lo \<le> m \<and> (\<forall>h. hi = Some h \<longrightarrow> m \<le> h) \<and> n = nat m)"
  by (cases "read_int pd v"; cases hi) (auto simp: int_field_def sum_bind_def)

lemma some_field_Inr: "some_field r v = Inr x \<longleftrightarrow> (\<exists>y. r v = Inr y \<and> x = Some y)"
  by (auto simp: some_field_def map_sum_Inr)

lemmas params_defs = list_admin_users_params_def list_sample_items_params_def start_oidc_login_params_def start_oidc_reauth_params_def
  complete_oidc_callback_params_def

lemma params_well_formed: "accept_params pd ep q = Inr call \<Longrightarrow> well_formed_call call"
  by (cases ep) (auto simp: params_defs map_sum_Inr both_Inr param_Inr int_field_Inr some_field_Inr dest!: str_field_Inr)

subsection \<open>The parameters of the calls\<close>

text \<open>The parameters that ask for a call, as a client of the interface writes them.\<close>

definition given :: "string \<Rightarrow> string option \<Rightarrow> query_params" where
  "given name v = (case v of None \<Rightarrow> [] | Some t \<Rightarrow> [(name, t)])"

definition bool_text :: "bool \<Rightarrow> string" where
  "bool_text b = (if b then ''true'' else ''false'')"

fun parameters :: "api_call \<Rightarrow> (param_endpoint \<times> query_params) option" where
  "parameters (List_admin_users offset limit search role is_active) =
     Some (List_admin_users_query, (''offset'', show_num 10 (int offset)) # (''limit'', show_num 10 (int limit)) #
       given ''query'' search @ given ''role'' role @ given ''is_active'' (map_option bool_text is_active))"
| "parameters (List_sample_items limit cursor) =
     Some (List_sample_items_query, (''limit'', show_num 10 (int limit)) # given ''cursor'' cursor)"
| "parameters (Start_oidc_login p redirect language_code) =
     Some (Start_oidc_login_query p, given ''redirect'' redirect @ given ''language_code'' language_code)"
| "parameters (Start_oidc_reauth p redirect) = Some (Start_oidc_reauth_query p, given ''redirect'' redirect)"
| "parameters (Complete_oidc_callback p state code error) =
     Some (Complete_oidc_callback_query p, given ''state'' state @ given ''code'' code @ given ''error'' error)"
| "parameters (Get_admin_user i) = Some (Get_admin_user_path (str_uuid i), [])"
| "parameters (Delete_admin_user i) = Some (Delete_admin_user_path (str_uuid i), [])"
| "parameters (Get_user_roles i) = Some (Get_user_roles_path (str_uuid i), [])"
| "parameters (Get_sample_item i) = Some (Get_sample_item_path (str_uuid i), [])"
| "parameters (Delete_sample_item i) = Some (Delete_sample_item_path (str_uuid i), [])"
| "parameters _ = None"

fun call_uuids :: "api_call \<Rightarrow> uuid set" where
  "call_uuids (Get_admin_user i) = {i}"
| "call_uuids (Delete_admin_user i) = {i}"
| "call_uuids (Get_user_roles i) = {i}"
| "call_uuids (Get_sample_item i) = {i}"
| "call_uuids (Delete_sample_item i) = {i}"
| "call_uuids _ = {}"

text \<open>Text is read as it is, numbers in decimal, truth values by their names and identifiers in the usual form.\<close>

definition reads_text :: "pydantic \<Rightarrow> uuid set \<Rightarrow> bool" where
  "reads_text pd ids =
     ((\<forall>s. read_str pd (JStr s) = Inr s) \<and> (\<forall>n. read_int pd (JStr (show_num 10 (int n))) = Inr (int n)) \<and>
      (\<forall>b. read_bool pd (JStr (bool_text b)) = Inr b) \<and> (\<forall>i\<in>ids. read_uuid pd (JStr (str_uuid i)) = Inr i))"

lemma map_of_given:
  "map_of (rev (given n v)) k = (if k = n then v else None)" "map_of (given n v) k = (if k = n then v else None)"
  by (simp_all add: given_def split: option.split)

lemma param_option:
  assumes "map_of (rev q) n = map_option g v" "\<And>x. v = Some x \<Longrightarrow> r (JStr (g x)) = Inr x"
  shows "param q n (some_field r) None = Inr v"
  using assms by (cases v) (auto simp: param_Inr some_field_Inr)

lemma param_number:
  assumes "map_of (rev q) n = Some (show_num 10 (int m))" "read_int pd (JStr (show_num 10 (int m))) = Inr (int m)"
    and "lo \<le> int m" "\<And>h. hi = Some h \<Longrightarrow> int m \<le> h"
  shows "param q n (int_field pd lo hi) d = Inr m"
  using assms by (auto simp: param_Inr int_field_Inr)

lemma list_users_accepted:
  assumes r: "\<And>s. read_str pd (JStr s) = Inr s" "\<And>n. read_int pd (JStr (show_num 10 (int n))) = Inr (int n)"
    "\<And>b. read_bool pd (JStr (bool_text b)) = Inr b"
    and w: "well_formed_call (List_admin_users offset limit search role a)"
    and q: "parameters (List_admin_users offset limit search role a) = Some (ep, q)"
  shows "accept_params pd ep q = Inr (List_admin_users offset limit search role a)"
proof -
  have m: "map_of (rev q) ''offset'' = Some (show_num 10 (int offset))" "map_of (rev q) ''limit'' = Some (show_num 10 (int limit))"
    "map_of (rev q) ''query'' = map_option id search" "map_of (rev q) ''role'' = map_option id role"
    "map_of (rev q) ''is_active'' = map_option bool_text a"
    using q by (auto simp: map_of_given map_add_def option.map_id split: option.split)
  have "param q ''offset'' (int_field pd 0 None) 0 = Inr offset" using r(2) by (intro param_number [OF m(1)]) auto
  moreover have "param q ''limit'' (int_field pd 1 (Some 100)) 20 = Inr limit" using r(2) w by (intro param_number [OF m(2)]) auto
  moreover have "param q ''query'' (some_field (str_field pd 0 320)) None = Inr search"
    using r(1) w by (intro param_option [OF m(3)]) (auto simp: str_field_ok)
  moreover have "param q ''role'' (some_field (str_field pd 0 64)) None = Inr role"
    using r(1) w by (intro param_option [OF m(4)]) (auto simp: str_field_ok)
  moreover have "param q ''is_active'' (some_field (read_bool pd)) None = Inr a" using r(3) by (intro param_option [OF m(5)]) auto
  ultimately show ?thesis using q by (simp add: list_admin_users_params_def)
qed

lemma parameters_accepted:
  assumes "reads_text pd (call_uuids call)" "well_formed_call call" "parameters call = Some (ep, q)"
  shows "accept_params pd ep q = Inr call"
proof -
  have r: "\<And>s. read_str pd (JStr s) = Inr s" "\<And>n. read_int pd (JStr (show_num 10 (int n))) = Inr (int n)"
    "\<And>b. read_bool pd (JStr (bool_text b)) = Inr b" "\<And>i. i \<in> call_uuids call \<Longrightarrow> read_uuid pd (JStr (str_uuid i)) = Inr i"
    using assms(1) by (simp_all add: reads_text_def)
  have opt: "param q n (some_field (read_str pd)) None = Inr v" if "map_of (rev q) n = v" for n v
    using r(1) that by (intro param_option [where g = id]) (simp_all add: option.map_id)
  show ?thesis
  proof (cases call)
    case (List_admin_users offset limit search role a)
    then show ?thesis using list_users_accepted [OF r(1-3)] assms(2,3) by blast
  next
    case (List_sample_items limit cursor)
    have "param q ''limit'' (int_field pd 1 (Some 100)) 20 = Inr limit"
      using assms(2,3) r(2) List_sample_items by (intro param_number) (auto simp: map_of_given map_add_def)
    moreover have "param q ''cursor'' (some_field (read_str pd)) None = Inr cursor"
      using assms(3) List_sample_items by (intro opt) (auto simp: map_of_given map_add_def split: option.split)
    ultimately show ?thesis using assms(3) List_sample_items by (auto simp: list_sample_items_params_def)
  next
    case (Start_oidc_login p redirect lang)
    have "param q ''redirect'' (some_field (read_str pd)) None = Inr redirect" "param q ''language_code'' (some_field (read_str pd)) None = Inr lang"
      using assms(3) Start_oidc_login by (auto intro!: opt simp: map_of_given map_add_def split: option.split)
    then show ?thesis using assms(3) Start_oidc_login by (auto simp: start_oidc_login_params_def)
  next
    case (Start_oidc_reauth p redirect)
    have "param q ''redirect'' (some_field (read_str pd)) None = Inr redirect"
      using assms(3) Start_oidc_reauth by (auto intro!: opt simp: map_of_given)
    then show ?thesis using assms(3) Start_oidc_reauth by (auto simp: start_oidc_reauth_params_def)
  next
    case (Complete_oidc_callback p state code error)
    have "param q ''state'' (some_field (read_str pd)) None = Inr state" "param q ''code'' (some_field (read_str pd)) None = Inr code"
      "param q ''error'' (some_field (read_str pd)) None = Inr error" "param q ''error_description'' (some_field (read_str pd)) None = Inr None"
      using assms(3) Complete_oidc_callback by (auto intro!: opt simp: map_of_given map_add_def split: option.split)
    then show ?thesis using assms(3) Complete_oidc_callback by (auto simp: complete_oidc_callback_params_def)
  qed (use assms(3) r(4) in \<open>auto simp: uuid_param_def field_def\<close>)
qed

text \<open>
  C14: Parameters in the address of a request are checked like its body. What is accepted becomes a call within the
  bounds of the interface (pages of one to a hundred rows, searches of at most 320 and roles of at most 64
  characters), and runs as that call. What is refused does nothing beyond the
  authentication of the caller, whose failure takes precedence over the list of errors. And every such call can
  be made: the parameters that ask for it are accepted and read back as that very call.
\<close>

theorem request_parameters_checked:
  assumes "reads_text pd (call_uuids call)" "well_formed_call call" "parameters call = Some (ep', q')"
  shows "(case accept_params pd ep q of
       Inr c \<Rightarrow> well_formed_call c \<and> dispatch_params lib pd app r ep q = dispatch lib app r c
     | Inl errors \<Rightarrow> dispatch_params lib pd app r ep q s =
         (case fst (run_guard app r (param_guard ep) s) of Inl e \<Rightarrow> Inl e | Inr _ \<Rightarrow> Inl (RequestValidationError errors),
          snd (run_guard app r (param_guard ep) s)))
    \<and> accept_params pd ep' q' = Inr call"
  using parameters_accepted [OF assms] params_well_formed [of pd ep q]
  by (cases "accept_params pd ep q") (simp_all add: dispatch_params_def checked_rejected)

lemma decimal_digit: "0 \<le> d \<Longrightarrow> d < 10 \<Longrightarrow> ascii_digit (digit_char d) \<and> of_char (digit_char d) - 48 = d" for d :: int
proof -
  assume "0 \<le> d" "d < 10"
  moreover have "\<forall>d \<in> set [0..9]. ascii_digit (digit_char d) \<and> of_char (digit_char d) - 48 = d" by code_simp
  ultimately show ?thesis by simp
qed

lemma read_decimal_show:
  assumes "0 \<le> n"
  shows "show_num 10 n \<noteq> [] \<and> list_all ascii_digit (show_num 10 n) \<and> fold (\<lambda>c n. 10 * n + (of_char c - 48)) (show_num 10 n) 0 = n"
  using assms
proof (induction "10 :: int" n rule: show_num.induct)
  case (1 n)
  show ?case
  proof (cases "n < 10")
    case True
    then show ?thesis using 1 decimal_digit [of n] by (simp add: show_num.simps [of 10 n])
  next
    case False
    then show ?thesis using 1 decimal_digit [of "n mod 10"] by (simp add: show_num.simps [of 10 n])
  qed
qed

lemma demo_reads_text: "ids \<subseteq> {i. i < 2 ^ 128} \<Longrightarrow> reads_text demo_pydantic ids"
  by (auto simp: reads_text_def demo_pydantic_def read_decimal_def read_decimal_show bool_text_def uuid_roundtrip)

lemma request_parameters_checked_witness:
  "accept_params demo_pydantic List_sample_items_query [(''limit'', ''0''), (''limit'', ''101'')]
     = Inl [\<lparr>ve_loc = [Loc_str ''query'', Loc_str ''limit''], ve_msg = Some ''less_than_equal'', ve_type = Some ''less_than_equal''\<rparr>]
   \<and> accept_params demo_pydantic List_admin_users_query [(''offset'', ''40''), (''limit'', ''20''), (''is_active'', ''true'')]
     = Inr (List_admin_users 40 20 None None (Some True))"
proof -
  let ?call = "List_admin_users 40 20 None None (Some True)"
  have r: "reads_text demo_pydantic (call_uuids ?call)" by (rule demo_reads_text) simp
  have p: "parameters ?call = Some (List_admin_users_query, [(''offset'', ''40''), (''limit'', ''20''), (''is_active'', ''true'')])"
    by code_simp
  have "accept_params demo_pydantic List_admin_users_query [(''offset'', ''40''), (''limit'', ''20''), (''is_active'', ''true'')] = Inr ?call"
    by (rule request_parameters_checked [OF r _ p, THEN conjunct2]) simp
  moreover have "accept_params demo_pydantic List_sample_items_query [(''limit'', ''0''), (''limit'', ''101'')]
     = Inl [\<lparr>ve_loc = [Loc_str ''query'', Loc_str ''limit''], ve_msg = Some ''less_than_equal'', ve_type = Some ''less_than_equal''\<rparr>]" by code_simp
  ultimately show ?thesis by blast
qed

subsection \<open>The invariant and the outcomes\<close>

fun param_documented :: "param_endpoint \<Rightarrow> int \<times> int list" where
  "param_documented List_admin_users_query = (200, ADMIN_USER_ERROR_RESPONSES)"
| "param_documented List_sample_items_query = (200, LIST_ERROR_RESPONSES)"
| "param_documented (Start_oidc_login_query _) = (303, OIDC_REDIRECT_ERROR_RESPONSES)"
| "param_documented (Start_oidc_reauth_query _) = (303, OIDC_REDIRECT_ERROR_RESPONSES)"
| "param_documented (Complete_oidc_callback_query _) = (303, OIDC_REDIRECT_ERROR_RESPONSES)"
| "param_documented (Get_admin_user_path _) = (200, ADMIN_USER_ERROR_RESPONSES)"
| "param_documented (Delete_admin_user_path _) = (204, ADMIN_USER_ERROR_RESPONSES)"
| "param_documented (Get_user_roles_path _) = (200, ADMIN_ERROR_RESPONSES)"
| "param_documented (Get_sample_item_path _) = (200, GET_ITEM_ERROR_RESPONSES)"
| "param_documented (Delete_sample_item_path _) = (204, DELETE_ERROR_RESPONSES)"

lemma params_documented: "accept_params pd ep q = Inr call \<Longrightarrow> (success_status call, snd (documented call)) = param_documented ep"
  by (cases ep) (auto simp: params_defs map_sum_Inr success_status_def)

lemma yields_dispatch_params:
  "yields (has_status (fst (param_documented ep))) (answers (snd (param_documented ep))) (dispatch_params lib pd app r ep q)"
  unfolding dispatch_params_def
proof (rule yields_checked)
  fix call assume "accept_params pd ep q = Inr call"
  from params_documented [OF this] yields_dispatch [of call lib app r]
  show "yields (has_status (fst (param_documented ep))) (answers (snd (param_documented ep))) (dispatch lib app r call)"
    by (metis fst_conv snd_conv)
qed (cases ep; simp add: guard_documented_def)+

context auth_app
begin

lemma serve_params_inv: "inv_live {} s \<Longrightarrow> outside s \<Longrightarrow> inv_live {} (snd (serve_params lib pd app r ep q s))"
  unfolding serve_params_def Let_def by (rule middleware_inv) (simp_all add: dispatch_params_def checked_inv)

end

end
