(* ===== verification/Openapi_Document.thy ===== *)
theory Openapi_Document
  imports Data_Model "HOL-Library.AList"
begin

text \<open>
  The routes of the application and the document that describes them (\<^verbatim>\<open>app/bootstrap/route.py\<close>,
  \<^verbatim>\<open>app/models/error.py\<close>). A dictionary is an association list whose keys are distinct: \<^const>\<open>AList.update\<close> keeps
  the place of a key that is there, as the assignment to a dictionary does.

  What FastAPI makes of the routes (\<open>get_openapi\<close>) and pydantic of the class \<^verbatim>\<open>ProblemDetails\<close>
  (\<open>model_json_schema\<close>) are arguments.
\<close>

type_synonym dict = "(string \<times> json) list"

subsection \<open>The routes\<close>

datatype router = Admin_user_router | Authorization_router | Auth_router | Healthz_router | Sample_router

datatype route_entry = Included string router | Static_mount string

definition API_PREFIX :: string where
  "API_PREFIX = ''/api''"

definition setup_api_routes :: "route_entry list \<Rightarrow> route_entry list" where
  "setup_api_routes routes =
     routes @ map (Included API_PREFIX) [Admin_user_router, Authorization_router, Auth_router, Healthz_router, Sample_router]"

definition setup_routes :: "bool \<Rightarrow> route_entry list \<Rightarrow> route_entry list" where
  "setup_routes index_exists routes =
     (let routes = setup_api_routes (routes @ [Included [] Healthz_router])
      in if \<not> index_exists then routes else routes @ [Static_mount ''/''])"

text \<open>The files are asked last, so they hide no router; without a page there is no mount.\<close>

lemma static_mount_last:
  "filter (\<lambda>r. r = Static_mount p) (setup_routes index_exists []) = (if index_exists \<and> p = ''/'' then [Static_mount p] else [])"
  "index_exists \<Longrightarrow> last (setup_routes index_exists []) = Static_mount ''/''"
  by (auto simp: setup_routes_def setup_api_routes_def Let_def)

subsection \<open>The document\<close>

definition PROBLEM_DETAILS_SCHEMA_REF :: json where
  "PROBLEM_DETAILS_SCHEMA_REF = JObj [(''$ref'', JStr ''#/components/schemas/ProblemDetails'')]"

definition problem_response_openapi :: "string \<Rightarrow> json" where
  "problem_response_openapi description =
     JObj [(''description'', JStr description),
           (''content'', JObj [(''application/problem+json'', JObj [(''schema'', PROBLEM_DETAILS_SCHEMA_REF)])])]"

record openapi_app =
  app_routes :: "route_entry list"
  openapi_schema :: "dict option"

text \<open>Python's \<open>setdefault\<close>, \<open>pop\<close> and \<open>update\<close> of dictionaries; \<open>None\<close> is the error of a value that is no dictionary.\<close>

fun as_dict :: "json \<Rightarrow> dict option" where
  "as_dict (JObj d) = Some d"
| "as_dict _ = None"

definition setdefault_dict :: "dict \<Rightarrow> string \<Rightarrow> dict option" where
  "setdefault_dict d k = (case map_of d k of None \<Rightarrow> Some [] | Some v \<Rightarrow> as_dict v)"

definition dict_update :: "dict \<Rightarrow> dict \<Rightarrow> dict" where
  "dict_update d changes = fold (\<lambda>(k, v). AList.update k v) changes d"

definition problem_details_schemas :: "dict \<Rightarrow> dict option" where
  "problem_details_schemas problem_details_schema =
     (case setdefault_dict problem_details_schema ''$defs'' of
        None \<Rightarrow> None
      | Some definitions \<Rightarrow>
          Some (dict_update [(''ProblemDetails'', JObj (AList.delete ''$defs'' problem_details_schema))] definitions))"

definition custom_openapi :: "(route_entry list \<Rightarrow> dict) \<Rightarrow> dict \<Rightarrow> openapi_app \<Rightarrow> dict option \<times> openapi_app" where
  "custom_openapi get_openapi problem_details_schema app =
     (case openapi_schema app of
        Some (e # es) \<Rightarrow> (Some (e # es), app)
      | _ \<Rightarrow>
          (let schema = get_openapi (app_routes app)
           in case setdefault_dict schema ''components'' of
                None \<Rightarrow> (None, app)
              | Some components \<Rightarrow>
                  (case (setdefault_dict components ''schemas'', problem_details_schemas problem_details_schema) of
                     (Some schemas, Some added) \<Rightarrow>
                       (let document = AList.update ''components''
                              (JObj (AList.update ''schemas'' (JObj (dict_update schemas added)) components)) schema
                        in (Some document, app\<lparr>openapi_schema := Some document\<rparr>))
                   | _ \<Rightarrow> (None, app))))"

subsection \<open>References resolve\<close>

text \<open>A reference \<^verbatim>\<open>#/components/schemas/X\<close> is followed from the root of the document, key by key.\<close>

fun follow :: "string list \<Rightarrow> json \<Rightarrow> json option" where
  "follow [] v = Some v"
| "follow (k # ks) (JObj d) = Option.bind (map_of d k) (follow ks)"
| "follow _ _ = None"

definition schema_ref :: "dict \<Rightarrow> string \<Rightarrow> json option" where
  "schema_ref document model = follow [''components'', ''schemas'', model] (JObj document)"

lemma map_of_dict_update:
  "map_of (dict_update d changes) k = (case map_of (rev changes) k of None \<Rightarrow> map_of d k | Some v \<Rightarrow> Some v)"
  by (induction changes arbitrary: d)
    (auto simp: dict_update_def update_conv' map_add_def split: option.splits)

lemma map_of_rev_distinct: "distinct (map fst d) \<Longrightarrow> map_of (rev d) = map_of d"
  by (metis distinct_rev map_of_inject_set rev_map set_rev)

lemma problem_details_schemas_lookup:
  assumes "setdefault_dict pd ''$defs'' = Some defs" "distinct (map fst defs)" "''ProblemDetails'' \<notin> fst ` set defs"
  shows "\<exists>added. problem_details_schemas pd = Some added \<and> distinct (map fst added) \<and>
    map_of added = (map_of defs)(''ProblemDetails'' \<mapsto> JObj (AList.delete ''$defs'' pd))"
proof -
  let ?added = "dict_update [(''ProblemDetails'', JObj (AList.delete ''$defs'' pd))] defs"
  have "distinct (map fst (dict_update d defs))" if "distinct (map fst d)" for d
    using that by (induction defs arbitrary: d) (auto simp: dict_update_def distinct_update)
  moreover have "map_of ?added = (map_of defs)(''ProblemDetails'' \<mapsto> JObj (AList.delete ''$defs'' pd))"
  proof -
    have "map_of defs ''ProblemDetails'' = None" using assms(3) by (simp add: map_of_eq_None_iff)
    then show ?thesis
      by (auto simp: fun_eq_iff map_of_dict_update map_of_rev_distinct [OF assms(2)] split: option.splits)
  qed
  ultimately show ?thesis using assms(1) by (simp add: problem_details_schemas_def)
qed

text \<open>
  The document that is served contains what the responses refer to: the reference of every problem response, and the
  references of that schema to its own parts. Nothing else of the generated document changes, and later calls
  return the same document without generating it again.
\<close>

theorem openapi_references_resolve:
  assumes "setdefault_dict (generate (app_routes app)) ''components'' = Some components"
    and "setdefault_dict components ''schemas'' = Some schemas"
    and "setdefault_dict pd ''$defs'' = Some defs" "distinct (map fst defs)" "''ProblemDetails'' \<notin> fst ` set defs"
    and "openapi_schema app = None"
  shows "\<exists>document app'. custom_openapi generate pd app = (Some document, app') \<and>
    schema_ref document ''ProblemDetails'' = Some (JObj (AList.delete ''$defs'' pd)) \<and>
    (\<forall>(model, s) \<in> set defs. schema_ref document model = Some s) \<and>
    (\<forall>model. model \<noteq> ''ProblemDetails'' \<and> model \<notin> fst ` set defs \<longrightarrow> schema_ref document model = map_of schemas model) \<and>
    (\<forall>k. k \<noteq> ''components'' \<longrightarrow> map_of document k = map_of (generate (app_routes app)) k) \<and>
    (\<forall>generate'. custom_openapi generate' pd app' = (Some document, app'))"
proof -
  obtain added where added: "problem_details_schemas pd = Some added" "distinct (map fst added)"
    "map_of added = (map_of defs)(''ProblemDetails'' \<mapsto> JObj (AList.delete ''$defs'' pd))"
    using problem_details_schemas_lookup [OF assms(3-5)] by blast
  define document where "document = AList.update ''components''
    (JObj (AList.update ''schemas'' (JObj (dict_update schemas added)) components)) (generate (app_routes app))"
  have ref: "schema_ref document model = (case map_of added model of None \<Rightarrow> map_of schemas model | Some v \<Rightarrow> Some v)" for model
    by (auto simp: schema_ref_def document_def update_conv' map_of_dict_update map_of_rev_distinct [OF added(2)]
        split: option.splits Option.bind_splits)
  have call: "custom_openapi generate pd app = (Some document, app\<lparr>openapi_schema := Some document\<rparr>)"
    using assms(1,2,6) added(1) by (simp add: custom_openapi_def document_def Let_def)
  have again: "custom_openapi generate' pd (app\<lparr>openapi_schema := Some document\<rparr>) =
      (Some document, app\<lparr>openapi_schema := Some document\<rparr>)" for generate'
  proof -
    have "document \<noteq> []" using ref [of "''ProblemDetails''"] added(3) by (auto simp: schema_ref_def)
    then show ?thesis by (simp add: custom_openapi_def split: list.split)
  qed
  have "map_of document k = map_of (generate (app_routes app)) k" if "k \<noteq> ''components''" for k
    using that by (simp add: document_def update_conv')
  moreover have "schema_ref document model = Some s" if "(model, s) \<in> set defs" for model s
    using that assms(4,5) added(3) by (force simp: ref map_of_is_SomeI)
  moreover have "schema_ref document model = map_of schemas model" if "model \<noteq> ''ProblemDetails''" "model \<notin> fst ` set defs" for model
    using that added(3) map_of_eq_None_iff [of defs model] by (simp add: ref)
  ultimately show ?thesis using call again added(3) by (auto simp: ref)
qed

text \<open>An application without components, and the problem schema with the schema of its errors.\<close>

definition demo_document :: "route_entry list \<Rightarrow> dict" where
  "demo_document routes = [(''openapi'', JStr ''3.1.0''), (''paths'', JObj [])]"

definition demo_problem_schema :: dict where
  "demo_problem_schema = [(''type'', JStr ''object''), (''$defs'', JObj [(''ProblemError'', JObj [])])]"

lemma openapi_references_resolve_witness:
  "\<exists>document app'. custom_openapi demo_document demo_problem_schema \<lparr>app_routes = setup_routes True [], openapi_schema = None\<rparr> =
     (Some document, app') \<and>
   schema_ref document ''ProblemDetails'' = Some (JObj [(''type'', JStr ''object'')]) \<and>
   schema_ref document ''ProblemError'' = Some (JObj []) \<and> map_of document ''paths'' = Some (JObj [])"
proof -
  have a: "setdefault_dict (demo_document (app_routes \<lparr>app_routes = setup_routes True [], openapi_schema = None\<rparr>)) ''components'' = Some []"
    by (simp add: setdefault_dict_def demo_document_def)
  have b: "setdefault_dict [] ''schemas'' = Some []" by (simp add: setdefault_dict_def)
  have c: "setdefault_dict demo_problem_schema ''$defs'' = Some [(''ProblemError'', JObj [])]"
    by (simp add: setdefault_dict_def demo_problem_schema_def)
  have "AList.delete ''$defs'' demo_problem_schema = [(''type'', JStr ''object'')]" by code_simp
  moreover have "map_of (demo_document routes) ''paths'' = Some (JObj [])" for routes by (simp add: demo_document_def)
  ultimately show ?thesis using openapi_references_resolve [where generate = demo_document, OF a b c] by fastforce
qed

end
