(* ===== verification/Schema_Migration.thy ===== *)
theory Schema_Migration
  imports Oidc_Usecase
begin

text \<open>
  The migration that creates the schema (\<^verbatim>\<open>alembic/versions/20260810_0001_initial_schema.py\<close>): the operations
  of \<open>upgrade\<close> and \<open>downgrade\<close> as data, what PostgreSQL makes of them, and what a schema demands of
  the rows in its tables. Comments of columns have no effect and are left out.

  The constraints that the development works with, \<open>db_ok\<close>, were written by hand for its own records. Here they are
  shown to be what the migration says.
\<close>

subsection \<open>Data definition\<close>

datatype column_type = Uuid_t | Text_t | Boolean_t | Big_integer_t | Timestamptz_t | Inet_t | Jsonb_t

record column =
  co_name :: string
  co_type :: column_type
  co_nullable :: bool
  co_server_default :: "string option"

definition required_column :: "string \<Rightarrow> column_type \<Rightarrow> column" where
  "required_column n t = \<lparr>co_name = n, co_type = t, co_nullable = False, co_server_default = None\<rparr>"

definition nullable_column :: "string \<Rightarrow> column_type \<Rightarrow> column" where
  "nullable_column n t = \<lparr>co_name = n, co_type = t, co_nullable = True, co_server_default = None\<rparr>"

definition column_with :: "string \<Rightarrow> column_type \<Rightarrow> string \<Rightarrow> column" where
  "column_with n t default_text = \<lparr>co_name = n, co_type = t, co_nullable = False, co_server_default = Some default_text\<rparr>"

text \<open>The expressions of check constraints and of partial indexes, and the keys of an index.\<close>

datatype sql_expr = Is_null string | In_list string "string list" | Or_else sql_expr sql_expr

datatype index_key = Column_key string | Lower_key string

datatype on_delete = Cascade | Set_null

record foreign_key =
  fk_name :: string
  fk_column :: string
  fk_table :: string
  fk_target :: string
  fk_on_delete :: on_delete

definition references :: "string \<Rightarrow> string \<Rightarrow> string \<Rightarrow> string \<Rightarrow> on_delete \<Rightarrow> foreign_key" where
  "references n c t tc a = \<lparr>fk_name = n, fk_column = c, fk_table = t, fk_target = tc, fk_on_delete = a\<rparr>"

record table_def =
  td_name :: string
  td_columns :: "column list"
  td_checks :: "(string \<times> sql_expr) list"
  td_foreign_keys :: "foreign_key list"
  td_primary_key :: "string \<times> string"

record index_def =
  ix_name :: string
  ix_table :: string
  ix_keys :: "index_key list"
  ix_unique :: bool
  ix_where :: "sql_expr option"

definition unique_index :: "string \<Rightarrow> string \<Rightarrow> index_key list \<Rightarrow> sql_expr option \<Rightarrow> index_def" where
  "unique_index n t ks w = \<lparr>ix_name = n, ix_table = t, ix_keys = ks, ix_unique = True, ix_where = w\<rparr>"

definition plain_index :: "string \<Rightarrow> string \<Rightarrow> index_key list \<Rightarrow> index_def" where
  "plain_index n t ks = \<lparr>ix_name = n, ix_table = t, ix_keys = ks, ix_unique = False, ix_where = None\<rparr>"

datatype ddl = Create_table table_def | Create_index index_def | Drop_index string | Drop_table string

subsection \<open>The operations of the migration\<close>

definition users_table :: table_def where
  "users_table = \<lparr>td_name = ''users'', td_columns = [
     required_column ''id'' Uuid_t, required_column ''email'' Text_t, nullable_column ''password_hash'' Text_t,
     column_with ''is_active'' Boolean_t ''true'', column_with ''language_code'' Text_t ''ja'',
     required_column ''registered_at'' Big_integer_t, required_column ''modified_at'' Big_integer_t,
     required_column ''created_at'' Timestamptz_t, required_column ''updated_at'' Timestamptz_t,
     nullable_column ''last_logged_in_at'' Big_integer_t, nullable_column ''deleted_at'' Big_integer_t],
     td_checks = [(''ck_users_language_code_supported'', In_list ''language_code'' [''en'', ''ja''])],
     td_foreign_keys = [],
     td_primary_key = (''pk_users'', ''id'')\<rparr>"

definition create_users :: "ddl list" where
  "create_users = [Create_table users_table,
     Create_index (unique_index ''uq_users_email_lower_active'' ''users'' [Lower_key ''email''] (Some (Is_null ''deleted_at''))),
     Create_index (plain_index ''ix_users_registered_at_id'' ''users'' [Column_key ''registered_at'', Column_key ''id''])]"

definition auth_sessions_table :: table_def where
  "auth_sessions_table = \<lparr>td_name = ''auth_sessions'', td_columns = [
     required_column ''id'' Uuid_t, required_column ''user_id'' Uuid_t,
     required_column ''session_token_hash'' Text_t, required_column ''csrf_token_hash'' Text_t,
     required_column ''created_at'' Timestamptz_t, required_column ''issued_at'' Big_integer_t,
     required_column ''updated_at'' Timestamptz_t, required_column ''last_seen_at'' Big_integer_t,
     required_column ''expires_at'' Big_integer_t, nullable_column ''revoked_at'' Big_integer_t,
     nullable_column ''last_oidc_authenticated_at'' Big_integer_t, nullable_column ''ip_address'' Inet_t,
     nullable_column ''user_agent'' Text_t],
     td_checks = [],
     td_foreign_keys = [references ''fk_auth_sessions_user_id_users'' ''user_id'' ''users'' ''id'' Cascade],
     td_primary_key = (''pk_auth_sessions'', ''id'')\<rparr>"

definition create_auth_sessions :: "ddl list" where
  "create_auth_sessions = [Create_table auth_sessions_table,
     Create_index (plain_index ''ix_auth_sessions_user_id'' ''auth_sessions'' [Column_key ''user_id'']),
     Create_index (unique_index ''uq_auth_sessions_session_token_hash'' ''auth_sessions'' [Column_key ''session_token_hash''] None),
     Create_index (plain_index ''ix_auth_sessions_expires_at'' ''auth_sessions'' [Column_key ''expires_at''])]"

definition auth_audit_logs_table :: table_def where
  "auth_audit_logs_table = \<lparr>td_name = ''auth_audit_logs'', td_columns = [
     required_column ''id'' Uuid_t, nullable_column ''user_id'' Uuid_t, nullable_column ''session_id'' Uuid_t,
     required_column ''event_type'' Text_t, nullable_column ''ip_address'' Inet_t,
     nullable_column ''user_agent'' Text_t, nullable_column ''detail_json'' Jsonb_t,
     required_column ''occurred_at'' Big_integer_t, required_column ''created_at'' Timestamptz_t,
     required_column ''updated_at'' Timestamptz_t],
     td_checks = [],
     td_foreign_keys = [references ''fk_auth_audit_logs_session_id_auth_sessions'' ''session_id'' ''auth_sessions'' ''id'' Set_null,
       references ''fk_auth_audit_logs_user_id_users'' ''user_id'' ''users'' ''id'' Set_null],
     td_primary_key = (''pk_auth_audit_logs'', ''id'')\<rparr>"

definition create_auth_audit_logs :: "ddl list" where
  "create_auth_audit_logs = [Create_table auth_audit_logs_table,
     Create_index (plain_index ''ix_auth_audit_logs_user_id'' ''auth_audit_logs'' [Column_key ''user_id'']),
     Create_index (plain_index ''ix_auth_audit_logs_session_id'' ''auth_audit_logs'' [Column_key ''session_id'']),
     Create_index (plain_index ''ix_auth_audit_logs_event_type'' ''auth_audit_logs'' [Column_key ''event_type'']),
     Create_index (plain_index ''ix_auth_audit_logs_occurred_at'' ''auth_audit_logs'' [Column_key ''occurred_at''])]"

definition sample_items_table :: table_def where
  "sample_items_table = \<lparr>td_name = ''sample_items'', td_columns = [
     required_column ''id'' Uuid_t, required_column ''owner_user_id'' Uuid_t, required_column ''title'' Text_t,
     nullable_column ''description'' Text_t, column_with ''is_completed'' Boolean_t ''false'',
     required_column ''registered_at'' Big_integer_t, required_column ''modified_at'' Big_integer_t,
     required_column ''created_at'' Timestamptz_t, required_column ''updated_at'' Timestamptz_t],
     td_checks = [],
     td_foreign_keys = [references ''fk_sample_items_owner_user_id_users'' ''owner_user_id'' ''users'' ''id'' Cascade],
     td_primary_key = (''pk_sample_items'', ''id'')\<rparr>"

definition create_sample_items :: "ddl list" where
  "create_sample_items = [Create_table sample_items_table,
     Create_index (plain_index ''ix_sample_items_owner_user_id'' ''sample_items'' [Column_key ''owner_user_id'']),
     Create_index (plain_index ''ix_sample_items_owner_user_id_registered_at_id'' ''sample_items'' [Column_key ''owner_user_id'', Column_key ''registered_at'', Column_key ''id''])]"

definition auth_identities_table :: table_def where
  "auth_identities_table = \<lparr>td_name = ''auth_identities'', td_columns = [
     required_column ''id'' Uuid_t, required_column ''user_id'' Uuid_t, required_column ''provider_id'' Text_t,
     required_column ''provider_subject'' Text_t, nullable_column ''email'' Text_t,
     column_with ''is_email_verified'' Boolean_t ''false'', required_column ''claims_json'' Jsonb_t,
     required_column ''linked_at'' Big_integer_t, required_column ''created_at'' Timestamptz_t,
     required_column ''updated_at'' Timestamptz_t, nullable_column ''last_logged_in_at'' Big_integer_t],
     td_checks = [],
     td_foreign_keys = [references ''fk_auth_identities_user_id_users'' ''user_id'' ''users'' ''id'' Cascade],
     td_primary_key = (''pk_auth_identities'', ''id'')\<rparr>"

definition create_auth_identities :: "ddl list" where
  "create_auth_identities = [Create_table auth_identities_table,
     Create_index (unique_index ''uq_auth_identities_provider_subject'' ''auth_identities'' [Column_key ''provider_id'', Column_key ''provider_subject''] None),
     Create_index (plain_index ''ix_auth_identities_user_id'' ''auth_identities'' [Column_key ''user_id''])]"

definition oidc_states_table :: table_def where
  "oidc_states_table = \<lparr>td_name = ''auth_oidc_authorization_states'', td_columns = [
     required_column ''id'' Uuid_t, required_column ''state_hash'' Text_t,
     required_column ''browser_binding_hash'' Text_t, required_column ''nonce_hash'' Text_t,
     required_column ''pkce_verifier'' Text_t, required_column ''provider_id'' Text_t,
     required_column ''purpose'' Text_t, nullable_column ''expected_user_id'' Uuid_t,
     nullable_column ''expected_session_id'' Uuid_t, required_column ''redirect_path'' Text_t,
     nullable_column ''login_hint'' Text_t, nullable_column ''language_code'' Text_t,
     required_column ''expires_at'' Big_integer_t, nullable_column ''consumed_at'' Big_integer_t,
     required_column ''created_at'' Timestamptz_t, required_column ''updated_at'' Timestamptz_t],
     td_checks = [
       (''ck_auth_oidc_authorization_states_language_code_supported'', Or_else (Is_null ''language_code'') (In_list ''language_code'' [''en'', ''ja'']))],
     td_foreign_keys = [],
     td_primary_key = (''pk_auth_oidc_authorization_states'', ''id'')\<rparr>"

definition create_oidc_states :: "ddl list" where
  "create_oidc_states = [Create_table oidc_states_table,
     Create_index (unique_index ''uq_auth_oidc_states_state_hash'' ''auth_oidc_authorization_states'' [Column_key ''state_hash''] None),
     Create_index (plain_index ''ix_auth_oidc_states_expires_at'' ''auth_oidc_authorization_states'' [Column_key ''expires_at'']),
     Create_index (plain_index ''ix_auth_oidc_states_consumed_at'' ''auth_oidc_authorization_states'' [Column_key ''consumed_at''])]"

definition user_roles_table :: table_def where
  "user_roles_table = \<lparr>td_name = ''user_roles'', td_columns = [
     required_column ''id'' Uuid_t, required_column ''user_id'' Uuid_t, required_column ''role_code'' Text_t,
     required_column ''assigned_at'' Big_integer_t, nullable_column ''assigned_by_user_id'' Uuid_t,
     required_column ''created_at'' Timestamptz_t, required_column ''updated_at'' Timestamptz_t],
     td_checks = [],
     td_foreign_keys = [references ''fk_user_roles_assigned_by_user_id_users'' ''assigned_by_user_id'' ''users'' ''id'' Set_null,
       references ''fk_user_roles_user_id_users'' ''user_id'' ''users'' ''id'' Cascade],
     td_primary_key = (''pk_user_roles'', ''id'')\<rparr>"

definition create_user_roles :: "ddl list" where
  "create_user_roles = [Create_table user_roles_table,
     Create_index (unique_index ''uq_user_roles_user_id_role_code'' ''user_roles'' [Column_key ''user_id'', Column_key ''role_code''] None),
     Create_index (plain_index ''ix_user_roles_role_code'' ''user_roles'' [Column_key ''role_code'']),
     Create_index (plain_index ''ix_user_roles_assigned_by_user_id'' ''user_roles'' [Column_key ''assigned_by_user_id''])]"

definition upgrade_ddl :: "ddl list" where
  "upgrade_ddl = create_users @ create_auth_sessions @ create_auth_audit_logs @ create_sample_items @
      create_auth_identities @ create_oidc_states @ create_user_roles"

definition downgrade_ddl :: "ddl list" where
  "downgrade_ddl = [
     Drop_index ''ix_user_roles_assigned_by_user_id'', Drop_index ''ix_user_roles_role_code'',
       Drop_index ''uq_user_roles_user_id_role_code'', Drop_table ''user_roles'',
     Drop_index ''ix_auth_oidc_states_consumed_at'', Drop_index ''ix_auth_oidc_states_expires_at'',
       Drop_index ''uq_auth_oidc_states_state_hash'', Drop_table ''auth_oidc_authorization_states'',
     Drop_index ''ix_auth_identities_user_id'', Drop_index ''uq_auth_identities_provider_subject'',
       Drop_table ''auth_identities'',
     Drop_index ''ix_sample_items_owner_user_id_registered_at_id'', Drop_index ''ix_sample_items_owner_user_id'',
       Drop_table ''sample_items'',
     Drop_index ''ix_auth_audit_logs_occurred_at'', Drop_index ''ix_auth_audit_logs_event_type'',
       Drop_index ''ix_auth_audit_logs_session_id'', Drop_index ''ix_auth_audit_logs_user_id'', Drop_table ''auth_audit_logs'',
     Drop_index ''ix_auth_sessions_expires_at'', Drop_index ''uq_auth_sessions_session_token_hash'',
       Drop_index ''ix_auth_sessions_user_id'', Drop_table ''auth_sessions'',
     Drop_index ''ix_users_registered_at_id'', Drop_index ''uq_users_email_lower_active'',
       Drop_table ''users'']"

subsection \<open>What PostgreSQL makes of them\<close>

record schema =
  sch_tables :: "table_def list"
  sch_indexes :: "index_def list"

definition empty_schema :: schema where
  "empty_schema = \<lparr>sch_tables = [], sch_indexes = []\<rparr>"

datatype ddl_error =
    Duplicate_relation string
  | Undefined_table string
  | Undefined_column string
  | Undefined_index string
  | Dependent_objects string

text \<open>Tables, primary keys and indexes share one name space.\<close>

definition relation_names :: "schema \<Rightarrow> string list" where
  "relation_names sch = map td_name (sch_tables sch) @ map (fst \<circ> td_primary_key) (sch_tables sch) @ map ix_name (sch_indexes sch)"

definition table_of :: "schema \<Rightarrow> string \<Rightarrow> table_def option" where
  "table_of sch n = List.find (\<lambda>t. td_name t = n) (sch_tables sch)"

definition column_names :: "table_def \<Rightarrow> string list" where
  "column_names t = map co_name (td_columns t)"

fun expr_columns :: "sql_expr \<Rightarrow> string list" where
  "expr_columns (Is_null c) = [c]"
| "expr_columns (In_list c _) = [c]"
| "expr_columns (Or_else a b) = expr_columns a @ expr_columns b"

fun key_column :: "index_key \<Rightarrow> string" where
  "key_column (Column_key c) = c"
| "key_column (Lower_key c) = c"

definition first_missing :: "string list \<Rightarrow> string list \<Rightarrow> string option" where
  "first_missing cs names = List.find (\<lambda>c. c \<notin> set names) cs"

text \<open>A foreign key needs its table to be there, and its target to be the primary key of that table.\<close>

definition foreign_key_error :: "schema \<Rightarrow> foreign_key \<Rightarrow> ddl_error option" where
  "foreign_key_error sch k =
     (case table_of sch (fk_table k) of
        None \<Rightarrow> Some (Undefined_table (fk_table k))
      | Some t \<Rightarrow> if snd (td_primary_key t) = fk_target k then None else Some (Undefined_column (fk_target k)))"

fun apply_ddl :: "ddl \<Rightarrow> schema \<Rightarrow> ddl_error + schema" where
  "apply_ddl (Create_table t) sch =
     (let own = snd (td_primary_key t) # map fk_column (td_foreign_keys t) @ concat (map (expr_columns \<circ> snd) (td_checks t)) in
      if td_name t \<in> set (relation_names sch) then Inl (Duplicate_relation (td_name t))
      else if fst (td_primary_key t) \<in> set (relation_names sch) then Inl (Duplicate_relation (fst (td_primary_key t)))
      else case first_missing own (column_names t) of
        Some c \<Rightarrow> Inl (Undefined_column c)
      | None \<Rightarrow> (case List.map_filter (foreign_key_error sch) (td_foreign_keys t) of
          e # _ \<Rightarrow> Inl e
        | [] \<Rightarrow> Inr (sch\<lparr>sch_tables := sch_tables sch @ [t]\<rparr>)))"
| "apply_ddl (Create_index i) sch =
     (if ix_name i \<in> set (relation_names sch) then Inl (Duplicate_relation (ix_name i))
      else case table_of sch (ix_table i) of
        None \<Rightarrow> Inl (Undefined_table (ix_table i))
      | Some t \<Rightarrow> (case first_missing (map key_column (ix_keys i) @ (case ix_where i of None \<Rightarrow> [] | Some e \<Rightarrow> expr_columns e)) (column_names t) of
          Some c \<Rightarrow> Inl (Undefined_column c)
        | None \<Rightarrow> Inr (sch\<lparr>sch_indexes := sch_indexes sch @ [i]\<rparr>)))"
| "apply_ddl (Drop_index n) sch =
     (if n \<notin> set (map ix_name (sch_indexes sch)) then Inl (Undefined_index n)
      else Inr (sch\<lparr>sch_indexes := filter (\<lambda>i. ix_name i \<noteq> n) (sch_indexes sch)\<rparr>))"
| "apply_ddl (Drop_table n) sch =
     (if n \<notin> set (map td_name (sch_tables sch)) then Inl (Undefined_table n)
      else if list_ex (\<lambda>t. td_name t \<noteq> n \<and> list_ex (\<lambda>k. fk_table k = n) (td_foreign_keys t)) (sch_tables sch) then Inl (Dependent_objects n)
      else Inr \<lparr>sch_tables = filter (\<lambda>t. td_name t \<noteq> n) (sch_tables sch),
                sch_indexes = filter (\<lambda>i. ix_table i \<noteq> n) (sch_indexes sch)\<rparr>)"

fun run_ddl :: "ddl list \<Rightarrow> schema \<Rightarrow> ddl_error + schema" where
  "run_ddl [] sch = Inr sch"
| "run_ddl (c # cs) sch = sum_bind (apply_ddl c sch) (run_ddl cs)"

definition upgrade :: "schema \<Rightarrow> ddl_error + schema" where
  "upgrade = run_ddl upgrade_ddl"

definition downgrade :: "schema \<Rightarrow> ddl_error + schema" where
  "downgrade = run_ddl downgrade_ddl"

text \<open>The result of the upgrade, as the lemma below says.\<close>

fun created_index :: "ddl \<Rightarrow> index_def option" where
  "created_index (Create_index i) = Some i"
| "created_index _ = None"

definition initial_schema :: schema where
  "initial_schema =
     \<lparr>sch_tables = [users_table, auth_sessions_table, auth_audit_logs_table, sample_items_table, auth_identities_table, oidc_states_table,
        user_roles_table],
      sch_indexes = List.map_filter created_index upgrade_ddl\<rparr>"

lemma upgrade_result: "upgrade empty_schema = Inr initial_schema"
  by code_simp

lemma downgrade_result: "downgrade initial_schema = Inr empty_schema"
  by code_simp

subsection \<open>What a schema demands of the rows\<close>

datatype cell =
    C_null
  | C_uuid uuid
  | C_text string
  | C_bool bool
  | C_int int
  | C_time
  | C_inet string
  | C_json json

type_synonym row = "(string \<times> cell) list"

definition cell_at :: "row \<Rightarrow> string \<Rightarrow> cell" where
  "cell_at row c = (case map_of row c of None \<Rightarrow> C_null | Some v \<Rightarrow> v)"

fun has_type :: "column_type \<Rightarrow> cell \<Rightarrow> bool" where
  "has_type Uuid_t (C_uuid _) = True"
| "has_type Text_t (C_text _) = True"
| "has_type Boolean_t (C_bool _) = True"
| "has_type Big_integer_t (C_int _) = True"
| "has_type Timestamptz_t C_time = True"
| "has_type Inet_t (C_inet _) = True"
| "has_type Jsonb_t (C_json _) = True"
| "has_type _ _ = False"

text \<open>Three-valued logic: \<open>None\<close> is unknown, and a check constraint fails only when it is false.\<close>

fun eval_expr :: "row \<Rightarrow> sql_expr \<Rightarrow> bool option" where
  "eval_expr row (Is_null c) = Some (cell_at row c = C_null)"
| "eval_expr row (In_list c vs) = (if cell_at row c = C_null then None else Some (cell_at row c \<in> C_text ` set vs))"
| "eval_expr row (Or_else a b) =
     (case (eval_expr row a, eval_expr row b) of
        (Some False, v) \<Rightarrow> v
      | (Some True, _) \<Rightarrow> Some True
      | (None, Some True) \<Rightarrow> Some True
      | (None, _) \<Rightarrow> None)"

definition cell_ok :: "column \<Rightarrow> cell \<Rightarrow> bool" where
  "cell_ok c v = (if v = C_null then co_nullable c else has_type (co_type c) v)"

definition row_ok :: "table_def \<Rightarrow> row \<Rightarrow> bool" where
  "row_ok t row =
     (map fst row = column_names t \<and>
      list_all (\<lambda>c. cell_ok c (cell_at row (co_name c))) (td_columns t) \<and>
      list_all (\<lambda>(_, e). eval_expr row e \<noteq> Some False) (td_checks t))"

definition primary_key_ok :: "table_def \<Rightarrow> row list \<Rightarrow> bool" where
  "primary_key_ok t rows =
     (distinct (map (\<lambda>row. cell_at row (snd (td_primary_key t))) rows) \<and>
      list_all (\<lambda>row. cell_at row (snd (td_primary_key t)) \<noteq> C_null) rows)"

definition foreign_key_ok :: "(string \<Rightarrow> row list) \<Rightarrow> row list \<Rightarrow> foreign_key \<Rightarrow> bool" where
  "foreign_key_ok rows_in rows k =
     list_all (\<lambda>row. cell_at row (fk_column k) = C_null \<or>
       cell_at row (fk_column k) \<in> (\<lambda>target. cell_at target (fk_target k)) ` set (rows_in (fk_table k))) rows"

definition table_ok :: "(string \<Rightarrow> row list) \<Rightarrow> table_def \<Rightarrow> bool" where
  "table_ok rows_in t =
     (list_all (row_ok t) (rows_in (td_name t)) \<and> primary_key_ok t (rows_in (td_name t)) \<and>
      list_all (foreign_key_ok rows_in (rows_in (td_name t))) (td_foreign_keys t))"

fun key_value :: "row \<Rightarrow> index_key \<Rightarrow> cell" where
  "key_value row (Column_key c) = cell_at row c"
| "key_value row (Lower_key c) = (case cell_at row c of C_text s \<Rightarrow> C_text (lower s) | v \<Rightarrow> v)"

text \<open>Rows with an unknown key are never equal to another.\<close>

definition index_ok :: "(string \<Rightarrow> row list) \<Rightarrow> index_def \<Rightarrow> bool" where
  "index_ok rows_in i =
     (\<not> ix_unique i \<or>
      distinct (filter (\<lambda>ks. C_null \<notin> set ks)
        (map (\<lambda>row. map (key_value row) (ix_keys i))
          (filter (\<lambda>row. case ix_where i of None \<Rightarrow> True | Some e \<Rightarrow> eval_expr row e = Some True) (rows_in (ix_table i))))))"

definition satisfies :: "schema \<Rightarrow> (string \<Rightarrow> row list) \<Rightarrow> bool" where
  "satisfies sch rows_in = (list_all (table_ok rows_in) (sch_tables sch) \<and> list_all (index_ok rows_in) (sch_indexes sch))"

subsection \<open>The rows of the model\<close>

text \<open>
  A record of the model as the row that is stored for it, in the order of the columns. Instants are stored in
  milliseconds; the columns \<^verbatim>\<open>created_at\<close> and \<^verbatim>\<open>updated_at\<close>, which the model leaves out, are always filled by the
  models of the source.
\<close>

definition opt_cell :: "('a \<Rightarrow> cell) \<Rightarrow> 'a option \<Rightarrow> cell" where
  "opt_cell f v = (case v of None \<Rightarrow> C_null | Some x \<Rightarrow> f x)"

definition millis :: "datetime \<Rightarrow> cell" where
  "millis t = C_int (unix_ms_bind_param t)"

fun event_type_str :: "auth_event_type \<Rightarrow> string" where
  "event_type_str REGISTER_SUCCESS = ''register_success''"
| "event_type_str REGISTER_FAILED = ''register_failed''"
| "event_type_str LOGIN_SUCCESS = ''login_success''"
| "event_type_str LOGIN_FAILED = ''login_failed''"
| "event_type_str LOGOUT = ''logout''"
| "event_type_str SESSION_REJECTED = ''session_rejected''"
| "event_type_str USER_MARKED_DELETED = ''user_marked_deleted''"
| "event_type_str ACCOUNT_DELETION_REAUTH_FAILED = ''account_deletion_reauth_failed''"
| "event_type_str SESSION_REVOKED_DELETED_USER = ''session_revoked_deleted_user''"
| "event_type_str SESSION_REVOKED_INACTIVE_USER = ''session_revoked_inactive_user''"
| "event_type_str OIDC_LOGIN_SUCCESS = ''oidc_login_success''"
| "event_type_str OIDC_LOGIN_FAILED = ''oidc_login_failed''"
| "event_type_str OIDC_IDENTITY_LINKED = ''oidc_identity_linked''"
| "event_type_str OIDC_USER_PROVISIONED = ''oidc_user_provisioned''"
| "event_type_str OIDC_REAUTH_SUCCESS = ''oidc_reauth_success''"
| "event_type_str OIDC_REAUTH_FAILED = ''oidc_reauth_failed''"
| "event_type_str ROLE_GRANTED = ''role_granted''"
| "event_type_str ROLE_REVOKED = ''role_revoked''"
| "event_type_str USER_CREATED_BY_ADMIN = ''user_created_by_admin''"
| "event_type_str USER_UPDATED_BY_ADMIN = ''user_updated_by_admin''"
| "event_type_str USER_DELETED_BY_ADMIN = ''user_deleted_by_admin''"

definition user_cells :: "user \<Rightarrow> row" where
  "user_cells u = [(''id'', C_uuid (u_id u)), (''email'', C_text (u_email u)), (''password_hash'', opt_cell C_text (u_password_hash u)),
     (''is_active'', C_bool (u_is_active u)), (''language_code'', C_text (u_language_code u)), (''registered_at'', millis (u_registered_at u)),
     (''modified_at'', millis (u_modified_at u)), (''created_at'', C_time), (''updated_at'', C_time),
     (''last_logged_in_at'', opt_cell millis (u_last_logged_in_at u)), (''deleted_at'', opt_cell millis (u_deleted_at u))]"

definition session_cells :: "auth_session \<Rightarrow> row" where
  "session_cells s = [(''id'', C_uuid (s_id s)), (''user_id'', C_uuid (s_user_id s)), (''session_token_hash'', C_text (s_session_token_hash s)),
     (''csrf_token_hash'', C_text (s_csrf_token_hash s)), (''created_at'', C_time), (''issued_at'', millis (s_issued_at s)),
     (''updated_at'', C_time), (''last_seen_at'', millis (s_last_seen_at s)), (''expires_at'', millis (s_expires_at s)),
     (''revoked_at'', opt_cell millis (s_revoked_at s)), (''last_oidc_authenticated_at'', opt_cell millis (s_last_oidc_authenticated_at s)),
     (''ip_address'', opt_cell C_inet (s_ip_address s)), (''user_agent'', opt_cell C_text (s_user_agent s))]"

definition audit_log_cells :: "auth_audit_log \<Rightarrow> row" where
  "audit_log_cells a = [(''id'', C_uuid (a_id a)), (''user_id'', opt_cell C_uuid (a_user_id a)), (''session_id'', opt_cell C_uuid (a_session_id a)),
     (''event_type'', C_text (event_type_str (a_event_type a))), (''ip_address'', opt_cell C_inet (a_ip_address a)),
     (''user_agent'', opt_cell C_text (a_user_agent a)), (''detail_json'', opt_cell (\<lambda>d. C_json (JObj d)) (a_detail_json a)),
     (''occurred_at'', millis (a_occurred_at a)), (''created_at'', C_time), (''updated_at'', C_time)]"

definition sample_item_cells :: "sample_item \<Rightarrow> row" where
  "sample_item_cells m = [(''id'', C_uuid (m_id m)), (''owner_user_id'', C_uuid (m_owner_user_id m)), (''title'', C_text (m_title m)),
     (''description'', opt_cell C_text (m_description m)), (''is_completed'', C_bool (m_is_completed m)),
     (''registered_at'', millis (m_registered_at m)), (''modified_at'', millis (m_modified_at m)), (''created_at'', C_time), (''updated_at'', C_time)]"

definition identity_cells :: "auth_identity \<Rightarrow> row" where
  "identity_cells i = [(''id'', C_uuid (i_id i)), (''user_id'', C_uuid (i_user_id i)), (''provider_id'', C_text (i_provider_id i)),
     (''provider_subject'', C_text (i_provider_subject i)), (''email'', opt_cell C_text (i_email i)),
     (''is_email_verified'', C_bool (i_is_email_verified i)), (''claims_json'', C_json (i_claims_json i)),
     (''linked_at'', millis (i_linked_at i)), (''created_at'', C_time), (''updated_at'', C_time),
     (''last_logged_in_at'', opt_cell millis (i_last_logged_in_at i))]"

definition oidc_state_cells :: "auth_oidc_state \<Rightarrow> row" where
  "oidc_state_cells x = [(''id'', C_uuid (o_id x)), (''state_hash'', C_text (o_state_hash x)),
     (''browser_binding_hash'', C_text (o_browser_binding_hash x)), (''nonce_hash'', C_text (o_nonce_hash x)),
     (''pkce_verifier'', C_text (o_pkce_verifier x)), (''provider_id'', C_text (o_provider_id x)),
     (''purpose'', C_text (purpose_str (o_purpose x))), (''expected_user_id'', opt_cell C_uuid (o_expected_user_id x)),
     (''expected_session_id'', opt_cell C_uuid (o_expected_session_id x)), (''redirect_path'', C_text (o_redirect_path x)),
     (''login_hint'', opt_cell C_text (o_login_hint x)), (''language_code'', opt_cell C_text (o_language_code x)),
     (''expires_at'', millis (o_expires_at x)), (''consumed_at'', opt_cell millis (o_consumed_at x)),
     (''created_at'', C_time), (''updated_at'', C_time)]"

definition user_role_cells :: "user_role \<Rightarrow> row" where
  "user_role_cells r = [(''id'', C_uuid (r_id r)), (''user_id'', C_uuid (r_user_id r)), (''role_code'', C_text (r_role_code r)),
     (''assigned_at'', millis (r_assigned_at r)), (''assigned_by_user_id'', opt_cell C_uuid (r_assigned_by_user_id r)),
     (''created_at'', C_time), (''updated_at'', C_time)]"

definition tables_of :: "database \<Rightarrow> (string \<times> row list) list" where
  "tables_of d = [(''users'', map user_cells (users d)), (''auth_sessions'', map session_cells (auth_sessions d)),
     (''auth_audit_logs'', map audit_log_cells (auth_audit_logs d)), (''sample_items'', map sample_item_cells (sample_items d)),
     (''auth_identities'', map identity_cells (auth_identities d)), (''auth_oidc_authorization_states'', map oidc_state_cells (oidc_states d)),
     (''user_roles'', map user_role_cells (user_roles d))]"

definition rows_of :: "database \<Rightarrow> string \<Rightarrow> row list" where
  "rows_of d n = (case map_of (tables_of d) n of None \<Rightarrow> [] | Some rows \<Rightarrow> rows)"

subsection \<open>The schema is the model's\<close>

lemma rows_of_tables [simp]:
  "rows_of d ''users'' = map user_cells (users d)" "rows_of d ''auth_sessions'' = map session_cells (auth_sessions d)"
  "rows_of d ''auth_audit_logs'' = map audit_log_cells (auth_audit_logs d)" "rows_of d ''sample_items'' = map sample_item_cells (sample_items d)"
  "rows_of d ''auth_identities'' = map identity_cells (auth_identities d)"
  "rows_of d ''auth_oidc_authorization_states'' = map oidc_state_cells (oidc_states d)"
  "rows_of d ''user_roles'' = map user_role_cells (user_roles d)"
  by (simp_all add: rows_of_def tables_of_def)

lemma co_name_columns [simp]:
  "co_name (required_column n t) = n" "co_name (nullable_column n t) = n" "co_name (column_with n t v) = n"
  by (simp_all add: required_column_def nullable_column_def column_with_def)

lemma cell_ok_values [simp]:
  "cell_ok (required_column n Uuid_t) (C_uuid i)" "cell_ok (required_column n Text_t) (C_text s)"
  "cell_ok (required_column n Big_integer_t) (millis x)" "cell_ok (required_column n Timestamptz_t) C_time"
  "cell_ok (required_column n Jsonb_t) (C_json j)" "cell_ok (column_with n Boolean_t v) (C_bool b)" "cell_ok (column_with n Text_t v) (C_text s)"
  "cell_ok (nullable_column n Uuid_t) (opt_cell C_uuid oi)" "cell_ok (nullable_column n Text_t) (opt_cell C_text os)"
  "cell_ok (nullable_column n Big_integer_t) (opt_cell millis ox)" "cell_ok (nullable_column n Inet_t) (opt_cell C_inet os)"
  "cell_ok (nullable_column n Jsonb_t) (opt_cell (\<lambda>d. C_json (JObj d)) oj)"
  by (simp_all add: cell_ok_def required_column_def nullable_column_def column_with_def millis_def opt_cell_def split: option.splits)

lemma opt_cell_null [simp]:
  "opt_cell C_uuid oi = C_null \<longleftrightarrow> oi = None" "opt_cell C_text os = C_null \<longleftrightarrow> os = None" "opt_cell millis ox = C_null \<longleftrightarrow> ox = None"
  by (simp_all add: opt_cell_def millis_def split: option.splits)

lemma opt_cell_value [simp]: "opt_cell C_uuid oi = C_uuid i \<longleftrightarrow> oi = Some i" "opt_cell C_text os = C_text s \<longleftrightarrow> os = Some s"
  by (simp_all add: opt_cell_def split: option.splits)

lemmas cells_defs = user_cells_def session_cells_def audit_log_cells_def sample_item_cells_def identity_cells_def oidc_state_cells_def
  user_role_cells_def

lemmas table_defs = users_table_def auth_sessions_table_def auth_audit_logs_table_def sample_items_table_def auth_identities_table_def
  oidc_states_table_def user_roles_table_def

lemma row_ok_cells:
  "row_ok users_table (user_cells u) \<longleftrightarrow> is_supported_language_code (u_language_code u)"
  "row_ok auth_sessions_table (session_cells s)" "row_ok auth_audit_logs_table (audit_log_cells a)"
  "row_ok sample_items_table (sample_item_cells m)" "row_ok auth_identities_table (identity_cells i)"
  "row_ok oidc_states_table (oidc_state_cells x) \<longleftrightarrow> (case o_language_code x of None \<Rightarrow> True | Some c \<Rightarrow> is_supported_language_code c)"
  "row_ok user_roles_table (user_role_cells r)"
  by (simp_all add: row_ok_def table_defs cells_defs column_names_def cell_at_def is_supported_language_code_def
      SUPPORTED_LANGUAGE_CODES_def split: option.splits)

text \<open>The cells that constraints and indexes look at.\<close>

lemma cells_at [simp]:
  "cell_at (user_cells u) ''id'' = C_uuid (u_id u)" "cell_at (user_cells u) ''email'' = C_text (u_email u)"
  "cell_at (user_cells u) ''deleted_at'' = opt_cell millis (u_deleted_at u)"
  "cell_at (session_cells s) ''id'' = C_uuid (s_id s)" "cell_at (session_cells s) ''user_id'' = C_uuid (s_user_id s)"
  "cell_at (session_cells s) ''session_token_hash'' = C_text (s_session_token_hash s)"
  "cell_at (audit_log_cells a) ''id'' = C_uuid (a_id a)" "cell_at (audit_log_cells a) ''user_id'' = opt_cell C_uuid (a_user_id a)"
  "cell_at (audit_log_cells a) ''session_id'' = opt_cell C_uuid (a_session_id a)"
  "cell_at (sample_item_cells m) ''id'' = C_uuid (m_id m)" "cell_at (sample_item_cells m) ''owner_user_id'' = C_uuid (m_owner_user_id m)"
  "cell_at (identity_cells i) ''id'' = C_uuid (i_id i)" "cell_at (identity_cells i) ''user_id'' = C_uuid (i_user_id i)"
  "cell_at (identity_cells i) ''provider_id'' = C_text (i_provider_id i)"
  "cell_at (identity_cells i) ''provider_subject'' = C_text (i_provider_subject i)"
  "cell_at (oidc_state_cells x) ''id'' = C_uuid (o_id x)" "cell_at (oidc_state_cells x) ''state_hash'' = C_text (o_state_hash x)"
  "cell_at (user_role_cells r) ''id'' = C_uuid (r_id r)" "cell_at (user_role_cells r) ''user_id'' = C_uuid (r_user_id r)"
  "cell_at (user_role_cells r) ''role_code'' = C_text (r_role_code r)"
  "cell_at (user_role_cells r) ''assigned_by_user_id'' = opt_cell C_uuid (r_assigned_by_user_id r)"
  by (simp_all add: cell_at_def cells_defs)

lemma distinct_cells:
  "distinct (map (\<lambda>x. C_uuid (f x)) xs) = distinct (map f xs)" "distinct (map (\<lambda>x. [C_text (g x)]) xs) = distinct (map g xs)"
  "distinct (map (\<lambda>x. [C_text (g x), C_text (h x)]) xs) = distinct (map (\<lambda>x. (g x, h x)) xs)"
  "distinct (map (\<lambda>x. [C_uuid (f x), C_text (g x)]) xs) = distinct (map (\<lambda>x. (f x, g x)) xs)"
  by (auto simp: distinct_map inj_on_def)

lemma foreign_key_to_users:
  "foreign_key_ok (rows_of d) rows (references n c ''users'' ''id'' a) \<longleftrightarrow>
     (\<forall>row \<in> set rows. cell_at row c = C_null \<or> cell_at row c \<in> C_uuid ` user_ids d)"
  "foreign_key_ok (rows_of d) rows (references n c ''auth_sessions'' ''id'' a) \<longleftrightarrow>
     (\<forall>row \<in> set rows. cell_at row c = C_null \<or> cell_at row c \<in> C_uuid ` session_ids d)"
  by (simp_all add: foreign_key_ok_def references_def list_all_iff image_image)

lemma opt_cell_in: "v = None \<or> opt_cell C_uuid v \<in> C_uuid ` A \<longleftrightarrow> opt_in v A"
  by (auto simp: opt_in_def opt_cell_def split: option.splits)

lemmas table_ok_simps = table_ok_def primary_key_ok_def foreign_key_to_users opt_cell_in row_ok_cells distinct_cells list_all_iff comp_def

lemma table_parts [simp]:
  "td_name users_table = ''users''" "td_primary_key users_table = (''pk_users'', ''id'')"
  "td_foreign_keys users_table = []"
  "td_name auth_sessions_table = ''auth_sessions''" "td_primary_key auth_sessions_table = (''pk_auth_sessions'', ''id'')"
  "td_foreign_keys auth_sessions_table = [references ''fk_auth_sessions_user_id_users'' ''user_id'' ''users'' ''id'' Cascade]"
  "td_name auth_audit_logs_table = ''auth_audit_logs''" "td_primary_key auth_audit_logs_table = (''pk_auth_audit_logs'', ''id'')"
  "td_foreign_keys auth_audit_logs_table = [references ''fk_auth_audit_logs_session_id_auth_sessions'' ''session_id'' ''auth_sessions'' ''id'' Set_null, references ''fk_auth_audit_logs_user_id_users'' ''user_id'' ''users'' ''id'' Set_null]"
  "td_name sample_items_table = ''sample_items''" "td_primary_key sample_items_table = (''pk_sample_items'', ''id'')"
  "td_foreign_keys sample_items_table = [references ''fk_sample_items_owner_user_id_users'' ''owner_user_id'' ''users'' ''id'' Cascade]"
  "td_name auth_identities_table = ''auth_identities''" "td_primary_key auth_identities_table = (''pk_auth_identities'', ''id'')"
  "td_foreign_keys auth_identities_table = [references ''fk_auth_identities_user_id_users'' ''user_id'' ''users'' ''id'' Cascade]"
  "td_name oidc_states_table = ''auth_oidc_authorization_states''" "td_primary_key oidc_states_table = (''pk_auth_oidc_authorization_states'', ''id'')"
  "td_foreign_keys oidc_states_table = []"
  "td_name user_roles_table = ''user_roles''" "td_primary_key user_roles_table = (''pk_user_roles'', ''id'')"
  "td_foreign_keys user_roles_table = [references ''fk_user_roles_assigned_by_user_id_users'' ''assigned_by_user_id'' ''users'' ''id'' Set_null, references ''fk_user_roles_user_id_users'' ''user_id'' ''users'' ''id'' Cascade]"
  by (simp_all add: table_defs)

lemma table_ok_model:
  "table_ok (rows_of d) users_table \<longleftrightarrow>
     distinct (map u_id (users d)) \<and> (\<forall>u \<in> set (users d). is_supported_language_code (u_language_code u))"
  "table_ok (rows_of d) auth_sessions_table \<longleftrightarrow> distinct (map s_id (auth_sessions d)) \<and> s_user_id ` set (auth_sessions d) \<subseteq> user_ids d"
  "table_ok (rows_of d) auth_audit_logs_table \<longleftrightarrow> audit_logs_ok d"
  "table_ok (rows_of d) sample_items_table \<longleftrightarrow> sample_items_ok d"
  "table_ok (rows_of d) auth_identities_table \<longleftrightarrow> distinct (map i_id (auth_identities d)) \<and> i_user_id ` set (auth_identities d) \<subseteq> user_ids d"
  "table_ok (rows_of d) oidc_states_table \<longleftrightarrow> distinct (map o_id (oidc_states d)) \<and>
     (\<forall>x \<in> set (oidc_states d). case o_language_code x of None \<Rightarrow> True | Some c \<Rightarrow> is_supported_language_code c)"
  "table_ok (rows_of d) user_roles_table \<longleftrightarrow> distinct (map r_id (user_roles d)) \<and>
     (\<forall>r \<in> set (user_roles d). r_user_id r \<in> user_ids d \<and> opt_in (r_assigned_by_user_id r) (user_ids d))"
  by (auto simp: table_ok_simps audit_logs_ok_def sample_items_ok_def)

lemma plain_index_ok [simp]: "index_ok rows_in (plain_index n t ks)"
  by (simp add: index_ok_def plain_index_def)

lemma filter_map_known: "(\<And>x. C_null \<notin> set (f x)) \<Longrightarrow> filter (\<lambda>ks. C_null \<notin> set ks) (map f xs) = map f xs"
  by (simp add: filter_map o_def)

lemma unique_index_ok:
  "index_ok (rows_of d) (unique_index n ''users'' [Lower_key ''email''] (Some (Is_null ''deleted_at''))) \<longleftrightarrow> distinct (active_emails d)"
  "index_ok (rows_of d) (unique_index n ''auth_sessions'' [Column_key ''session_token_hash''] None)
     \<longleftrightarrow> distinct (map s_session_token_hash (auth_sessions d))"
  "index_ok (rows_of d) (unique_index n ''auth_identities'' [Column_key ''provider_id'', Column_key ''provider_subject''] None)
     \<longleftrightarrow> distinct (map (\<lambda>i. (i_provider_id i, i_provider_subject i)) (auth_identities d))"
  "index_ok (rows_of d) (unique_index n ''auth_oidc_authorization_states'' [Column_key ''state_hash''] None)
     \<longleftrightarrow> distinct (map o_state_hash (oidc_states d))"
  "index_ok (rows_of d) (unique_index n ''user_roles'' [Column_key ''user_id'', Column_key ''role_code''] None)
     \<longleftrightarrow> distinct (map (\<lambda>r. (r_user_id r, r_role_code r)) (user_roles d))"
  by (simp_all add: index_ok_def unique_index_def filter_map comp_def distinct_cells active_emails_def)

lemma list_all_map_filter: "list_all P (List.map_filter f xs) \<longleftrightarrow> list_all (\<lambda>x. list_all P (case f x of None \<Rightarrow> [] | Some y \<Rightarrow> [y])) xs"
  by (induction xs) (simp_all add: map_filter_simps split: option.split)

lemma initial_indexes:
  "list_all (index_ok (rows_of d)) (sch_indexes initial_schema) \<longleftrightarrow>
     distinct (active_emails d) \<and> distinct (map s_session_token_hash (auth_sessions d)) \<and>
     distinct (map (\<lambda>i. (i_provider_id i, i_provider_subject i)) (auth_identities d)) \<and>
     distinct (map o_state_hash (oidc_states d)) \<and> distinct (map (\<lambda>r. (r_user_id r, r_role_code r)) (user_roles d))"
  unfolding initial_schema_def upgrade_ddl_def schema.select_convs list_all_map_filter
    create_users_def create_auth_sessions_def create_auth_audit_logs_def create_sample_items_def create_auth_identities_def
    create_oidc_states_def create_user_roles_def
  by (simp add: unique_index_ok)

text \<open>
  C15: The constraints that this development assumes of the database are the ones that the migration
  installs. On an empty database the upgrade succeeds, the downgrade undoes it completely, and the schema in
  between (types, NOT NULL, checks, primary and foreign keys, unique indexes with their partial
  conditions) accepts the rows of a database exactly when it satisfies \<open>db_ok\<close>.
\<close>

theorem schema_enforces_model:
  "\<exists>sch. upgrade empty_schema = Inr sch \<and> downgrade sch = Inr empty_schema \<and> (\<forall>d. satisfies sch (rows_of d) \<longleftrightarrow> db_ok d)"
proof -
  have "satisfies initial_schema (rows_of d) \<longleftrightarrow> db_ok d" for d
    using initial_indexes [of d]
    by (auto simp: satisfies_def initial_schema_def [THEN arg_cong [where f = sch_tables]] table_ok_model db_ok_def users_ok_def sessions_ok_def
        identities_ok_def oidc_states_ok_def user_roles_ok_def)
  then show ?thesis using upgrade_result downgrade_result by blast
qed

end
