(* ===== verification/Alembic_Env.thy ===== *)
theory Alembic_Env
  imports Maintenance Schema_Migration
begin

text \<open>
  The environment in which Alembic runs the revisions (\<^verbatim>\<open>alembic/env.py\<close>, \<^verbatim>\<open>app/bootstrap/alembic_config.py\<close>).
  The world is the databases that can be reached, by their URL, the script that is printed in offline
  mode, and the engines and connections that are open.

  Alembic is a field of \<open>alembic_context\<close>: the section of the configuration file, the mode, and the operations of the
  revisions that the command selects, which it runs in order. A transaction of PostgreSQL
  covers the schema too: an error takes back every operation of it. The row in which Alembic keeps the
  current revision is left out.
\<close>

datatype env_error =
    CommandError string
  | MissingUrlKey
  | ConnectionFailed
  | OperationFailed ddl_error

datatype script_line = Begin_line | Statement ddl | Commit_line

record migration_options =
  mo_url :: "string option"
  mo_literal_binds :: bool
  mo_compare_type :: bool
  mo_compare_server_default :: bool

record alembic_context =
  config_section :: "(string \<rightharpoonup> string) option"
  is_offline_mode :: bool
  revisions :: "ddl list"

record migration_world =
  databases :: "string \<rightharpoonup> schema"
  script :: "script_line list"
  configured :: "migration_options option"
  open_engines :: nat
  open_connections :: nat

type_synonym 'a env_step = "migration_world \<Rightarrow> (env_error + 'a) \<times> migration_world"

subsection \<open>What the environment takes from Alembic and SQLAlchemy\<close>

definition context_configure :: "migration_options \<Rightarrow> migration_world \<Rightarrow> migration_world" where
  "context_configure options w = w\<lparr>configured := Some options\<rparr>"

text \<open>Online, every operation takes effect at once inside the transaction that is open.\<close>

fun run_migrations :: "string \<Rightarrow> ddl list \<Rightarrow> unit env_step" where
  "run_migrations url [] w = (Inr (), w)"
| "run_migrations url (c # cs) w =
     (case databases w url of
        None \<Rightarrow> (Inl ConnectionFailed, w)
      | Some sch \<Rightarrow> (case apply_ddl c sch of
          Inl e \<Rightarrow> (Inl (OperationFailed e), w)
        | Inr sch' \<Rightarrow> run_migrations url cs (w\<lparr>databases := (databases w)(url \<mapsto> sch')\<rparr>)))"

definition begin_transaction :: "unit env_step \<Rightarrow> unit env_step" where
  "begin_transaction body w =
     (case body w of
        (Inl e, w') \<Rightarrow> (Inl e, w'\<lparr>databases := databases w\<rparr>)
      | (Inr _, w') \<Rightarrow> (Inr (), w'))"

text \<open>Offline, the transaction and the operations are printed and no database is asked.\<close>

definition print_script :: "script_line list \<Rightarrow> migration_world \<Rightarrow> migration_world" where
  "print_script ls w = w\<lparr>script := script w @ ls\<rparr>"

definition async_engine_from_config :: "(string \<rightharpoonup> string) \<Rightarrow> string env_step" where
  "async_engine_from_config section w =
     (case section ''sqlalchemy.url'' of
        None \<Rightarrow> (Inl MissingUrlKey, w)
      | Some url \<Rightarrow> (Inr url, w\<lparr>open_engines := open_engines w + 1\<rparr>))"

text \<open>\<open>async with connectable.connect()\<close>: the connection is closed on every way out.\<close>

definition with_connection :: "string \<Rightarrow> unit env_step \<Rightarrow> unit env_step" where
  "with_connection url body w =
     (case databases w url of
        None \<Rightarrow> (Inl ConnectionFailed, w)
      | Some _ \<Rightarrow> (case body (w\<lparr>open_connections := open_connections w + 1\<rparr>) of
          (r, w') \<Rightarrow> (r, w'\<lparr>open_connections := open_connections w' - 1\<rparr>)))"

subsection \<open>The environment\<close>

definition env_database_url :: "'u url_ops \<Rightarrow> database_settings \<Rightarrow> env_error + string" where
  "env_database_url ops settings =
     (if ''DATABASE_URL'' \<notin> ds_fields_set settings
      then Inl (CommandError ''DATABASE_URL must be configured explicitly for Alembic.'')
      else map_sum CommandError id (get_alembic_database_url ops settings))"

definition build_alembic_engine_section :: "alembic_context \<Rightarrow> string \<Rightarrow> (string \<rightharpoonup> string)" where
  "build_alembic_engine_section config database_url =
     (case config_section config of None \<Rightarrow> Map.empty | Some s \<Rightarrow> s)(''sqlalchemy.url'' \<mapsto> database_url)"

definition run_migrations_offline :: "'u url_ops \<Rightarrow> database_settings \<Rightarrow> alembic_context \<Rightarrow> unit env_step" where
  "run_migrations_offline ops settings context w =
     (case env_database_url ops settings of
        Inl e \<Rightarrow> (Inl e, w)
      | Inr url \<Rightarrow>
          (let options = \<lparr>mo_url = Some url, mo_literal_binds = True, mo_compare_type = True, mo_compare_server_default = True\<rparr>;
               lines = Begin_line # map Statement (revisions context) @ [Commit_line]
           in (Inr (), print_script lines (context_configure options w))))"

definition online_options :: migration_options where
  "online_options = \<lparr>mo_url = None, mo_literal_binds = False, mo_compare_type = True, mo_compare_server_default = True\<rparr>"

definition do_run_migrations :: "alembic_context \<Rightarrow> string \<Rightarrow> unit env_step" where
  "do_run_migrations context connection w =
     begin_transaction (run_migrations connection (revisions context))
       (context_configure online_options w)"

definition run_async_migrations :: "'u url_ops \<Rightarrow> database_settings \<Rightarrow> alembic_context \<Rightarrow> unit env_step" where
  "run_async_migrations ops settings context w =
     (case env_database_url ops settings of
        Inl e \<Rightarrow> (Inl e, w)
      | Inr database_url \<Rightarrow>
          (case async_engine_from_config (build_alembic_engine_section context database_url) w of
             (Inl e, w1) \<Rightarrow> (Inl e, w1)
           | (Inr url, w1) \<Rightarrow>
               (case with_connection url (do_run_migrations context url) w1 of
                  (Inl e, w2) \<Rightarrow> (Inl e, w2)
                | (Inr _, w2) \<Rightarrow> (Inr (), w2\<lparr>open_engines := open_engines w2 - 1\<rparr>))))"

definition run_env :: "'u url_ops \<Rightarrow> database_settings \<Rightarrow> alembic_context \<Rightarrow> unit env_step" where
  "run_env ops settings context =
     (if is_offline_mode context then run_migrations_offline ops settings context
      else run_async_migrations ops settings context)"

subsection \<open>All or nothing\<close>

lemma run_migrations_completes:
  assumes "databases w url = Some sch" "run_ddl cs sch = Inr sch'"
  shows "run_migrations url cs w = (Inr (), w\<lparr>databases := (databases w)(url \<mapsto> sch')\<rparr>)"
  using assms
proof (induction cs arbitrary: w sch)
  case Nil
  then show ?case by (simp add: fun_upd_idem)
next
  case (Cons c cs)
  then obtain sch1 where step: "apply_ddl c sch = Inr sch1" and rest: "run_ddl cs sch1 = Inr sch'"
    by (auto simp: sum_bind_def split: sum.splits)
  show ?case
    using Cons.IH [of "w\<lparr>databases := (databases w)(url \<mapsto> sch1)\<rparr>" sch1, OF _ rest]
    by (simp add: Cons.prems(1) step cong: if_cong)
qed

lemma run_migrations_fails:
  assumes "databases w url = Some sch" "run_ddl cs sch = Inl e"
  shows "\<exists>ds. run_migrations url cs w = (Inl (OperationFailed e), w\<lparr>databases := ds\<rparr>)"
  using assms
proof (induction cs arbitrary: w sch)
  case Nil
  then show ?case by simp
next
  case (Cons c cs)
  show ?case
  proof (cases "apply_ddl c sch")
    case (Inl e')
    with Cons.prems show ?thesis by (intro exI [of _ "databases w"]) (simp add: sum_bind_def)
  next
    case (Inr sch1)
    with Cons.prems have "run_ddl cs sch1 = Inl e" by (simp add: sum_bind_def)
    then show ?thesis
      using Cons.IH [of "w\<lparr>databases := (databases w)(url \<mapsto> sch1)\<rparr>" sch1] Cons.prems(1) Inr by auto
  qed
qed

lemma begin_transaction_atomic:
  assumes "databases w url = Some sch"
  shows "begin_transaction (run_migrations url cs) w =
    (case run_ddl cs sch of
       Inl e \<Rightarrow> (Inl (OperationFailed e), w)
     | Inr sch' \<Rightarrow> (Inr (), w\<lparr>databases := (databases w)(url \<mapsto> sch')\<rparr>))"
proof (cases "run_ddl cs sch")
  case (Inl e)
  with run_migrations_fails [OF assms] obtain ds where "run_migrations url cs w = (Inl (OperationFailed e), w\<lparr>databases := ds\<rparr>)"
    by blast
  with Inl show ?thesis by (simp add: begin_transaction_def)
next
  case (Inr sch')
  then show ?thesis by (simp add: begin_transaction_def run_migrations_completes [OF assms])
qed

lemma engine_section_url: "build_alembic_engine_section config url ''sqlalchemy.url'' = Some url"
  by (simp add: build_alembic_engine_section_def)

lemma run_async_migrations_result:
  assumes "env_database_url ops settings = Inr url"
  shows "\<exists>w'. run_async_migrations ops settings context w =
      (case databases w url of
         None \<Rightarrow> (Inl ConnectionFailed, w\<lparr>open_engines := open_engines w + 1\<rparr>)
       | Some sch \<Rightarrow> (case run_ddl (revisions context) sch of
           Inl e \<Rightarrow> (Inl (OperationFailed e), w'\<lparr>open_engines := open_engines w + 1\<rparr>)
         | Inr sch' \<Rightarrow> (Inr (), w'\<lparr>databases := (databases w)(url \<mapsto> sch')\<rparr>))) \<and>
      databases w' = databases w \<and> script w' = script w \<and>
      open_connections w' = open_connections w \<and> open_engines w' = open_engines w"
  using assms
  by (cases "databases w url"; cases "run_ddl (revisions context) (the (databases w url))";
      intro exI [of _ "w\<lparr>configured := Some online_options\<rparr>"];
      simp add: run_async_migrations_def async_engine_from_config_def engine_section_url with_connection_def do_run_migrations_def
        begin_transaction_atomic context_configure_def)

definition migrated :: "'u url_ops \<Rightarrow> database_settings \<Rightarrow> alembic_context \<Rightarrow> migration_world \<Rightarrow> migration_world \<Rightarrow> bool" where
  "migrated ops settings context w w' =
     (''DATABASE_URL'' \<in> ds_fields_set settings \<and>
      (\<exists>url. get_alembic_database_url ops settings = Inr url \<and>
        (if is_offline_mode context
         then databases w' = databases w \<and> script w' = script w @ Begin_line # map Statement (revisions context) @ [Commit_line]
         else script w' = script w \<and>
           (\<exists>sch sch'. databases w url = Some sch \<and> run_ddl (revisions context) sch = Inr sch' \<and>
              databases w' = (databases w)(url \<mapsto> sch')))))"

lemma env_database_url_Inr:
  "env_database_url ops settings = Inr url \<longleftrightarrow>
    ''DATABASE_URL'' \<in> ds_fields_set settings \<and> get_alembic_database_url ops settings = Inr url"
  by (cases "get_alembic_database_url ops settings") (auto simp: env_database_url_def)


definition demo_url_settings :: database_settings where
  "demo_url_settings = default_database_settings\<lparr>DATABASE_URL := ''postgresql://db/app'', ds_fields_set := {''DATABASE_URL''}\<rparr>"

definition demo_databases :: migration_world where
  "demo_databases = \<lparr>databases = [''postgresql+asyncpg://db/app'' \<mapsto> empty_schema], script = [], configured = None,
     open_engines = 0, open_connections = 0\<rparr>"

definition demo_alembic :: "ddl list \<Rightarrow> alembic_context" where
  "demo_alembic operations =
     \<lparr>config_section = Some [''sqlalchemy.url'' \<mapsto> ''driver://unused-by-runtime''], is_offline_mode = False, revisions = operations\<rparr>"

lemma demo_database_url: "env_database_url demo_urls demo_url_settings = Inr ''postgresql+asyncpg://db/app''"
  by code_simp


end
