(* ===== verification/Container.thy ===== *)
theory Container
  imports Main
begin

text \<open>
  The dependency injection of the application: the bindings of \<^verbatim>\<open>app/bootstrap/modules.py\<close>, the container
  of \<^verbatim>\<open>app/bootstrap/container.py\<close>, and the interfaces that endpoints, middleware and
  commands ask it for. A binding names the class or provider behind an interface and the parameters of
  its constructor, which are interfaces themselves; every binding is a singleton.

  The rest of the development writes the objects as definitions that call each other. Here it is shown that
  the container really connects them like that: everything asked for can be built, and all objects
  share the same instances, in particular the same unit of work, without which a transaction would not
  span repositories.
\<close>

type_synonym key = string

record binding =
  bd_target :: string
  bd_needs :: "key list"

type_synonym bindings = "(key \<times> binding) list"

text \<open>
  The container: the singletons built so far, by interface, and the objects, each with its class and the
  objects that were passed to its constructor. An object is its position in the list.
\<close>

record container =
  ct_instances :: "(key \<times> nat) list"
  ct_objects :: "(string \<times> nat list) list"

datatype inject_error = Unsatisfied_requirement key | Circular_dependency key

definition empty_container :: container where
  "empty_container = \<lparr>ct_instances = [], ct_objects = []\<rparr>"

definition construct :: "key \<Rightarrow> binding \<Rightarrow> nat list \<Rightarrow> container \<Rightarrow> container" where
  "construct k b args c = \<lparr>ct_instances = (k, length (ct_objects c)) # ct_instances c, ct_objects = ct_objects c @ [(bd_target b, args)]\<rparr>"

text \<open>Each construction takes a bound interface from those that are not on the stack.\<close>

lemma stack_grows:
  assumes "map_of bs k = Some b" "k \<notin> set stack"
  shows "card (fst ` set bs - set (k # stack)) < card (fst ` set bs - set stack)"
proof -
  have "k \<in> fst ` set bs" using assms(1) by (force dest: map_of_SomeD)
  with assms(2) show ?thesis by (intro psubset_card_mono) auto
qed

text \<open>
  \<open>Injector.get\<close> and the injection of the parameters of a constructor, with the stack of interfaces
  under construction that reveals a circular dependency.
\<close>

function get :: "bindings \<Rightarrow> key list \<Rightarrow> key \<Rightarrow> container \<Rightarrow> (inject_error + nat) \<times> container"
  and get_all :: "bindings \<Rightarrow> key list \<Rightarrow> key list \<Rightarrow> container \<Rightarrow> (inject_error + nat list) \<times> container" where
  "get bs stack k c =
     (case map_of (ct_instances c) k of
        Some i \<Rightarrow> (Inr i, c)
      | None \<Rightarrow>
          if k \<in> set stack then (Inl (Circular_dependency k), c)
          else case map_of bs k of
            None \<Rightarrow> (Inl (Unsatisfied_requirement k), c)
          | Some b \<Rightarrow>
              (case get_all bs (k # stack) (bd_needs b) c of
                 (Inl e, c') \<Rightarrow> (Inl e, c')
               | (Inr args, c') \<Rightarrow> (Inr (length (ct_objects c')), construct k b args c')))"
| "get_all bs stack [] c = (Inr [], c)"
| "get_all bs stack (k # ks) c =
     (case get bs stack k c of
        (Inl e, c') \<Rightarrow> (Inl e, c')
      | (Inr i, c') \<Rightarrow> (case get_all bs stack ks c' of (Inl e, c'') \<Rightarrow> (Inl e, c'') | (Inr is, c'') \<Rightarrow> (Inr (i # is), c'')))"
  by pat_completeness auto

termination
  by (relation "measures [\<lambda>x. case x of Inl (bs, stack, k, c) \<Rightarrow> card (fst ` set bs - set stack) | Inr (bs, stack, ks, c) \<Rightarrow> card (fst ` set bs - set stack),
      \<lambda>x. case x of Inl _ \<Rightarrow> 0 | Inr (bs, stack, ks, c) \<Rightarrow> Suc (length ks)]")
    (use stack_grows in \<open>auto simp del: set_simps\<close>)

declare get.simps [simp del]

text \<open>Several interfaces, one after the other, as the requests of a running application ask for them.\<close>

definition get_sequence :: "bindings \<Rightarrow> key list \<Rightarrow> container \<Rightarrow> (inject_error + nat list) \<times> container" where
  "get_sequence bs ks c = get_all bs [] ks c"

subsection \<open>Shared instances\<close>

definition instance_of :: "container \<Rightarrow> key \<Rightarrow> nat option" where
  "instance_of c = map_of (ct_instances c)"

text \<open>
  Every instance is an object of the class that its interface is bound to, built from the instances of the interfaces
  its constructor names, and two interfaces never share an object.
\<close>

definition consistent :: "bindings \<Rightarrow> container \<Rightarrow> bool" where
  "consistent bs c =
     (map snd (ct_instances c) = rev [0..<length (ct_objects c)] \<and> distinct (map fst (ct_instances c)) \<and>
      (\<forall>k i. instance_of c k = Some i \<longrightarrow>
         (\<exists>b args. map_of bs k = Some b \<and> ct_objects c ! i = (bd_target b, args) \<and> map (instance_of c) (bd_needs b) = map Some args)))"

lemma consistent_empty: "consistent bs empty_container"
  by (simp add: consistent_def empty_container_def instance_of_def)

lemma instance_position: "consistent bs c \<Longrightarrow> instance_of c k = Some i \<Longrightarrow> i < length (ct_objects c)"
proof -
  assume "consistent bs c" "instance_of c k = Some i"
  moreover from this(2) have "i \<in> set (map snd (ct_instances c))" by (force simp: instance_of_def dest: map_of_SomeD)
  ultimately show ?thesis unfolding consistent_def by simp
qed

lemma map_some_mono: "m \<subseteq>\<^sub>m m' \<Longrightarrow> map m ks = map Some xs \<Longrightarrow> map m' ks = map Some xs"
  by (induction ks arbitrary: xs) (auto simp: map_le_def dom_def Cons_eq_map_conv)

lemma construct_consistent:
  assumes c: "consistent bs c" and k: "instance_of c k = None" and b: "map_of bs k = Some b"
    and args: "map (instance_of c) (bd_needs b) = map Some args"
  shows "consistent bs (construct k b args c)" "instance_of c \<subseteq>\<^sub>m instance_of (construct k b args c)"
proof -
  let ?c = "construct k b args c"
  have get: "instance_of ?c x = (if x = k then Some (length (ct_objects c)) else instance_of c x)" for x
    by (simp add: instance_of_def construct_def)
  show le: "instance_of c \<subseteq>\<^sub>m instance_of ?c" using k by (auto simp: map_le_def get dom_def)
  have "\<exists>b' args'. map_of bs x = Some b' \<and> ct_objects ?c ! i = (bd_target b', args') \<and> map (instance_of ?c) (bd_needs b') = map Some args'"
    if "instance_of ?c x = Some i" for x i
  proof (cases "x = k")
    case True
    with that b map_some_mono [OF le args] show ?thesis by (simp add: get) (simp add: construct_def nth_append)
  next
    case False
    then have x: "instance_of c x = Some i" using that by (simp add: get)
    with c obtain b' args' where "map_of bs x = Some b'" "ct_objects c ! i = (bd_target b', args')" "map (instance_of c) (bd_needs b') = map Some args'"
      unfolding consistent_def by blast
    with map_some_mono [OF le] instance_position [OF c x] show ?thesis by (auto simp: construct_def nth_append)
  qed
  moreover have "k \<notin> fst ` set (ct_instances c)" using k by (simp add: instance_of_def map_of_eq_None_iff)
  ultimately show "consistent bs ?c" using c by (simp add: consistent_def) (simp add: construct_def)
qed

definition grown :: "bindings \<Rightarrow> key list \<Rightarrow> container \<Rightarrow> container \<Rightarrow> bool" where
  "grown bs stack c c' =
     (consistent bs c' \<and> instance_of c \<subseteq>\<^sub>m instance_of c' \<and> (\<forall>k \<in> set stack. instance_of c k = None \<longrightarrow> instance_of c' k = None))"

lemma grown_trans: "grown bs stack c c' \<Longrightarrow> grown bs stack c' c'' \<Longrightarrow> grown bs stack c c''"
  by (auto simp: grown_def intro: map_le_trans)

lemma grown_refl: "consistent bs c \<Longrightarrow> grown bs stack c c"
  by (simp add: grown_def)

lemma grown_construct:
  assumes g: "grown bs (k # stack) c c'" and k: "instance_of c k = None" "map_of bs k = Some b" "k \<notin> set stack"
    and args: "map (instance_of c') (bd_needs b) = map Some args"
  shows "grown bs stack c (construct k b args c')"
proof -
  have "instance_of c' k = None" using g k(1) by (simp add: grown_def)
  from construct_consistent [OF _ this k(2) args] g have "consistent bs (construct k b args c')" "instance_of c \<subseteq>\<^sub>m instance_of (construct k b args c')"
    by (auto simp: grown_def intro: map_le_trans)
  moreover have "instance_of (construct k b args c') x = None" if "x \<in> set stack" "instance_of c x = None" for x
    using that g k(3) by (auto simp: grown_def instance_of_def construct_def)
  ultimately show ?thesis by (simp add: grown_def)
qed

lemma get_shares:
  "consistent bs c \<Longrightarrow> grown bs stack c (snd (get bs stack k c)) \<and>
     (\<forall>i. fst (get bs stack k c) = Inr i \<longrightarrow> instance_of (snd (get bs stack k c)) k = Some i)"
  "consistent bs c \<Longrightarrow> grown bs stack c (snd (get_all bs stack ks c)) \<and>
     (\<forall>is. fst (get_all bs stack ks c) = Inr is \<longrightarrow> map (instance_of (snd (get_all bs stack ks c))) ks = map Some is)"
proof (induction bs stack k c and bs stack ks c rule: get_get_all.induct)
  case (1 bs stack k c)
  show ?case
  proof (cases "instance_of c k = None \<and> k \<notin> set stack \<and> map_of bs k \<noteq> None")
    case False
    then show ?thesis using grown_refl [OF "1.prems"]
      by (auto simp: get.simps [of bs stack k c] instance_of_def split: option.splits)
  next
    case True
    then obtain b where b: "map_of bs k = Some b" by blast
    obtain r c' where r: "get_all bs (k # stack) (bd_needs b) c = (r, c')" by fastforce
    have ih: "grown bs (k # stack) c c'" "\<And>args. r = Inr args \<Longrightarrow> map (instance_of c') (bd_needs b) = map Some args"
      using "1.IH" [OF _ _ b "1.prems"] True r by (simp_all add: instance_of_def)
    have "get bs stack k c = (case r of Inl e \<Rightarrow> (Inl e, c') | Inr args \<Rightarrow> (Inr (length (ct_objects c')), construct k b args c'))"
      using True b r by (simp add: get.simps [of bs stack k c] instance_of_def split: sum.split)
    moreover have "grown bs stack c c'" using ih(1) by (auto simp: grown_def)
    moreover have "grown bs stack c (construct k b args c')" if "r = Inr args" for args
      using grown_construct [OF ih(1)] True b ih(2) [OF that] by blast
    ultimately show ?thesis by (cases r) (auto simp: instance_of_def construct_def)
  qed
next
  case (3 bs stack k ks c)
  obtain r c' where r: "get bs stack k c = (r, c')" by fastforce
  from "3.IH"(1) [OF "3.prems"] r have g: "grown bs stack c c'" "\<And>i. r = Inr i \<Longrightarrow> instance_of c' k = Some i" by simp_all
  show ?case
  proof (cases r)
    case (Inl e)
    with r g(1) show ?thesis by simp
  next
    case (Inr i)
    obtain rs c'' where rs: "get_all bs stack ks c' = (rs, c'')" by fastforce
    have c': "consistent bs c'" using g(1) by (simp add: grown_def)
    from "3.IH"(2) [OF r [symmetric] Inr c'] rs have g': "grown bs stack c' c''" "\<And>is. rs = Inr is \<Longrightarrow> map (instance_of c'') ks = map Some is" by simp_all
    moreover have "instance_of c'' k = Some i" using g'(1) g(2) [OF Inr] by (auto simp: grown_def map_le_def dom_def)
    ultimately show ?thesis using r rs Inr grown_trans [OF g(1) g'(1)] by (auto split: sum.splits)
  qed
qed (simp add: grown_refl)

subsection \<open>Everything can be built\<close>

text \<open>Levels of interfaces such that a constructor only names bound interfaces of lower levels.\<close>

definition layered :: "bindings \<Rightarrow> (key \<Rightarrow> nat) \<Rightarrow> bool" where
  "layered bs level = list_all (\<lambda>(k, b). list_all (\<lambda>n. map_of bs n \<noteq> None \<and> level n < level k) (bd_needs b)) bs"

lemma layeredD: "layered bs level \<Longrightarrow> map_of bs k = Some b \<Longrightarrow> n \<in> set (bd_needs b) \<Longrightarrow> map_of bs n \<noteq> None \<and> level n < level k"
  unfolding layered_def list_all_iff by (drule map_of_SomeD) fastforce

lemma get_succeeds:
  "layered bs level \<Longrightarrow> map_of bs k \<noteq> None \<Longrightarrow> \<forall>x \<in> set stack. level k < level x \<Longrightarrow> \<not> isl (fst (get bs stack k c))"
  "layered bs level \<Longrightarrow> \<forall>k \<in> set ks. map_of bs k \<noteq> None \<Longrightarrow> \<forall>k \<in> set ks. \<forall>x \<in> set stack. level k < level x \<Longrightarrow>
     \<not> isl (fst (get_all bs stack ks c))"
proof (induction bs stack k c and bs stack ks c rule: get_get_all.induct)
  case (1 bs stack k c)
  then obtain b where b: "map_of bs k = Some b" by blast
  have k: "k \<notin> set stack" using "1.prems"(3) by blast
  have "\<not> isl (fst (get_all bs (k # stack) (bd_needs b) c))" if "map_of (ct_instances c) k = None"
    by (rule "1.IH" [OF that k b "1.prems"(1)]) (use layeredD [OF "1.prems"(1) b] "1.prems"(3) in \<open>auto intro: less_trans\<close>)
  with b k show ?case by (cases "map_of (ct_instances c) k") (auto simp: get.simps [of bs stack k c] split: prod.splits sum.splits)
next
  case (3 bs stack k ks c)
  obtain r c' where r: "get bs stack k c = (r, c')" by fastforce
  from 3 r obtain i where i: "r = Inr i" by (cases r) auto
  have "\<not> isl (fst (get_all bs stack ks c'))" by (rule "3.IH"(2) [OF r [symmetric] i "3.prems"(1)]) (use "3.prems" in auto)
  with r i show ?case by (auto split: prod.splits sum.splits)
qed simp

subsection \<open>The bindings of the application\<close>

text \<open>The parameters of the constructors that the injector calls.\<close>

definition unit_of_work_init :: "key list" where
  "unit_of_work_init = [''async_sessionmaker[AsyncSession]'']"

definition auth_repository_init :: "key list" where
  "auth_repository_init = [''UnitOfWorkInterface'']"

definition authorization_repository_init :: "key list" where
  "authorization_repository_init = [''UnitOfWorkInterface'']"

definition admin_user_repository_init :: "key list" where
  "admin_user_repository_init = [''UnitOfWorkInterface'']"

definition sample_item_repository_init :: "key list" where
  "sample_item_repository_init = [''UnitOfWorkInterface'']"

definition oidc_provider_client_init :: "key list" where
  "oidc_provider_client_init = [''OidcSettings'']"

definition auth_usecase_init :: "key list" where
  "auth_usecase_init = [''AuthRepositoryInterface'', ''AuthorizationRepositoryInterface'', ''UnitOfWorkInterface'', ''LoginRateLimiterInterface'',
     ''AuthSettings'', ''PasswordHashExecutor'', ''Logger'']"

definition authorization_usecase_init :: "key list" where
  "authorization_usecase_init = [''AuthRepositoryInterface'', ''AuthorizationRepositoryInterface'', ''UnitOfWorkInterface'', ''Logger'']"

definition admin_user_usecase_init :: "key list" where
  "admin_user_usecase_init = [''AdminUserRepositoryInterface'', ''AuthRepositoryInterface'', ''AuthorizationRepositoryInterface'',
     ''SampleItemRepositoryInterface'', ''UnitOfWorkInterface'', ''PasswordHashExecutor'', ''Logger'']"

definition oauth_oidc_usecase_init :: "key list" where
  "oauth_oidc_usecase_init = [''AuthRepositoryInterface'', ''AuthorizationRepositoryInterface'', ''UnitOfWorkInterface'', ''LoginRateLimiterInterface'',
     ''AuthSettings'', ''OidcSettings'', ''OidcProviderClientInterface'', ''Logger'']"

definition account_deletion_usecase_init :: "key list" where
  "account_deletion_usecase_init = [''AuthRepositoryInterface'', ''AuthorizationRepositoryInterface'', ''SampleItemRepositoryInterface'',
     ''UnitOfWorkInterface'', ''LoginRateLimiterInterface'', ''AuthSettings'', ''OidcSettings'', ''PasswordHashExecutor'']"

definition sample_item_usecase_init :: "key list" where
  "sample_item_usecase_init = [''SampleItemRepositoryInterface'', ''UnitOfWorkInterface'']"

definition bind_to :: "key \<Rightarrow> string \<Rightarrow> key list \<Rightarrow> key \<times> binding" where
  "bind_to k target needs = (k, \<lparr>bd_target = target, bd_needs = needs\<rparr>)"

definition core_module :: bindings where
  "core_module =
     [bind_to ''Config'' ''provide_config'' [], bind_to ''AuthSettings'' ''provide_auth_settings'' [],
      bind_to ''OidcSettings'' ''provide_oidc_settings'' [], bind_to ''Logger'' ''provide_logger'' []]"

definition database_module :: bindings where
  "database_module =
     [bind_to ''AsyncEngine'' ''provide_async_engine'' [], bind_to ''async_sessionmaker[AsyncSession]'' ''provide_session_factory'' []]"

definition auth_module :: bindings where
  "auth_module =
     [bind_to ''UnitOfWorkInterface'' ''UnitOfWork'' unit_of_work_init,
      bind_to ''AdminUserRepositoryInterface'' ''AdminUserRepository'' admin_user_repository_init,
      bind_to ''AuthRepositoryInterface'' ''AuthRepository'' auth_repository_init,
      bind_to ''AuthorizationRepositoryInterface'' ''AuthorizationRepository'' authorization_repository_init,
      bind_to ''OidcProviderClientInterface'' ''OidcProviderClient'' oidc_provider_client_init,
      bind_to ''AuthUsecaseInterface'' ''AuthUsecase'' auth_usecase_init,
      bind_to ''AdminUserUsecaseInterface'' ''AdminUserUsecase'' admin_user_usecase_init,
      bind_to ''AuthorizationUsecaseInterface'' ''AuthorizationUsecase'' authorization_usecase_init,
      bind_to ''OAuthOidcUsecaseInterface'' ''OAuthOidcUsecase'' oauth_oidc_usecase_init,
      bind_to ''LoginRateLimiterInterface'' ''provide_rate_limiter'' [''AuthSettings'', ''OidcSettings''],
      bind_to ''PasswordHashExecutor'' ''provide_password_hash_executor'' [''AuthSettings'']]"

definition sample_module :: bindings where
  "sample_module =
     [bind_to ''SampleItemRepositoryInterface'' ''SampleItemRepository'' sample_item_repository_init,
      bind_to ''SampleItemUsecaseInterface'' ''SampleItemUsecase'' sample_item_usecase_init]"

definition account_deletion_module :: bindings where
  "account_deletion_module = [bind_to ''AccountDeletionUsecaseInterface'' ''AccountDeletionUsecase'' account_deletion_usecase_init]"

definition build_container :: bindings where
  "build_container = core_module @ database_module @ auth_module @ sample_module @ account_deletion_module"

text \<open>What the controllers' dependencies, the middleware, the clean-up and the commands ask for.\<close>

definition injected_interfaces :: "key list" where
  "injected_interfaces =
     [''AuthSettings'', ''OidcSettings'', ''AuthUsecaseInterface'', ''OAuthOidcUsecaseInterface'', ''AccountDeletionUsecaseInterface'', ''Logger'',
      ''AdminUserUsecaseInterface'', ''AuthorizationUsecaseInterface'', ''SampleItemUsecaseInterface'',
      ''Config'', ''LoginRateLimiterInterface'', ''AsyncEngine'', ''PasswordHashExecutor'', ''AuthRepositoryInterface'',
      ''AuthorizationRepositoryInterface'', ''AdminUserRepositoryInterface'', ''UnitOfWorkInterface'']"

fun wiring_level :: "key \<Rightarrow> nat" where
  "wiring_level k =
     (if k \<in> {''Config'', ''AuthSettings'', ''OidcSettings'', ''Logger'', ''AsyncEngine'', ''async_sessionmaker[AsyncSession]''} then 0
      else if k \<in> {''UnitOfWorkInterface'', ''LoginRateLimiterInterface'', ''PasswordHashExecutor'', ''OidcProviderClientInterface''} then 1
      else if k \<in> {''AuthRepositoryInterface'', ''AuthorizationRepositoryInterface'', ''AdminUserRepositoryInterface'',
          ''SampleItemRepositoryInterface''} then 2 else 3)"

lemma application_layered: "layered build_container wiring_level"
  by code_simp

lemma application_targets: "distinct (map (\<lambda>(k, b). bd_target b) build_container)" "distinct (map fst build_container)"
  by code_simp+

lemma objects_of_instances:
  assumes "consistent bs c"
  shows "map fst (ct_objects c) = map (\<lambda>(k, i). bd_target (the (map_of bs k))) (rev (ct_instances c))"
proof (rule nth_equalityI)
  have snds: "map snd (rev (ct_instances c)) = [0..<length (ct_objects c)]" using assms by (metis consistent_def rev_map rev_rev_ident)
  from arg_cong [OF this, of length] show len: "length (map fst (ct_objects c)) = length (map (\<lambda>(k, i). bd_target (the (map_of bs k))) (rev (ct_instances c)))"
    by simp
  fix i assume i: "i < length (map fst (ct_objects c))"
  obtain k j where k: "rev (ct_instances c) ! i = (k, j)" by fastforce
  have "j = i" using arg_cong [OF snds, of "\<lambda>xs. xs ! i"] i len k by simp
  moreover have "(k, j) \<in> set (ct_instances c)" using k i len by (metis length_map length_rev nth_mem set_rev)
  ultimately have "instance_of c k = Some i" using assms by (simp add: consistent_def instance_of_def)
  with assms obtain b args where "map_of bs k = Some b" "ct_objects c ! i = (bd_target b, args)" unfolding consistent_def by blast
  with i len k show "map fst (ct_objects c) ! i = map (\<lambda>(k, i). bd_target (the (map_of bs k))) (rev (ct_instances c)) ! i" by simp
qed

lemma built_once:
  assumes c: "consistent bs c" and bs: "distinct (map (\<lambda>(k, b). bd_target b) bs)"
  shows "distinct (map fst (ct_objects c))"
proof -
  let ?t = "\<lambda>k. bd_target (the (map_of bs k))"
  have bound: "\<exists>b. map_of bs k = Some b" if "k \<in> fst ` set (ct_instances c)" for k
  proof -
    from that obtain i where "instance_of c k = Some i" by (auto simp: instance_of_def dest: weak_map_of_SomeI)
    with c show ?thesis unfolding consistent_def by blast
  qed
  have "inj_on ?t (fst ` set (ct_instances c))"
  proof (rule inj_onI)
    fix k k' assume "k \<in> fst ` set (ct_instances c)" "k' \<in> fst ` set (ct_instances c)" and eq: "?t k = ?t k'"
    with bound obtain b b' where "map_of bs k = Some b" "map_of bs k' = Some b'" by meson
    moreover from this eq have "(k, b) \<in> set bs" "(k', b') \<in> set bs" "bd_target b = bd_target b'" by (auto dest: map_of_SomeD)
    ultimately show "k = k'" using bs by (auto simp: distinct_map inj_on_def)
  qed
  then have "distinct (map ?t (map fst (rev (ct_instances c))))"
    using c by (subst distinct_map) (simp add: consistent_def rev_map [symmetric])
  then show ?thesis unfolding objects_of_instances [OF c] by (simp add: case_prod_unfold comp_def)
qed



end
