(* ===== verification/Refinement.thy ===== *)
theory Refinement
  imports Main
begin

text \<open>
  Refinement of a specification by an implementation, operation by operation: when every operation gives
  the same result on the state and on its abstraction, so does every sequence of operations.
\<close>

fun run_all :: "('op \<Rightarrow> 's \<Rightarrow> 'r \<times> 's) \<Rightarrow> 'op list \<Rightarrow> 's \<Rightarrow> 'r list \<times> 's" where
  "run_all run [] s = ([], s)"
| "run_all run (p # ps) s = (case run p s of (r, t) \<Rightarrow> (case run_all run ps t of (rs, u) \<Rightarrow> (r # rs, u)))"

text \<open>
  Besides the simulation the implementation may promise a \<open>frame\<close>, a reflexive and transitive
  relation between the states before and after, for what the abstraction does not see.
\<close>

locale stepwise_refinement =
  fixes run :: "'op \<Rightarrow> 's \<Rightarrow> 'r \<times> 's" and spec :: "'op \<Rightarrow> 'a \<Rightarrow> 'r \<times> 'a" and abstraction :: "'s \<Rightarrow> 'a"
    and ready :: "'s \<Rightarrow> bool" and frame :: "'s \<Rightarrow> 's \<Rightarrow> bool"
  assumes step: "ready s \<Longrightarrow> run p s = (r, t) \<Longrightarrow> ready t \<and> spec p (abstraction s) = (r, abstraction t) \<and> frame s t"
    and frame_refl: "frame s s"
    and frame_trans: "frame s t \<Longrightarrow> frame t u \<Longrightarrow> frame s u"
begin

lemma runs_refine:
  assumes "ready s" "run_all run ps s = (rs, t)"
  shows "ready t \<and> run_all spec ps (abstraction s) = (rs, abstraction t) \<and> frame s t"
  using assms
proof (induction ps arbitrary: s rs)
  case (Cons p ps)
  obtain r u where r: "run p s = (r, u)" by fastforce
  obtain rs' where rs: "run_all run ps u = (rs', t)" "rs = r # rs'" using Cons.prems(2) r by (auto split: prod.splits)
  from step [OF Cons.prems(1) r] Cons.IH [OF _ rs(1)] rs(2) show ?case by (auto intro: frame_trans)
qed (simp add: frame_refl)

end

end
