(* ===== verification/Item_Store.thy ===== *)
theory Item_Store
  imports Sample_Items Refinement
begin

text \<open>
  What the sample items promise to their owner: the operations of \<open>SampleItemUsecase\<close> behave like
  those of a finite map from identifiers to items, whatever the other users do in the same table.
  The specification is a function on that map, on the readings of the clock and on the identifiers
  drawn; the use case over the database refines it, for every sequence of operations.
\<close>

subsection \<open>Specification\<close>

datatype item_op =
    Add string "string option"
  | Look uuid
  | Change uuid sample_item_update_changes
  | Remove uuid

record store =
  st_items :: "uuid \<rightharpoonup> sample_item"
  st_clock_n :: nat
  st_uuid_n :: nat

definition store_look :: "uuid \<Rightarrow> store \<Rightarrow> (exn + sample_item option) \<times> store" where
  "store_look i st =
     (case st_items st i of None \<Rightarrow> (Inl SampleItemNotFoundError, st) | Some m \<Rightarrow> (Inr (Some m), st))"

fun store_step ::
    "(nat \<Rightarrow> datetime) \<Rightarrow> (nat \<Rightarrow> uuid) \<Rightarrow> uuid \<Rightarrow> item_op \<Rightarrow> store \<Rightarrow> (exn + sample_item option) \<times> store" where
  "store_step clock uuids owner (Add title description) st =
     (let i = uuids (st_uuid_n st); t = clock (st_clock_n st); u = clock (Suc (st_clock_n st));
          m = \<lparr>m_id = i, m_owner_user_id = owner, m_title = title, m_description = description, m_is_completed = False,
               m_registered_at = t, m_modified_at = u\<rparr>
      in (Inr (Some m),
          st\<lparr>st_items := (st_items st)(i \<mapsto> m\<lparr>m_registered_at := trunc_ms t, m_modified_at := trunc_ms u\<rparr>),
             st_clock_n := st_clock_n st + 2, st_uuid_n := Suc (st_uuid_n st)\<rparr>))"
| "store_step clock uuids owner (Look i) st = store_look i st"
| "store_step clock uuids owner (Change i changes) st =
     (if sc_fields_set changes = {} then store_look i st
      else (case st_items st i of
        None \<Rightarrow> (Inl SampleItemNotFoundError, st)
      | Some m \<Rightarrow>
          (case apply_item_changes changes m of
             Inl e \<Rightarrow> (Inl e, st)
           | Inr m' \<Rightarrow>
               let t = clock (st_clock_n st) in
               (Inr (Some (m'\<lparr>m_modified_at := t\<rparr>)),
                st\<lparr>st_items := (st_items st)(i \<mapsto> m'\<lparr>m_modified_at := trunc_ms t\<rparr>), st_clock_n := Suc (st_clock_n st)\<rparr>))))"
| "store_step clock uuids owner (Remove i) st =
     (case st_items st i of
        None \<Rightarrow> (Inl SampleItemNotFoundError, st)
      | Some _ \<Rightarrow> (Inr None, st\<lparr>st_items := (st_items st)(i := None)\<rparr>))"

subsection \<open>The use case as an implementation\<close>

fun item_run :: "uuid \<Rightarrow> item_op \<Rightarrow> ('l, 'c, sample_item option) prog" where
  "item_run owner (Add title description) = bind (create_item owner title description) (\<lambda>m. ok (Some m))"
| "item_run owner (Look i) = bind (get_item owner i) (\<lambda>m. ok (Some m))"
| "item_run owner (Change i changes) = bind (update_item owner i changes) (\<lambda>m. ok (Some m))"
| "item_run owner (Remove i) = seq (delete_item owner i) (ok None)"

definition item_map :: "database \<Rightarrow> uuid \<Rightarrow> uuid \<rightharpoonup> sample_item" where
  "item_map d owner = map_of (map (\<lambda>m. (m_id m, m)) (items_of d owner))"

definition abs_store :: "uuid \<Rightarrow> ('l, 'c) world \<Rightarrow> store" where
  "abs_store owner s = \<lparr>st_items = item_map (w_db s) owner, st_clock_n = w_clock_n s, st_uuid_n = w_uuid_n s\<rparr>"

text \<open>
  Where the refinement holds: outside of a transaction, for a user of the database, and while the
  identifiers still to be drawn are new.
\<close>

definition item_ready :: "uuid \<Rightarrow> ('l, 'c) world \<Rightarrow> bool" where
  "item_ready owner s =
     (db_ok (w_db s) \<and> \<not> w_in_tx s \<and> owner \<in> user_ids (w_db s) \<and> inj (w_uuids s) \<and>
      (\<forall>m \<in> set (sample_items (w_db s)). \<forall>n \<ge> w_uuid_n s. w_uuids s n \<noteq> m_id m))"

lemma item_map_iff:
  assumes "distinct (map m_id (sample_items d))"
  shows "item_map d owner i = Some m \<longleftrightarrow> m \<in> set (sample_items d) \<and> m_owner_user_id m = owner \<and> m_id m = i"
proof -
  have "distinct (map fst (map (\<lambda>m. (m_id m, m)) (items_of d owner)))"
    using assms by (simp add: items_of_def o_def distinct_map_filter)
  from map_of_eq_Some_iff [OF this] show ?thesis unfolding item_map_def by (auto simp: items_of_def)
qed

lemma item_map_None: "item_map d owner i = None \<longleftrightarrow> \<not> (\<exists>m \<in> set (sample_items d). m_id m = i \<and> m_owner_user_id m = owner)"
  by (force simp: item_map_def items_of_def map_of_eq_None_iff image_image)

lemma wp_get_item_map:
  assumes "db_ok (w_db s)"
  shows "wp (get_item owner i) Q E s =
    (case item_map (w_db s) owner i of None \<Rightarrow> E SampleItemNotFoundError s | Some m \<Rightarrow> Q m s)"
proof (cases "item_map (w_db s) owner i")
  case None
  then have "\<not> (\<exists>m \<in> set (sample_items (w_db s)). m_id m = i \<and> m_owner_user_id m = owner)" unfolding item_map_None .
  then show ?thesis unfolding wp_get_item [OF assms] by (simp only: None if_False option.case)
next
  case (Some m)
  note iff = item_map_iff [OF db_ok_distinct(9) [OF assms], of owner i]
  from Some iff have m: "m \<in> set (sample_items (w_db s))" "m_owner_user_id m = owner" "m_id m = i" by auto
  have u: "x = m" if "x \<in> set (sample_items (w_db s))" "m_id x = i" "m_owner_user_id x = owner" for x
    using that iff [of x] Some by simp
  have "(\<exists>x \<in> set (sample_items (w_db s)). m_id x = i \<and> m_owner_user_id x = owner \<and> Q x s) = Q m s"
    using m u by blast
  moreover have "\<exists>x \<in> set (sample_items (w_db s)). m_id x = i \<and> m_owner_user_id x = owner" using m by blast
  ultimately show ?thesis unfolding wp_get_item [OF assms] by (simp add: Some)
qed

text \<open>What the three kinds of change do to the map of the owner.\<close>

lemma item_map_insert:
  assumes "i \<notin> m_id ` set (sample_items d)" "m_id m = i" "m_owner_user_id m = owner"
  shows "item_map (d\<lparr>sample_items := sample_items d @ [m]\<rparr>) owner = (item_map d owner)(i \<mapsto> m)"
proof -
  have "item_map d owner i = None" using assms(1) by (auto simp: item_map_None)
  then show ?thesis using assms(2,3) by (auto simp: item_map_def items_of_def fun_eq_iff map_add_def split: option.splits)
qed

lemma item_map_update:
  assumes d: "distinct (map m_id (sample_items d))" and m: "item_map d owner i = Some m"
    and g: "\<And>x. m_id (g x) = m_id x" "\<And>x. m_owner_user_id (g x) = m_owner_user_id x"
  shows "item_map (d\<lparr>sample_items := update_rows (\<lambda>x. m_id x = i) g (sample_items d)\<rparr>) owner = (item_map d owner)(i \<mapsto> g m)"
proof (rule ext)
  fix j
  let ?d = "d\<lparr>sample_items := update_rows (\<lambda>x. m_id x = i) g (sample_items d)\<rparr>"
  have d': "distinct (map m_id (sample_items ?d))" using d by (simp add: g)
  note old = item_map_iff [OF d, of owner] and new = item_map_iff [OF d', of owner]
  show "item_map ?d owner j = ((item_map d owner)(i \<mapsto> g m)) j"
  proof (cases "item_map d owner j")
    case None
    then have "item_map ?d owner j = None" by (auto simp: item_map_None set_update_rows g)
    with None m show ?thesis by auto
  next
    case (Some x)
    then have "item_map ?d owner j = Some (if m_id x = i then g x else x)"
      using old by (auto simp: new set_update_rows g)
    moreover have "m_id x = j" using Some old by simp
    ultimately show ?thesis using Some m by (cases "j = i") simp_all
  qed
qed

lemma item_map_delete: "item_map (d\<lparr>sample_items := filter (\<lambda>x. m_id x \<noteq> i) (sample_items d)\<rparr>) owner = (item_map d owner)(i := None)"
  if "distinct (map m_id (sample_items d))"
proof (rule ext)
  fix j
  let ?d = "d\<lparr>sample_items := filter (\<lambda>x. m_id x \<noteq> i) (sample_items d)\<rparr>"
  have "distinct (map m_id (sample_items ?d))" using that by (simp add: distinct_map_filter)
  from item_map_iff [OF this, of owner j] item_map_iff [OF that, of owner j]
  have "item_map ?d owner j = Some m \<longleftrightarrow> ((item_map d owner)(i := None)) j = Some m" for m by auto
  then show "item_map ?d owner j = ((item_map d owner)(i := None)) j" by (metis not_None_eq)
qed

subsection \<open>Refinement\<close>

lemma item_ready_closed: "item_ready owner s \<Longrightarrow> item_ready owner (s\<lparr>w_in_tx := False\<rparr>)"
  by (simp add: item_ready_def)

lemma item_ready_rows:
  assumes "item_ready owner s" "sample_items_ok ((w_db s)\<lparr>sample_items := rows\<rparr>)" "w_uuid_n s \<le> k"
    and "\<And>m. m \<in> set rows \<Longrightarrow> m_id m \<in> m_id ` set (sample_items (w_db s)) \<or> (\<exists>n < k. m_id m = w_uuids s n)"
  shows "item_ready owner (s\<lparr>w_clock_n := n, w_uuid_n := k, w_db := (w_db s)\<lparr>sample_items := rows\<rparr>\<rparr>)"
proof -
  have "w_uuids s j \<noteq> m_id m" if "m \<in> set rows" "k \<le> j" for m j
    using assms(4) [OF that(1)] that(2) assms(1,3) by (fastforce simp: item_ready_def dest: injD)
  with assms(1,2) show ?thesis by (auto simp: item_ready_def db_ok_sample_items)
qed

definition refined :: "uuid \<Rightarrow> item_op \<Rightarrow> ('l, 'c) world \<Rightarrow> exn + sample_item option \<Rightarrow> ('l, 'c) world \<Rightarrow> bool" where
  "refined owner p s res t =
     (item_ready owner t \<and> w_clock t = w_clock s \<and> w_uuids t = w_uuids s \<and>
      (\<forall>v. v \<noteq> owner \<longrightarrow> items_of (w_db t) v = items_of (w_db s) v) \<and>
      (res, abs_store owner t) = store_step (w_clock s) (w_uuids s) owner p (abs_store owner s))"

lemma refined_closed: "refined owner p s res t \<Longrightarrow> refined owner p s res (t\<lparr>w_in_tx := False\<rparr>)"
  by (simp add: refined_def item_ready_closed abs_store_def)

lemma item_run_look:
  assumes "item_ready owner s"
  shows "wp (get_item owner i) (\<lambda>m. refined owner (Look i) s (Inr (Some m))) (\<lambda>e. refined owner (Look i) s (Inl e)) s"
proof -
  have "db_ok (w_db s)" using assms by (simp add: item_ready_def)
  from wp_get_item_map [OF this] assms show ?thesis
    by (auto simp: refined_def store_look_def abs_store_def split: option.splits)
qed

lemma item_run_add:
  assumes r: "item_ready owner s"
  shows "wp (create_item owner title desc) (\<lambda>m. refined owner (Add title desc) s (Inr (Some m))) (\<lambda>e. refined owner (Add title desc) s (Inl e)) s"
proof -
  let ?i = "w_uuids s (w_uuid_n s)"
  have new: "?i \<notin> m_id ` set (sample_items (w_db s))" using r by (auto simp: item_ready_def)
  have ok: "sample_items_ok ((w_db s)\<lparr>sample_items := sample_items (w_db s) @ [m]\<rparr>)" if "m_id m = ?i" "m_owner_user_id m = owner" for m
    using r new that by (auto simp: item_ready_def db_ok_def sample_items_ok_def)
  have ready: "item_ready owner (s\<lparr>w_clock_n := n, w_uuid_n := Suc (w_uuid_n s), w_db := (w_db s)\<lparr>sample_items := sample_items (w_db s) @ [m]\<rparr>\<rparr>)"
    if "m_id m = ?i" "m_owner_user_id m = owner" for m n
    by (rule item_ready_rows [OF r ok [OF that]]) (use that in auto)
  have other: "items_of ((w_db s)\<lparr>sample_items := sample_items (w_db s) @ [m]\<rparr>) v = items_of (w_db s) v" if "m_owner_user_id m = owner" "v \<noteq> owner" for m v
    using that by (simp add: items_of_def)
  have later: "w_uuids s n \<noteq> ?i" if "Suc (w_uuid_n s) \<le> n" for n
    using r that by (auto simp: item_ready_def dest: injD)
  show ?thesis
    unfolding create_item_def create_item_row_def insert_sample_item_def
    using ready [of "m" n for m n] r
    by (simp add: wp_simps wp_session_scope ok refined_def other abs_store_def Let_def item_map_insert [OF new]
        item_ready_def later split: if_splits)
qed

lemma item_run_change:
  assumes r: "item_ready owner s"
  shows "wp (update_item owner i ch) (\<lambda>m. refined owner (Change i ch) s (Inr (Some m))) (\<lambda>e. refined owner (Change i ch) s (Inl e)) s"
proof (cases "sc_fields_set ch = {}")
  case True
  then have "refined owner (Change i ch) s = refined owner (Look i) s" by (simp add: refined_def fun_eq_iff)
  with item_run_look [OF r, of i] True show ?thesis by (simp add: update_item_def)
next
  case False
  have ok: "db_ok (w_db s)" "db_ok (w_db (s\<lparr>w_in_tx := True\<rparr>))" and tx: "\<not> w_in_tx s" using r by (simp_all add: item_ready_def)
  note d = db_ok_distinct(9) [OF ok(1)]
  show ?thesis
  proof (cases "item_map (w_db s) owner i")
    case None
    with False tx show ?thesis
      by (simp add: update_item_def wp_transaction wp_bind wp_get_item_map [OF ok(2)]) (simp add: refined_def abs_store_def item_ready_closed [OF r])
  next
    case (Some m)
    then have m: "m \<in> set (sample_items (w_db s))" "m_owner_user_id m = owner" "m_id m = i" using item_map_iff [OF d] by auto
    show ?thesis
    proof (cases "apply_item_changes ch m")
      case (Inl e)
      with False tx Some show ?thesis
        by (simp add: update_item_def wp_transaction wp_simps wp_get_item_map [OF ok(2)]) (simp add: refined_def abs_store_def item_ready_closed [OF r])
    next
      case (Inr m')
      note keys = apply_item_changes_keys [OF this]
      let ?t = "w_clock s (w_clock_n s)"
      let ?g = "\<lambda>x. x\<lparr>m_title := m_title m', m_description := m_description m', m_is_completed := m_is_completed m', m_modified_at := trunc_ms ?t\<rparr>"
      let ?rows = "update_rows (\<lambda>x. m_id x = i) ?g (sample_items (w_db s))"
      have found: "List.find (\<lambda>x. m_id x = i) (sample_items (w_db s)) \<noteq> None" using m by (auto simp: find_None_iff)
      have same: "?g m = m'\<lparr>m_modified_at := trunc_ms ?t\<rparr>"
        using Inr by (auto simp: apply_item_changes_def sum_bind_Inr Let_def split: if_splits option.splits)
      have rows: "sample_items_ok ((w_db s)\<lparr>sample_items := ?rows\<rparr>)"
        using ok(1) by (auto simp: db_ok_def sample_items_ok_def)
      have "item_ready owner (s\<lparr>w_clock_n := Suc (w_clock_n s), w_uuid_n := w_uuid_n s, w_db := (w_db s)\<lparr>sample_items := ?rows\<rparr>\<rparr>)"
        by (rule item_ready_rows [OF r rows]) (auto simp: set_update_rows)
      moreover have "items_of ((w_db s)\<lparr>sample_items := ?rows\<rparr>) v = items_of (w_db s) v" if "v \<noteq> owner" for v
        using items_of_update_other [OF d m(1,2) that, of ?g] m(3) by simp
      moreover have "item_map ((w_db s)\<lparr>sample_items := ?rows\<rparr>) owner = (item_map (w_db s) owner)(i \<mapsto> m'\<lparr>m_modified_at := trunc_ms ?t\<rparr>)"
        using item_map_update [OF d Some, of ?g] same by simp
      ultimately have "refined owner (Change i ch) s (Inr (Some (m'\<lparr>m_modified_at := ?t\<rparr>)))
          (s\<lparr>w_clock_n := Suc (w_clock_n s), w_db := (w_db s)\<lparr>sample_items := ?rows\<rparr>\<rparr>)"
        using False Some Inr by (simp add: refined_def abs_store_def Let_def)
      note refined_closed [OF this]
      with found tx False Some Inr keys m(3) show ?thesis
        by (auto simp: update_item_def wp_transaction wp_simps wp_get_item_map [OF ok(2)] update_item_row_def wp_session_scope
            split: option.splits)
    qed
  qed
qed

lemma item_run_remove:
  assumes r: "item_ready owner s"
  shows "wp (delete_item owner i) (\<lambda>_. refined owner (Remove i) s (Inr None)) (\<lambda>e. refined owner (Remove i) s (Inl e)) s"
proof -
  have ok: "db_ok (w_db s)" "db_ok (w_db (s\<lparr>w_in_tx := True\<rparr>))" and tx: "\<not> w_in_tx s" using r by (simp_all add: item_ready_def)
  note d = db_ok_distinct(9) [OF ok(1)]
  let ?rows = "filter (\<lambda>x. m_id x \<noteq> i) (sample_items (w_db s))"
  show ?thesis
  proof (cases "item_map (w_db s) owner i")
    case None
    with tx show ?thesis
      by (simp add: delete_item_def wp_transaction wp_bind wp_get_item_map [OF ok(2)])
        (simp add: refined_def abs_store_def item_ready_closed [OF r])
  next
    case (Some m)
    then have m: "m \<in> set (sample_items (w_db s))" "m_owner_user_id m = owner" "m_id m = i" using item_map_iff [OF d] by auto
    have rows: "sample_items_ok ((w_db s)\<lparr>sample_items := ?rows\<rparr>)"
      using ok(1) by (auto simp: db_ok_def sample_items_ok_def distinct_map_filter)
    have "item_ready owner (s\<lparr>w_clock_n := w_clock_n s, w_uuid_n := w_uuid_n s, w_db := (w_db s)\<lparr>sample_items := ?rows\<rparr>\<rparr>)"
      by (rule item_ready_rows [OF r rows]) auto
    moreover have "items_of ((w_db s)\<lparr>sample_items := ?rows\<rparr>) v = items_of (w_db s) v" if "v \<noteq> owner" for v
      using items_of_delete_other [OF d m(1,2) that] m(3) by simp
    ultimately have "refined owner (Remove i) s (Inr None) (s\<lparr>w_db := (w_db s)\<lparr>sample_items := ?rows\<rparr>\<rparr>)"
      using Some by (simp add: refined_def abs_store_def item_map_delete [OF d])
    note refined_closed [OF this]
    with tx Some m(3) show ?thesis
      by (simp add: delete_item_def wp_transaction wp_simps wp_get_item_map [OF ok(2)] delete_item_row_def wp_session_scope)
  qed
qed

lemma item_run_refined:
  fixes s :: "('l, 'c) world"
  assumes "item_ready owner s"
  shows "refined owner p s (fst (item_run owner p s)) (snd (item_run owner p s))"
proof -
  have ok: "wp (ok x) Q E = Q x" for x and Q :: "sample_item option \<Rightarrow> ('l, 'c) world \<Rightarrow> bool" and E :: "exn \<Rightarrow> ('l, 'c) world \<Rightarrow> bool"
    by (simp add: fun_eq_iff wp_ok)
  show ?thesis
    using item_run_add [OF assms] item_run_look [OF assms] item_run_change [OF assms] item_run_remove [OF assms]
    unfolding wp_outcome [symmetric]
    by (cases p) (simp_all add: wp_bind wp_seq ok)
qed

text \<open>A sequence of operations, on either side.\<close>

definition item_runs :: "uuid \<Rightarrow> item_op list \<Rightarrow> ('l, 'c) world \<Rightarrow> (exn + sample_item option) list \<times> ('l, 'c) world" where
  "item_runs owner = run_all (item_run owner)"

definition store_steps ::
    "(nat \<Rightarrow> datetime) \<Rightarrow> (nat \<Rightarrow> uuid) \<Rightarrow> uuid \<Rightarrow> item_op list \<Rightarrow> store \<Rightarrow> (exn + sample_item option) list \<times> store" where
  "store_steps clock uuids owner = run_all (store_step clock uuids owner)"

interpretation items: stepwise_refinement "item_run owner" "store_step clock uuids owner" "abs_store owner"
    "\<lambda>s. item_ready owner s \<and> w_clock s = clock \<and> w_uuids s = uuids"
    "\<lambda>s t. \<forall>v. v \<noteq> owner \<longrightarrow> items_of (w_db t) v = items_of (w_db s) v"
  for owner clock uuids
proof
  fix s p r t assume "item_ready owner s \<and> w_clock s = clock \<and> w_uuids s = uuids" "item_run owner p s = (r, t)"
  with item_run_refined [of owner s p]
  show "(item_ready owner t \<and> w_clock t = clock \<and> w_uuids t = uuids) \<and> store_step clock uuids owner p (abs_store owner s) = (r, abs_store owner t)
      \<and> (\<forall>v. v \<noteq> owner \<longrightarrow> items_of (w_db t) v = items_of (w_db s) v)"
    by (auto simp: refined_def)
qed auto

text \<open>
  C32: The sample items of a user are a map from identifiers to items. Every sequence of creating,
  reading, changing and deleting items through the use case gives the same results, item by item
  and error by error, as the same sequence on that map, and ends in a table whose rows of the user are
  the resulting map; the rows of every other user are as before.
\<close>

theorem item_usecase_refines_store:
  assumes "item_ready owner s" "item_runs owner ps s = (rs, t)"
  shows "store_steps (w_clock s) (w_uuids s) owner ps (abs_store owner s) = (rs, abs_store owner t)
    \<and> (\<forall>v. v \<noteq> owner \<longrightarrow> items_of (w_db t) v = items_of (w_db s) v)"
  using items.runs_refine [of owner s "w_clock s" "w_uuids s" ps rs t] assms by (simp add: item_runs_def store_steps_def)

lemma item_usecase_refines_store_witness:
  "\<exists>rs t. item_runs 1 [Add ''new'' None, Remove 7, Look 7] demo_items_world = (rs, t)
     \<and> store_steps (w_clock demo_items_world) (w_uuids demo_items_world) 1 [Add ''new'' None, Remove 7, Look 7] (abs_store 1 demo_items_world)
         = (rs, abs_store 1 t)"
proof -
  have "\<forall>m \<in> set (sample_items (w_db demo_items_world)). m_id m < 100" by code_simp
  moreover have "1 \<in> user_ids (w_db demo_items_world)" by code_simp
  moreover have "w_uuids demo_items_world = (\<lambda>n. 100 + n)" "\<not> w_in_tx demo_items_world"
    by (simp_all add: demo_items_world_def demo_world_def)
  ultimately have "item_ready 1 demo_items_world" by (auto simp: item_ready_def demo_items_ok inj_def)
  from item_usecase_refines_store [OF this] show ?thesis by (metis surj_pair)
qed

end
