(* ===== verification/Oidc_Client.thy ===== *)
theory Oidc_Client
  imports Text_Codec
begin

text \<open>
  \<open>OidcProviderClient\<close> (\<^verbatim>\<open>app/services/oidc_provider_client.py\<close>): the client of the OpenID Connect
  providers, with its caches of discovery documents and signing keys and the validation of identity
  tokens. The objects it is given are fields of \<open>oidc_env\<close>: the HTTP client below
  \<open>HttpxOidcHttpClient\<close>, the OAuth 2 client of Authlib, the validation of provider metadata of
  Authlib, the verification of signatures of joserfc, and the parser of JSON documents. A Python
  dictionary is a list of pairs with distinct keys.

  The state holds the caches, the state of the network \<open>'n\<close>, and the clock as a sequence of
  readings.
\<close>

type_synonym jdict = "(string \<times> json) list"

record cache_entry =
  ce_value :: jdict
  ce_expires_at :: datetime

record negative_cache_entry =
  ne_error :: exn
  ne_expires_at :: datetime

record ('n, 'o) oidc_env =
  oe_settings :: oidc_settings
  oe_hash_token :: "string \<Rightarrow> string"
  http_get :: "string \<Rightarrow> 'n \<Rightarrow> (exn + json) \<times> 'n"
  oauth_client_factory :: "oidc_provider \<Rightarrow> exn + 'o"
  create_authorization_url :: "'o \<Rightarrow> string \<Rightarrow> string \<Rightarrow> jdict \<Rightarrow> exn + string"
  fetch_token :: "'o \<Rightarrow> string \<Rightarrow> string \<Rightarrow> string \<Rightarrow> 'n \<Rightarrow> (exn + jdict) \<times> 'n"
  provider_metadata_valid :: "jdict \<Rightarrow> bool"
  jwt_decode :: "string \<Rightarrow> jdict \<Rightarrow> string list \<Rightarrow> jdict option"
  json_loads :: "string \<Rightarrow> json option"

record 'n oidc_client =
  discovery_cache :: "string \<rightharpoonup> cache_entry"
  discovery_negative_cache :: "string \<rightharpoonup> negative_cache_entry"
  jwks_cache :: "string \<rightharpoonup> cache_entry"
  jwks_negative_cache :: "string \<rightharpoonup> negative_cache_entry"
  jwks_refresh_at :: "string \<rightharpoonup> datetime"
  oc_net :: 'n
  oc_clock :: "nat \<Rightarrow> datetime"
  oc_clock_n :: nat

definition oidc_client_init :: "'n \<Rightarrow> (nat \<Rightarrow> datetime) \<Rightarrow> 'n oidc_client" where
  "oidc_client_init net clock =
     \<lparr>discovery_cache = Map.empty, discovery_negative_cache = Map.empty, jwks_cache = Map.empty,
      jwks_negative_cache = Map.empty, jwks_refresh_at = Map.empty, oc_net = net, oc_clock = clock, oc_clock_n = 0\<rparr>"

type_synonym ('n, 'a) oidc_prog = "('n oidc_client, exn, 'a) comp"

definition DISCOVERY_CACHE_TTL_SECONDS :: int where "DISCOVERY_CACHE_TTL_SECONDS = 3600"
definition JWKS_CACHE_TTL_SECONDS :: int where "JWKS_CACHE_TTL_SECONDS = 3600"
definition NEGATIVE_CACHE_TTL_SECONDS :: int where "NEGATIVE_CACHE_TTL_SECONDS = 60"
definition JWKS_REFRESH_COOLDOWN_SECONDS :: int where "JWKS_REFRESH_COOLDOWN_SECONDS = 60"

definition SAFE_ID_TOKEN_ALGORITHMS :: "string list" where
  "SAFE_ID_TOKEN_ALGORITHMS =
     [''RS256'', ''RS384'', ''RS512'', ''ES256'', ''ES384'', ''ES512'', ''PS256'', ''PS384'', ''PS512'']"

subsection \<open>Claims and metadata\<close>

definition required_str :: "jdict \<Rightarrow> string \<Rightarrow> exn + string" where
  "required_str d key =
     (case map_of d key of
        Some (JStr s) \<Rightarrow> if s = [] then Inl OidcClaimsValidationError else Inr s
      | _ \<Rightarrow> Inl OidcClaimsValidationError)"

definition required_metadata_str :: "jdict \<Rightarrow> string \<Rightarrow> exn + string" where
  "required_metadata_str d key =
     (case map_of d key of
        Some (JStr s) \<Rightarrow> if s = [] then Inl OidcProviderMetadataError else Inr s
      | _ \<Rightarrow> Inl OidcProviderMetadataError)"

definition audience_contains :: "json option \<Rightarrow> string \<Rightarrow> bool" where
  "audience_contains audience client_id =
     (case audience of
        Some (JStr s) \<Rightarrow> s = client_id
      | Some (JList xs) \<Rightarrow> JStr client_id \<in> set xs
      | _ \<Rightarrow> False)"

definition id_token_algorithms :: "jdict \<Rightarrow> exn + string list" where
  "id_token_algorithms metadata =
     (case map_of metadata ''id_token_signing_alg_values_supported'' of
        Some (JList algorithms) \<Rightarrow>
          let supported = [a. JStr a \<leftarrow> algorithms, a \<in> set SAFE_ID_TOKEN_ALGORITHMS] in
          if supported \<noteq> [] then Inr supported else Inl OidcProviderMetadataError
      | _ \<Rightarrow> Inl OidcProviderMetadataError)"

text \<open>\<open>datetime.fromtimestamp(value, UTC)\<close> covers the years 1 to 9999.\<close>

definition fromtimestamp :: "int \<Rightarrow> exn + datetime" where
  "fromtimestamp v =
     (if -62135596800 \<le> v \<and> v \<le> 253402300799 then Inr (seconds v) else Inl (ValueError ''year is out of range''))"

definition datetime_claim :: "jdict \<Rightarrow> string \<Rightarrow> exn + datetime" where
  "datetime_claim claims key =
     (case map_of claims key of Some (JInt v) \<Rightarrow> fromtimestamp v | _ \<Rightarrow> Inl OidcClaimsValidationError)"

definition optional_datetime_claim :: "jdict \<Rightarrow> string \<Rightarrow> exn + datetime option" where
  "optional_datetime_claim claims key =
     (case map_of claims key of
        None \<Rightarrow> Inr None
      | Some JNull \<Rightarrow> Inr None
      | Some (JInt v) \<Rightarrow> map_sum id Some (fromtimestamp v)
      | _ \<Rightarrow> Inl OidcClaimsValidationError)"

definition optional_normalized_email :: "json option \<Rightarrow> string option" where
  "optional_normalized_email v =
     (case v of
        Some (JStr s) \<Rightarrow> let email = lower (strip s) in if email = [] then None else Some email
      | _ \<Rightarrow> None)"

definition claims_json :: "oidc_provider \<Rightarrow> jdict \<Rightarrow> string \<Rightarrow> string \<Rightarrow> string option \<Rightarrow> bool \<Rightarrow> datetime option \<Rightarrow> jdict" where
  "claims_json provider claims issuer subject email email_verified auth_time =
     fold (\<lambda>claim_name persisted.
         case map_of claims claim_name of
           None \<Rightarrow> persisted
         | Some v \<Rightarrow> if claim_name \<in> fst ` set persisted then persisted else persisted @ [(claim_name, v)])
       (op_claims_allowlist provider)
       ([(''iss'', JStr issuer), (''sub'', JStr subject), (''email'', case email of None \<Rightarrow> JNull | Some e \<Rightarrow> JStr e),
         (''email_verified'', JBool email_verified)]
        @ (case auth_time of None \<Rightarrow> [] | Some t \<Rightarrow> [(''auth_time'', JInt (t div seconds 1))]))"

definition jwks_has_kid :: "jdict \<Rightarrow> string \<Rightarrow> bool" where
  "jwks_has_kid jwks kid =
     (case map_of jwks ''keys'' of
        Some (JList keys) \<Rightarrow> (\<exists>k \<in> set keys. case k of JObj d \<Rightarrow> map_of d ''kid'' = Some (JStr kid) | _ \<Rightarrow> False)
      | _ \<Rightarrow> False)"
subsection \<open>The key identifier of a token\<close>

text \<open>A header that is valid JSON but not an object has no method \<open>get\<close>, and the exception is not handled here.\<close>

definition jwt_kid :: "('n, 'o) oidc_env \<Rightarrow> string \<Rightarrow> exn + string option" where
  "jwt_kid env id_token =
     (let header_segment = fst (split_at (CHR ''.'') id_token);
          padded = header_segment @ replicate (nat ((- int (length header_segment)) mod 4)) (CHR ''='')
      in
      if \<not> list_all (\<lambda>c. (of_char c :: nat) < 128) padded then Inr None
      else case Option.bind (urlsafe_b64decode padded) (json_loads env) of
        None \<Rightarrow> Inr None
      | Some (JObj header) \<Rightarrow>
          (case map_of header ''kid'' of Some (JStr kid) \<Rightarrow> Inr (if kid = [] then None else Some kid) | _ \<Rightarrow> Inr None)
      | Some _ \<Rightarrow> Inl AttributeError)"

subsection \<open>Documents of the provider\<close>

definition oc_now :: "('n, datetime) oidc_prog" where
  "oc_now = (\<lambda>c. (Inr (oc_clock c (oc_clock_n c)), c\<lparr>oc_clock_n := Suc (oc_clock_n c)\<rparr>))"

definition on_net :: "('n \<Rightarrow> (exn + 'a) \<times> 'n) \<Rightarrow> ('n, 'a) oidc_prog" where
  "on_net f = (\<lambda>c. case f (oc_net c) of (r, n) \<Rightarrow> (r, c\<lparr>oc_net := n\<rparr>))"

definition get_json :: "('n, 'o) oidc_env \<Rightarrow> string \<Rightarrow> ('n, jdict) oidc_prog" where
  "get_json env url =
     bind (on_net (http_get env url)) (\<lambda>v. case v of JObj d \<Rightarrow> ok d | _ \<Rightarrow> raise OidcProviderUnavailableError)"

text \<open>The two caches are named by their fields: how to read them and how to change them.\<close>

definition cached_json ::
    "string \<Rightarrow> ('n oidc_client \<Rightarrow> string \<rightharpoonup> cache_entry) \<Rightarrow> (((string \<rightharpoonup> cache_entry) \<Rightarrow> (string \<rightharpoonup> cache_entry)) \<Rightarrow> 'n oidc_client \<Rightarrow> 'n oidc_client)
      \<Rightarrow> ('n oidc_client \<Rightarrow> string \<rightharpoonup> negative_cache_entry)
      \<Rightarrow> (((string \<rightharpoonup> negative_cache_entry) \<Rightarrow> (string \<rightharpoonup> negative_cache_entry)) \<Rightarrow> 'n oidc_client \<Rightarrow> 'n oidc_client)
      \<Rightarrow> ('n, jdict) oidc_prog \<Rightarrow> int \<Rightarrow> ('n, jdict) oidc_prog" where
  "cached_json cache_key cache set_cache negative_cache set_negative_cache loader ttl_seconds =
     bind oc_now (\<lambda>now.
     bind (gets (\<lambda>c. cache c cache_key)) (\<lambda>cached.
     bind (gets (\<lambda>c. negative_cache c cache_key)) (\<lambda>failed.
     if (case cached of Some e \<Rightarrow> ce_expires_at e > now | None \<Rightarrow> False) then ok (ce_value (the cached))
     else if (case failed of Some e \<Rightarrow> ne_expires_at e > now | None \<Rightarrow> False) then raise OidcProviderUnavailableError
     else (\<lambda>c. case loader c of
        (Inl exc, c') \<Rightarrow>
          (Inl OidcProviderUnavailableError,
           set_negative_cache (\<lambda>m. m(cache_key \<mapsto> \<lparr>ne_error = exc, ne_expires_at = now + seconds NEGATIVE_CACHE_TTL_SECONDS\<rparr>)) c')
      | (Inr v, c') \<Rightarrow>
          (Inr v,
           set_negative_cache (\<lambda>m. m(cache_key := None))
             (set_cache (\<lambda>m. m(cache_key \<mapsto> \<lparr>ce_value = v, ce_expires_at = now + seconds ttl_seconds\<rparr>)) c'))))))"

definition validate_discovery_metadata :: "('n, 'o) oidc_env \<Rightarrow> oidc_provider \<Rightarrow> jdict \<Rightarrow> exn + unit" where
  "validate_discovery_metadata env provider metadata =
     (if \<not> provider_metadata_valid env metadata then Inl OidcProviderMetadataError
      else if map_of metadata ''issuer'' \<noteq> Some (JStr (op_issuer provider)) then Inl OidcProviderMetadataError
      else map_sum id (\<lambda>_. ()) (id_token_algorithms metadata))"

definition discovery_url :: "oidc_provider \<Rightarrow> string" where
  "discovery_url provider = rstrip_slash (op_issuer provider) @ ''/.well-known/openid-configuration''"

definition discovery :: "('n, 'o) oidc_env \<Rightarrow> oidc_provider \<Rightarrow> ('n, jdict) oidc_prog" where
  "discovery env provider =
     bind (cached_json (op_provider_id provider) discovery_cache discovery_cache_update discovery_negative_cache
             discovery_negative_cache_update (get_json env (discovery_url provider)) DISCOVERY_CACHE_TTL_SECONDS) (\<lambda>metadata.
     seq (lift (validate_discovery_metadata env provider metadata)) (ok metadata))"

definition jwks :: "('n, 'o) oidc_env \<Rightarrow> oidc_provider \<Rightarrow> jdict \<Rightarrow> bool \<Rightarrow> ('n, jdict) oidc_prog" where
  "jwks env provider metadata force_refresh =
     bind (lift (required_metadata_str metadata ''jwks_uri'')) (\<lambda>jwks_uri.
     seq (only_if force_refresh (
            seq (modify (jwks_cache_update (\<lambda>m. m(op_provider_id provider := None))))
              (bind oc_now (\<lambda>now. modify (jwks_refresh_at_update (\<lambda>m. m(op_provider_id provider \<mapsto> now)))))))
       (cached_json (op_provider_id provider) jwks_cache jwks_cache_update jwks_negative_cache jwks_negative_cache_update
          (get_json env jwks_uri) JWKS_CACHE_TTL_SECONDS))"

definition client_provider :: "('n, 'o) oidc_env \<Rightarrow> string \<Rightarrow> ('n, oidc_provider) oidc_prog" where
  "client_provider env provider_id =
     (case get_provider (oe_settings env) provider_id of
        None \<Rightarrow> raise (OidcProviderNotConfiguredError provider_id) | Some p \<Rightarrow> ok p)"

subsection \<open>Operations\<close>

definition client_build_authorization_url ::
    "('n, 'o) oidc_env \<Rightarrow> string \<Rightarrow> string \<Rightarrow> string \<Rightarrow> string \<Rightarrow> string option \<Rightarrow> int option \<Rightarrow> string option \<Rightarrow> ('n, string) oidc_prog" where
  "client_build_authorization_url env provider_id state nonce code_challenge prompt max_age login_hint =
     bind (client_provider env provider_id) (\<lambda>provider.
     bind (discovery env provider) (\<lambda>metadata.
     let params = [(''nonce'', JStr nonce), (''code_challenge'', JStr code_challenge), (''code_challenge_method'', JStr ''S256'')]
           @ (case prompt of None \<Rightarrow> [] | Some p \<Rightarrow> [(''prompt'', JStr p)])
           @ (case max_age of None \<Rightarrow> [] | Some n \<Rightarrow> [(''max_age'', JInt n)])
           @ (case login_hint of None \<Rightarrow> [] | Some h \<Rightarrow> [(''login_hint'', JStr h)])
     in
     bind (lift (oauth_client_factory env provider)) (\<lambda>oauth_client.
     bind (lift (required_metadata_str metadata ''authorization_endpoint'')) (\<lambda>endpoint.
     lift (create_authorization_url env oauth_client endpoint state params)))))"

definition client_exchange_code :: "('n, 'o) oidc_env \<Rightarrow> string \<Rightarrow> string \<Rightarrow> string \<Rightarrow> ('n, string) oidc_prog" where
  "client_exchange_code env provider_id code code_verifier =
     bind (client_provider env provider_id) (\<lambda>provider.
     bind (discovery env provider) (\<lambda>metadata.
     bind (lift (required_metadata_str metadata ''token_endpoint'')) (\<lambda>token_endpoint.
     bind (lift (oauth_client_factory env provider)) (\<lambda>oauth_client.
     bind (catch (on_net (fetch_token env oauth_client token_endpoint code code_verifier)) (\<lambda>_. raise OidcTokenExchangeError)) (\<lambda>token.
     case map_of token ''id_token'' of
       Some (JStr id_token) \<Rightarrow> if id_token = [] then raise OidcTokenExchangeError else ok id_token
     | _ \<Rightarrow> raise OidcTokenExchangeError)))))"

definition decode_id_token :: "('n, 'o) oidc_env \<Rightarrow> string \<Rightarrow> jdict \<Rightarrow> jdict \<Rightarrow> jdict option" where
  "decode_id_token env id_token keys metadata =
     (case id_token_algorithms metadata of Inl _ \<Rightarrow> None | Inr algorithms \<Rightarrow> jwt_decode env id_token keys algorithms)"

definition should_refresh_jwks :: "('n, 'o) oidc_env \<Rightarrow> string \<Rightarrow> string \<Rightarrow> jdict \<Rightarrow> ('n, bool) oidc_prog" where
  "should_refresh_jwks env provider_id id_token keys =
     bind (lift (jwt_kid env id_token)) (\<lambda>kid.
     if (case kid of None \<Rightarrow> True | Some k \<Rightarrow> jwks_has_kid keys k) then ok False
     else bind (gets (\<lambda>c. jwks_refresh_at c provider_id)) (\<lambda>refreshed_at. case refreshed_at of
       None \<Rightarrow> ok True
     | Some t \<Rightarrow> bind oc_now (\<lambda>now. ok (now - t \<ge> seconds JWKS_REFRESH_COOLDOWN_SECONDS))))"

definition ensure :: "bool \<Rightarrow> exn \<Rightarrow> exn + unit" where
  "ensure b e = (if b then Inr () else Inl e)"

text \<open>The checks on the claims of a token whose signature is valid, at the instant \<open>now\<close>.\<close>

definition verify_claims ::
    "('n, 'o) oidc_env \<Rightarrow> oidc_provider \<Rightarrow> jdict \<Rightarrow> datetime \<Rightarrow> string option \<Rightarrow> string option \<Rightarrow> bool \<Rightarrow> exn + oidc_verified_claims" where
  "verify_claims env provider claims now expected_nonce expected_nonce_hash require_auth_time =
     (let invalid = OidcClaimsValidationError;
          latest = now + seconds (AUTH_OIDC_AUTH_TIME_FUTURE_LEEWAY_SECONDS (oe_settings env)) in
      sum_bind (required_str claims ''iss'') (\<lambda>issuer.
      sum_bind (ensure (issuer = op_issuer provider) invalid) (\<lambda>_.
      sum_bind (ensure (audience_contains (map_of claims ''aud'') (op_client_id provider)) invalid) (\<lambda>_.
      sum_bind (map_sum id strip (required_str claims ''sub'')) (\<lambda>subject.
      sum_bind (ensure (subject \<noteq> []) invalid) (\<lambda>_.
      sum_bind (required_str claims ''nonce'') (\<lambda>nonce.
      sum_bind (ensure (case expected_nonce of None \<Rightarrow> True | Some n \<Rightarrow> nonce = n) invalid) (\<lambda>_.
      sum_bind (ensure (case expected_nonce_hash of None \<Rightarrow> True | Some h \<Rightarrow> oe_hash_token env nonce = h) invalid) (\<lambda>_.
      sum_bind (datetime_claim claims ''exp'') (\<lambda>expires_at.
      sum_bind (ensure (\<not> expires_at \<le> now) invalid) (\<lambda>_.
      sum_bind (datetime_claim claims ''iat'') (\<lambda>issued_at.
      sum_bind (ensure (\<not> issued_at > latest) invalid) (\<lambda>_.
      sum_bind (optional_datetime_claim claims ''auth_time'') (\<lambda>auth_time.
      sum_bind (if \<not> require_auth_time then Inr ()
                else case auth_time of
                  None \<Rightarrow> Inl OidcReauthAuthTimeRequiredError
                | Some t \<Rightarrow> ensure (\<not> t > latest) OidcReauthStaleError) (\<lambda>_.
      let email = optional_normalized_email (map_of claims ''email'');
          email_verified = (map_of claims ''email_verified'' = Some (JBool True)) in
      Inr \<lparr>vc_provider_id = op_provider_id provider, vc_issuer = issuer, vc_audience = op_client_id provider, vc_subject = subject,
           vc_email = email, vc_email_verified = email_verified, vc_issued_at = issued_at, vc_expires_at = expires_at,
           vc_auth_time = auth_time,
           vc_claims_json = JObj (claims_json provider claims issuer subject email email_verified auth_time)\<rparr>)))))))))))))))"

definition client_validate_id_token ::
    "('n, 'o) oidc_env \<Rightarrow> string \<Rightarrow> string \<Rightarrow> string option \<Rightarrow> string option \<Rightarrow> bool \<Rightarrow> ('n, oidc_verified_claims) oidc_prog" where
  "client_validate_id_token env provider_id id_token expected_nonce expected_nonce_hash require_auth_time =
     (if expected_nonce = None \<and> expected_nonce_hash = None then raise OidcClaimsValidationError
      else
      bind (client_provider env provider_id) (\<lambda>provider.
      bind (discovery env provider) (\<lambda>metadata.
      bind (jwks env provider metadata False) (\<lambda>keys.
      bind (case decode_id_token env id_token keys metadata of
              Some token \<Rightarrow> ok token
            | None \<Rightarrow>
                bind (should_refresh_jwks env (op_provider_id provider) id_token keys) (\<lambda>refresh.
                if \<not> refresh then raise OidcClaimsValidationError
                else bind (jwks env provider metadata True) (\<lambda>keys'.
                  case decode_id_token env id_token keys' metadata of
                    Some token \<Rightarrow> ok token | None \<Rightarrow> raise OidcClaimsValidationError))) (\<lambda>claims.
      bind oc_now (\<lambda>now.
      lift (verify_claims env provider claims now expected_nonce expected_nonce_hash require_auth_time)))))))"

text \<open>The client as the use case receives it.\<close>

definition provider_client_ops :: "('n, 'o) oidc_env \<Rightarrow> 'n oidc_client oidc_client_ops" where
  "provider_client_ops env = \<lparr>
     build_authorization_url = client_build_authorization_url env,
     exchange_code = client_exchange_code env,
     validate_id_token = (\<lambda>provider_id id_token nonce_hash require_auth_time.
       client_validate_id_token env provider_id id_token None (Some nonce_hash) require_auth_time)\<rparr>"
subsection \<open>Where documents come from\<close>

lemma wp_oc_now [wp_simps]: "wp oc_now Q E c = Q (oc_clock c (oc_clock_n c)) (c\<lparr>oc_clock_n := Suc (oc_clock_n c)\<rparr>)"
  by (simp add: wp_def oc_now_def)

lemma wp_on_net [wp_simps]:
  "wp (on_net f) Q E c = (case f (oc_net c) of (Inl e, n) \<Rightarrow> E e (c\<lparr>oc_net := n\<rparr>) | (Inr x, n) \<Rightarrow> Q x (c\<lparr>oc_net := n\<rparr>))"
  by (simp add: wp_def on_net_def split: prod.splits sum.splits)

text \<open>
  A document was fetched from a URL; metadata that the provider itself publishes under its issuer and
  that was validated; and keys fetched from the URL that such metadata names.
\<close>

definition fetched :: "('n, 'o) oidc_env \<Rightarrow> string \<Rightarrow> jdict \<Rightarrow> bool" where
  "fetched env url v = (\<exists>n n'. http_get env url n = (Inr (JObj v), n'))"

definition own_metadata :: "('n, 'o) oidc_env \<Rightarrow> oidc_provider \<Rightarrow> jdict \<Rightarrow> bool" where
  "own_metadata env p m = (fetched env (discovery_url p) m \<and> validate_discovery_metadata env p m = Inr ())"

definition own_keys :: "('n, 'o) oidc_env \<Rightarrow> oidc_provider \<Rightarrow> jdict \<Rightarrow> bool" where
  "own_keys env p keys = (\<exists>m uri. own_metadata env p m \<and> required_metadata_str m ''jwks_uri'' = Inr uri \<and> fetched env uri keys)"

definition client_inv :: "('n, 'o) oidc_env \<Rightarrow> 'n oidc_client \<Rightarrow> bool" where
  "client_inv env c =
     ((\<forall>pid e. discovery_cache c pid = Some e \<longrightarrow>
         (\<exists>p. get_provider (oe_settings env) pid = Some p \<and> fetched env (discovery_url p) (ce_value e))) \<and>
      (\<forall>pid e. jwks_cache c pid = Some e \<longrightarrow>
         (\<exists>p. get_provider (oe_settings env) pid = Some p \<and> own_keys env p (ce_value e))))"

lemma client_inv_init: "client_inv env (oidc_client_init net clock)"
  by (simp add: client_inv_def oidc_client_init_def)

lemma client_inv_update [simp]:
  "client_inv env (c\<lparr>oc_clock_n := k\<rparr>) = client_inv env c" "client_inv env (c\<lparr>oc_net := n\<rparr>) = client_inv env c"
  "client_inv env (discovery_negative_cache_update f c) = client_inv env c"
  "client_inv env (jwks_negative_cache_update f c) = client_inv env c"
  "client_inv env (jwks_refresh_at_update g c) = client_inv env c"
  by (simp_all add: client_inv_def)

lemma wp_bind_with: "wp m R E s \<Longrightarrow> (\<And>x t. R x t \<Longrightarrow> wp (f x) Q E t) \<Longrightarrow> wp (bind m f) Q E s"
  unfolding wp_bind by (erule wp_mono)

lemma wp_get_json:
  "client_inv env c \<Longrightarrow> wp (get_json env url) (\<lambda>v c'. client_inv env c' \<and> fetched env url v) (\<lambda>_. client_inv env) c"
  by (auto simp: get_json_def wp_simps fetched_def split: prod.splits sum.splits json.splits)

lemma wp_cached_json:
  assumes "I c" and clock: "\<And>c n. I c \<Longrightarrow> I (c\<lparr>oc_clock_n := n\<rparr>)"
    and cached: "\<And>c e. I c \<Longrightarrow> cache c key = Some e \<Longrightarrow> P (ce_value e)"
    and loader: "\<And>c. I c \<Longrightarrow> wp loader (\<lambda>v c'. I c' \<and> P v) (\<lambda>_. I) c"
    and neg: "\<And>c f. I c \<Longrightarrow> I (set_negative f c)"
    and set: "\<And>c v t. I c \<Longrightarrow> P v \<Longrightarrow> I (set_cache (\<lambda>m. m(key \<mapsto> \<lparr>ce_value = v, ce_expires_at = t\<rparr>)) c)"
  shows "wp (cached_json key cache set_cache negative set_negative loader ttl) (\<lambda>v c'. I c' \<and> P v) (\<lambda>_. I) c"
proof -
  define c1 where "c1 = c\<lparr>oc_clock_n := Suc (oc_clock_n c)\<rparr>"
  have I: "I c1" unfolding c1_def by (rule clock [OF assms(1)])
  have load: "case loader c1 of (Inl e, c') \<Rightarrow> I c' | (Inr v, c') \<Rightarrow> I c' \<and> P v" using loader [OF I] by (simp add: wp_def)
  show ?thesis
    unfolding cached_json_def wp_bind wp_oc_now wp_gets c1_def [symmetric] wp_if wp_ok wp_raise
    using I load cached [OF I] by (auto simp: wp_def neg set split: option.splits prod.splits sum.splits)
qed

lemma get_provider_id: "get_provider S pid = Some p \<Longrightarrow> op_provider_id p = pid"
  by (auto simp: get_provider_def dest!: find_Some_iff [THEN iffD1])

lemma wp_discovery:
  assumes p: "get_provider (oe_settings env) (op_provider_id p) = Some p" and I: "client_inv env c"
  shows "wp (discovery env p) (\<lambda>m c'. client_inv env c' \<and> own_metadata env p m) (\<lambda>_. client_inv env) c"
  unfolding discovery_def wp_bind
proof (rule wp_mono [OF wp_cached_json [where I = "client_inv env" and P = "fetched env (discovery_url p)"]])
  fix c e assume "client_inv env c" "discovery_cache c (op_provider_id p) = Some e"
  with p show "fetched env (discovery_url p) (ce_value e)" by (fastforce simp: client_inv_def)
next
  fix c v t assume "client_inv env c" "fetched env (discovery_url p) v"
  with p show "client_inv env (discovery_cache_update (\<lambda>m. m(op_provider_id p \<mapsto> \<lparr>ce_value = v, ce_expires_at = t\<rparr>)) c)"
    by (auto simp: client_inv_def)
qed (use I in \<open>auto intro: wp_get_json simp: wp_simps own_metadata_def split: sum.splits\<close>)

lemma wp_jwks:
  assumes p: "get_provider (oe_settings env) (op_provider_id p) = Some p" and m: "own_metadata env p m" and I: "client_inv env c"
  shows "wp (jwks env p m force) (\<lambda>ks c'. client_inv env c' \<and> own_keys env p ks) (\<lambda>_. client_inv env) c"
proof (cases "required_metadata_str m ''jwks_uri''")
  case (Inr uri)
  have load: "wp (cached_json (op_provider_id p) jwks_cache jwks_cache_update jwks_negative_cache jwks_negative_cache_update
      (get_json env uri) JWKS_CACHE_TTL_SECONDS) (\<lambda>ks c'. client_inv env c' \<and> own_keys env p ks) (\<lambda>_. client_inv env) c"
    if "client_inv env c" for c
  proof (rule wp_cached_json)
    fix c e assume "client_inv env c" "jwks_cache c (op_provider_id p) = Some e"
    with p show "own_keys env p (ce_value e)" by (fastforce simp: client_inv_def)
  next
    fix c assume "client_inv env c"
    from wp_get_json [OF this, of uri] show "wp (get_json env uri) (\<lambda>v c'. client_inv env c' \<and> own_keys env p v) (\<lambda>_. client_inv env) c"
      by (rule wp_mono) (use m Inr in \<open>auto simp: own_keys_def\<close>)
  next
    fix c v t assume "client_inv env c" "own_keys env p v"
    with p show "client_inv env (jwks_cache_update (\<lambda>m. m(op_provider_id p \<mapsto> \<lparr>ce_value = v, ce_expires_at = t\<rparr>)) c)"
      by (auto simp: client_inv_def)
  qed (use that in simp_all)
  have dropped: "client_inv env (jwks_cache_update (\<lambda>m. m(k := None)) c)" if "client_inv env c" for c k
    using that by (auto simp: client_inv_def)
  show ?thesis
    unfolding jwks_def
    by (auto simp: Inr wp_simps only_if_def intro!: load dropped I)
qed (simp add: jwks_def wp_simps I)
subsection \<open>Accepted tokens\<close>

text \<open>The claims \<open>raw\<close> of a verified token support \<open>claims\<close> at the instant \<open>now\<close>.\<close>

definition accepted ::
    "('n, 'o) oidc_env \<Rightarrow> oidc_provider \<Rightarrow> jdict \<Rightarrow> datetime \<Rightarrow> string option \<Rightarrow> string option \<Rightarrow> bool \<Rightarrow> oidc_verified_claims \<Rightarrow> bool" where
  "accepted env p raw now expected_nonce expected_nonce_hash require_auth_time claims =
     (vc_provider_id claims = op_provider_id p \<and>
      map_of raw ''iss'' = Some (JStr (op_issuer p)) \<and> vc_issuer claims = op_issuer p \<and>
      audience_contains (map_of raw ''aud'') (op_client_id p) \<and>
      (\<exists>s. map_of raw ''sub'' = Some (JStr s) \<and> vc_subject claims = strip s \<and> vc_subject claims \<noteq> []) \<and>
      (\<exists>n. map_of raw ''nonce'' = Some (JStr n) \<and> (\<forall>x. expected_nonce = Some x \<longrightarrow> n = x) \<and>
           (\<forall>h. expected_nonce_hash = Some h \<longrightarrow> oe_hash_token env n = h)) \<and>
      now < vc_expires_at claims \<and>
      vc_issued_at claims \<le> now + seconds (AUTH_OIDC_AUTH_TIME_FUTURE_LEEWAY_SECONDS (oe_settings env)) \<and>
      (vc_email_verified claims \<longrightarrow> map_of raw ''email_verified'' = Some (JBool True)) \<and>
      (require_auth_time \<longrightarrow> (\<exists>t. vc_auth_time claims = Some t \<and>
         t \<le> now + seconds (AUTH_OIDC_AUTH_TIME_FUTURE_LEEWAY_SECONDS (oe_settings env)))))"

lemma required_str_Inr: "required_str d key = Inr s \<longleftrightarrow> map_of d key = Some (JStr s) \<and> s \<noteq> []"
  by (auto simp: required_str_def split: option.splits json.splits if_splits)

lemma ensure_Inr: "ensure b e = Inr u \<longleftrightarrow> b"
  by (simp add: ensure_def)

lemma verify_claims_accepted:
  "verify_claims env p raw now n h req = Inr claims \<Longrightarrow> accepted env p raw now n h req claims"
  unfolding verify_claims_def Let_def sum_bind_Inr ensure_Inr required_str_Inr map_sum_Inr
  by (auto simp: accepted_def ensure_Inr split: if_splits option.splits)

lemma algorithms_safe: "id_token_algorithms m = Inr algs \<Longrightarrow> set algs \<subseteq> set SAFE_ID_TOKEN_ALGORITHMS"
  by (auto simp: id_token_algorithms_def Let_def split: option.splits json.splits if_splits)

text \<open>The signature of a token was verified with the provider's own keys and a safe algorithm.\<close>

definition signed_by :: "('n, 'o) oidc_env \<Rightarrow> oidc_provider \<Rightarrow> string \<Rightarrow> jdict \<Rightarrow> bool" where
  "signed_by env p id_token raw =
     (\<exists>m keys algs. own_metadata env p m \<and> own_keys env p keys \<and> id_token_algorithms m = Inr algs \<and>
        set algs \<subseteq> set SAFE_ID_TOKEN_ALGORITHMS \<and> jwt_decode env id_token keys algs = Some raw)"

lemma decode_signed:
  "own_metadata env p m \<Longrightarrow> own_keys env p keys \<Longrightarrow> decode_id_token env tok keys m = Some raw \<Longrightarrow> signed_by env p tok raw"
  using algorithms_safe by (fastforce simp: decode_id_token_def signed_by_def split: sum.splits)

lemma wp_should_refresh:
  "client_inv env c \<Longrightarrow> wp (should_refresh_jwks env pid tok keys) (\<lambda>_. client_inv env) (\<lambda>_. client_inv env) c"
  by (auto simp: should_refresh_jwks_def wp_simps split: sum.splits option.splits)

lemma validate_id_token_sound:
  assumes I: "client_inv env c"
  shows "wp (client_validate_id_token env pid tok n h req)
    (\<lambda>claims c'. client_inv env c' \<and> (\<exists>p raw. get_provider (oe_settings env) pid = Some p \<and> signed_by env p tok raw \<and>
        accepted env p raw (oc_clock c' (oc_clock_n c' - 1)) n h req claims)) (\<lambda>_. client_inv env) c"
    (is "wp _ ?Q ?E c")
proof (cases "get_provider (oe_settings env) pid")
  case (Some p)
  then have p: "get_provider (oe_settings env) (op_provider_id p) = Some p" using get_provider_id by force
  have fin: "wp (bind oc_now (\<lambda>now. lift (verify_claims env p raw now n h req))) ?Q ?E c"
    if "client_inv env c" "signed_by env p tok raw" for c raw
    using that Some by (auto simp: wp_simps split: sum.splits dest: verify_claims_accepted)
  have again: "wp (jwks env p m True) (\<lambda>keys. wp (case decode_id_token env tok keys m of
        Some token \<Rightarrow> ok token | None \<Rightarrow> raise OidcClaimsValidationError)
        (\<lambda>raw c'. client_inv env c' \<and> signed_by env p tok raw) ?E) ?E c"
    if "client_inv env c" "own_metadata env p m" for c m
    by (rule wp_mono [OF wp_jwks [OF p that(2,1)]]) (auto simp: wp_simps decode_signed [OF that(2)] split: option.splits)
  have token: "wp (case decode_id_token env tok keys m of
              Some token \<Rightarrow> ok token
            | None \<Rightarrow>
                bind (should_refresh_jwks env (op_provider_id p) tok keys) (\<lambda>refresh.
                if \<not> refresh then raise OidcClaimsValidationError
                else bind (jwks env p m True) (\<lambda>keys'.
                  case decode_id_token env tok keys' m of
                    Some token \<Rightarrow> ok token | None \<Rightarrow> raise OidcClaimsValidationError)))
        (\<lambda>raw c'. client_inv env c' \<and> signed_by env p tok raw) ?E c"
    if "client_inv env c" "own_metadata env p m" "own_keys env p keys" for c m keys
  proof (cases "decode_id_token env tok keys m")
    case None
    show ?thesis
      unfolding None option.case wp_bind
      by (rule wp_mono [OF wp_should_refresh [OF that(1)]]) (auto simp: wp_raise wp_bind that(2) intro!: again)
  qed (use that in \<open>simp add: wp_ok decode_signed\<close>)
  have "wp (bind (discovery env p) (\<lambda>m. bind (jwks env p m False) (\<lambda>keys. bind (case decode_id_token env tok keys m of
              Some token \<Rightarrow> ok token
            | None \<Rightarrow>
                bind (should_refresh_jwks env (op_provider_id p) tok keys) (\<lambda>refresh.
                if \<not> refresh then raise OidcClaimsValidationError
                else bind (jwks env p m True) (\<lambda>keys'.
                  case decode_id_token env tok keys' m of
                    Some token \<Rightarrow> ok token | None \<Rightarrow> raise OidcClaimsValidationError)))
          (\<lambda>raw. bind oc_now (\<lambda>now. lift (verify_claims env p raw now n h req)))))) ?Q ?E c"
    by (rule wp_bind_with [OF wp_discovery [OF p I]], elim conjE, rule wp_bind_with [OF wp_jwks [OF p]], assumption+, elim conjE,
        rule wp_bind_with [OF token], assumption+, elim conjE, rule fin)
  then show ?thesis
    unfolding client_validate_id_token_def client_provider_def Some option.case wp_if wp_raise wp_bind [of "ok p"] wp_ok
    using I by simp
qed (simp add: client_validate_id_token_def client_provider_def wp_simps I)
lemma keeps_client_provider: "wp (client_provider env pid) (\<lambda>p c'. c' = c \<and> get_provider (oe_settings env) (op_provider_id p) = Some p) (\<lambda>_ c'. c' = c) c"
  using get_provider_id by (fastforce simp: client_provider_def wp_simps split: option.splits)

lemma client_operations_inv:
  assumes I: "client_inv env c"
  shows "client_inv env (snd (client_exchange_code env pid code verifier c))"
    and "client_inv env (snd (client_build_authorization_url env pid st nonce challenge prompt age hint c))"
    and "client_inv env (snd (client_validate_id_token env pid tok n h req c))"
proof -
  have d: "wp (bind (client_provider env pid) (\<lambda>p. bind (discovery env p) (f p))) (\<lambda>_. client_inv env) (\<lambda>_. client_inv env) c"
    if "\<And>p m c. client_inv env c \<Longrightarrow> wp (f p m) (\<lambda>_. client_inv env) (\<lambda>_. client_inv env) c" for f :: "oidc_provider \<Rightarrow> jdict \<Rightarrow> ('a, 'x) oidc_prog"
    unfolding wp_bind
    by (rule wp_mono [OF keeps_client_provider]) (use I in \<open>auto intro!: wp_mono [OF wp_discovery] that\<close>)
  have "wp (client_exchange_code env pid code verifier) (\<lambda>_. client_inv env) (\<lambda>_. client_inv env) c"
    unfolding client_exchange_code_def
    by (rule d) (auto simp: wp_simps split: sum.splits prod.splits option.splits json.splits)
  moreover have "wp (client_build_authorization_url env pid st nonce challenge prompt age hint) (\<lambda>_. client_inv env) (\<lambda>_. client_inv env) c"
    unfolding client_build_authorization_url_def Let_def
    by (rule d) (auto simp: wp_simps split: sum.splits)
  moreover have "wp (client_validate_id_token env pid tok n h req) (\<lambda>_. client_inv env) (\<lambda>_. client_inv env) c"
    by (rule wp_mono [OF validate_id_token_sound [OF I]]) simp_all
  ultimately show "client_inv env (snd (client_exchange_code env pid code verifier c))"
    "client_inv env (snd (client_build_authorization_url env pid st nonce challenge prompt age hint c))"
    "client_inv env (snd (client_validate_id_token env pid tok n h req c))"
    by (simp_all add: wp_same)
qed


subsection \<open>Examples\<close>

text \<open>A provider that answers, or is down; the network counts the requests.\<close>

definition demo_idp :: oidc_provider where
  "demo_idp = \<lparr>op_provider_id = ''idp'', op_display_name = ''IdP'', op_issuer = ''https://idp.example'',
     op_client_id = ''client'', op_client_secret = ''secret'', op_scope = [''openid'', ''email''],
     op_trust_verified_email = True, op_auto_provision = Provision_enabled, op_link_mode = Link_auto,
     op_callback_path = ''/api/auth/oidc/idp/callback'', op_claims_allowlist = [''locale'']\<rparr>"

definition demo_idp_env :: "bool \<Rightarrow> (nat, unit) oidc_env" where
  "demo_idp_env up = \<lparr>
     oe_settings = \<lparr>os_providers = [demo_idp], AUTH_OIDC_REDIRECT_BASE_URL = None,
       AUTH_OIDC_REAUTH_FRESHNESS_SECONDS = 300, AUTH_OIDC_AUTHORIZATION_STARTS_PER_IP = 20,
       AUTH_OIDC_STATE_TTL_SECONDS = 600, AUTH_OIDC_AUTH_TIME_FUTURE_LEEWAY_SECONDS = 60\<rparr>,
     oe_hash_token = (\<lambda>t. ''h:'' @ t),
     http_get = (\<lambda>url k.
       (if \<not> up then Inl OidcProviderUnavailableError
        else if url = ''https://idp.example/keys'' then Inr (JObj [(''keys'', JList [JObj [(''kid'', JStr ''k1'')]])])
        else Inr (JObj [(''issuer'', JStr ''https://idp.example''), (''jwks_uri'', JStr ''https://idp.example/keys''),
               (''token_endpoint'', JStr ''https://idp.example/token''),
               (''id_token_signing_alg_values_supported'', JList [JStr ''none'', JStr ''RS256''])]), Suc k)),
     oauth_client_factory = (\<lambda>_. Inr ()),
     create_authorization_url = (\<lambda>_ endpoint _ _. Inr endpoint),
     fetch_token = (\<lambda>_ _ _ _ k. (Inr [(''id_token'', JStr ''tok'')], Suc k)),
     provider_metadata_valid = (\<lambda>_. True),
     jwt_decode = (\<lambda>tok keys algs.
       if tok = ''tok'' \<and> algs = [''RS256''] then
         Some [(''iss'', JStr ''https://idp.example''), (''aud'', JList [JStr ''other'', JStr ''client'']), (''sub'', JStr '' sub-1 ''),
               (''nonce'', JStr ''n''), (''exp'', JInt 3600), (''iat'', JInt 30), (''email'', JStr ''Ann@Example.com''),
               (''email_verified'', JBool True), (''locale'', JStr ''en'')]
       else None),
     json_loads = (\<lambda>_. None)\<rparr>"

definition demo_idp_client :: "nat oidc_client" where
  "demo_idp_client = oidc_client_init 0 (\<lambda>n. seconds (60 + int n))"


subsection \<open>A provider that is down\<close>

datatype client_call =
    Build_url string string string "string option" "int option" "string option"
  | Exchange string string
  | Validate string "string option" "string option" bool

fun client_run :: "('n, 'o) oidc_env \<Rightarrow> string \<Rightarrow> client_call \<Rightarrow> ('n, unit) oidc_prog" where
  "client_run env pid (Build_url st nonce challenge prompt age hint) =
     bind (client_build_authorization_url env pid st nonce challenge prompt age hint) (\<lambda>_. ok ())"
| "client_run env pid (Exchange code verifier) = bind (client_exchange_code env pid code verifier) (\<lambda>_. ok ())"
| "client_run env pid (Validate tok n h req) = bind (client_validate_id_token env pid tok n h req) (\<lambda>_. ok ())"

fun client_runs :: "('n, 'o) oidc_env \<Rightarrow> string \<Rightarrow> client_call list \<Rightarrow> 'n oidc_client \<Rightarrow> (exn + unit) list \<times> 'n oidc_client" where
  "client_runs env pid [] c = ([], c)"
| "client_runs env pid (x # xs) c = (case client_run env pid x c of (r, c') \<Rightarrow> (case client_runs env pid xs c' of (rs, c'') \<Rightarrow> (r # rs, c'')))"

text \<open>A validation without any expected nonce is refused before the provider is asked.\<close>

fun asks_provider :: "client_call \<Rightarrow> bool" where
  "asks_provider (Validate _ n h _) = (\<not> (n = None \<and> h = None))"
| "asks_provider _ = True"

lemma failed_discovery:
  assumes p: "get_provider (oe_settings env) pid = Some p" and d: "discovery env p c = (Inl e, c')"
  shows "asks_provider x \<Longrightarrow> client_run env pid x c = (Inl e, c')"
    and "\<not> asks_provider x \<Longrightarrow> client_run env pid x c = (Inl OidcClaimsValidationError, c)"
  using p d
  by (cases x; auto simp: client_build_authorization_url_def client_exchange_code_def client_validate_id_token_def
      client_provider_def bind_def ok_def raise_def)+

definition down_until :: "string \<Rightarrow> datetime \<Rightarrow> 'n oidc_client \<Rightarrow> bool" where
  "down_until pid t c = (discovery_cache c pid = None \<and> (\<exists>e. discovery_negative_cache c pid = Some \<lparr>ne_error = e, ne_expires_at = t\<rparr>))"

lemma discovery_while_down:
  assumes p: "get_provider (oe_settings env) pid = Some p" and d: "down_until pid t c" and time: "oc_clock c (oc_clock_n c) < t"
  shows "discovery env p c = (Inl OidcProviderUnavailableError, c\<lparr>oc_clock_n := Suc (oc_clock_n c)\<rparr>)"
  using d time get_provider_id [OF p]
  by (auto simp: discovery_def cached_json_def bind_def oc_now_def gets_def raise_def down_until_def)

lemma discovery_goes_down:
  assumes p: "get_provider (oe_settings env) pid = Some p"
    and "discovery_cache c pid = None" "discovery_negative_cache c pid = None" "http_get env (discovery_url p) (oc_net c) = (Inl e, n)"
  shows "\<exists>c'. discovery env p c = (Inl OidcProviderUnavailableError, c') \<and> oc_net c' = n \<and> oc_clock c' = oc_clock c \<and>
    oc_clock_n c' = Suc (oc_clock_n c) \<and> down_until pid (oc_clock c (oc_clock_n c) + seconds NEGATIVE_CACHE_TTL_SECONDS) c'"
  using assms get_provider_id [OF p]
  by (auto simp: discovery_def cached_json_def bind_def oc_now_def gets_def raise_def down_until_def get_json_def on_net_def)

lemma runs_while_down:
  assumes p: "get_provider (oe_settings env) pid = Some p" and d: "down_until pid t c"
    and time: "\<And>i. oc_clock_n c \<le> i \<Longrightarrow> i < oc_clock_n c + length xs \<Longrightarrow> oc_clock c i < t"
  shows "oc_net (snd (client_runs env pid xs c)) = oc_net c \<and> list_all isl (fst (client_runs env pid xs c))"
  using d time
proof (induction xs arbitrary: c)
  case (Cons x xs)
  have 1: "discovery env p c = (Inl OidcProviderUnavailableError, c\<lparr>oc_clock_n := Suc (oc_clock_n c)\<rparr>)"
    using discovery_while_down [OF p Cons.prems(1)] Cons.prems(2) by simp
  show ?case
  proof (cases "asks_provider x")
    case True
    let ?c = "c\<lparr>oc_clock_n := Suc (oc_clock_n c)\<rparr>"
    have "oc_net (snd (client_runs env pid xs ?c)) = oc_net ?c \<and> list_all isl (fst (client_runs env pid xs ?c))"
      using Cons.prems by (intro Cons.IH) (auto simp: down_until_def)
    with failed_discovery(1) [OF p 1 True] show ?thesis by (auto split: prod.splits)
  next
    case False
    have "oc_net (snd (client_runs env pid xs c)) = oc_net c \<and> list_all isl (fst (client_runs env pid xs c))"
      using Cons.prems by (intro Cons.IH) auto
    with failed_discovery(2) [OF p 1 False] show ?thesis by (auto split: prod.splits)
  qed
qed simp



end
