(* ===== verification/Oidc_Login.thy ===== *)
theory Oidc_Login
  imports Oidc_Properties Oidc_Client
begin

text \<open>
  The OpenID Connect use case over the provider client: what a login rests on, from the signature of
  the identity token down to the account. The locale \<open>oidc_provider_contract\<close> is what the use case needs of
  \<open>OidcProviderClientInterface\<close> (\<^verbatim>\<open>app/interfaces/services/oidc_provider_client_interface.py\<close>), \<open>oidc_app\<close> is the use
  case over any client that keeps it, and the client of \<open>Oidc_Client\<close> is shown to keep it.
\<close>

subsection \<open>The contract of a provider client\<close>

text \<open>
  \<open>trusted p nonce_hash reauth c claims\<close> says what the claims of provider \<open>p\<close> are worth, for a client in
  state \<open>c\<close>. The exchange of a code must not make claims more trustworthy than they were before, and validation returns
  trusted claims of a configured provider.
\<close>

locale oidc_provider_contract =
  fixes ops :: "'c oidc_client_ops" and client_ok :: "'c \<Rightarrow> bool" and settings :: oidc_settings
    and trusted :: "oidc_provider \<Rightarrow> string \<Rightarrow> bool \<Rightarrow> 'c \<Rightarrow> oidc_verified_claims \<Rightarrow> bool"
  assumes exchange_ok: "client_ok c \<Longrightarrow> client_ok (snd (exchange_code ops pid code verifier c))"
    and exchange_trusted: "trusted p h reauth (snd (exchange_code ops pid code verifier c)) claims \<Longrightarrow> trusted p h reauth c claims"
    and validate_trusted: "client_ok c \<Longrightarrow> validate_id_token ops pid tok h reauth c = (Inr claims, c') \<Longrightarrow>
      \<exists>p. get_provider settings pid = Some p \<and> trusted p h reauth c claims"

locale oidc_app = oidc_provider_contract "oidc_provider_client app" client_ok "oidc_settings_of app" trusted
  for app :: "('l, 'c) app" and client_ok and trusted
begin

lemma vouched_trusted:
  assumes c: "client_ok c" and p: "get_provider (oidc_settings_of app) pid = Some p" and v: "vouched app p code x c claims"
  shows "trusted p (o_nonce_hash x) (o_purpose x = Account_deletion_reauth) c claims"
proof -
  have pid: "op_provider_id p = pid" by (rule get_provider_id [OF p])
  from v obtain tok c' c'' where ex: "exchange_code (oidc_provider_client app) pid code (o_pkce_verifier x) c = (Inr tok, c')"
    and va: "validate_id_token (oidc_provider_client app) pid tok (o_nonce_hash x) (o_purpose x = Account_deletion_reauth) c' = (Inr claims, c'')"
    unfolding vouched_def pid by blast
  have "client_ok c'" using exchange_ok [OF c, of pid code "o_pkce_verifier x"] ex by simp
  from validate_trusted [OF this va] p have "trusted p (o_nonce_hash x) (o_purpose x = Account_deletion_reauth) c' claims" by simp
  then show ?thesis using exchange_trusted [of p _ _ pid code "o_pkce_verifier x" c claims] ex by simp
qed

text \<open>Logins and second authentications rest on trusted claims.\<close>

lemma login_trusted:
  fixes s :: "('l, 'c) world"
  assumes "app_inv (auth_settings_of app) {} (w_db s)" "client_ok (w_client s)"
    and "complete_callback app pid state code cookie cs cur ip ua s = (Inr res, s')" "cr_issued_session res = Some r"
  shows "\<exists>p x claims. get_provider (oidc_settings_of app) pid = Some p
    \<and> consumable app (w_db s) (w_clock s (w_clock_n s)) state cookie x \<and> o_purpose x = Login
    \<and> trusted p (o_nonce_hash x) False (w_client s) claims \<and> entitled p claims (w_db s) (is_user r)"
proof -
  from wp_Ok [OF callback_login_spec [OF assms(1)] assms(3)] assms(4) obtain p x claims where
    p: "get_provider (oidc_settings_of app) pid = Some p" "vouched app p code x (w_client s) claims"
    "consumable app (w_db s) (w_clock s (w_clock_n s)) state cookie x" "o_purpose x = Login"
    "provider_login app p claims (w_db s) (is_user r) (is_session r) (is_session_token r) (w_db s')" by blast
  with vouched_trusted [OF assms(2) p(1,2)] show ?thesis unfolding provider_login_def by auto
qed

lemma reauth_trusted:
  fixes s :: "('l, 'c) world"
  assumes "app_inv (auth_settings_of app) {} (w_db s)" "client_ok (w_client s)"
    and "complete_callback app pid state code cookie cs cur ip ua s = (Inr res, s')" "cr_reauthenticated_context res = Some cx"
  shows "\<exists>p x claims. get_provider (oidc_settings_of app) pid = Some p \<and> o_purpose x = Account_deletion_reauth
    \<and> trusted p (o_nonce_hash x) True (w_client s) claims
    \<and> reauthenticated_by app p claims x cx (w_clock s (Suc (w_clock_n s))) (w_db s) (w_db s')"
proof -
  from wp_Ok [OF callback_reauth_spec [OF assms(1)] assms(3)] assms(4) obtain p x claims where
    p: "get_provider (oidc_settings_of app) pid = Some p" "vouched app p code x (w_client s) claims" "o_purpose x = Account_deletion_reauth"
    "reauthenticated_by app p claims x cx (w_clock s (Suc (w_clock_n s))) (w_db s) (w_db s')" by blast
  with vouched_trusted [OF assms(2) p(1,2)] show ?thesis by auto
qed

end

subsection \<open>The clock of the client\<close>

abbreviation clock_is :: "(nat \<Rightarrow> datetime) \<Rightarrow> 'n oidc_client \<Rightarrow> bool" where
  "clock_is k c \<equiv> oc_clock c = k"

lemma keeps_cached_json:
  assumes "keeps (clock_is k) loader" "\<And>f c. clock_is k c \<Longrightarrow> clock_is k (set_cache f c)" "\<And>f c. clock_is k c \<Longrightarrow> clock_is k (set_negative f c)"
  shows "keeps (clock_is k) (cached_json key cache set_cache negative set_negative loader ttl)"
proof -
  have n: "keeps (clock_is k) oc_now" by (simp add: keeps_def oc_now_def)
  have l: "clock_is k c'" if "loader c = (r, c')" "clock_is k c" for c r c' using keepsD [OF assms(1) that(2)] that(1) by simp
  show ?thesis
    unfolding cached_json_def
    by (intro keeps_intros n)
      (simp add: keeps_def; intro allI impI; split prod.split; intro allI impI; split sum.split; use assms(2,3) l in fastforce)
qed

lemma keeps_clock:
  "keeps (clock_is k) oc_now" "keeps (clock_is k) (on_net f)" "keeps (clock_is k) (get_json env url)"
  "keeps (clock_is k) (client_provider env pid)"
proof -
  have 1: "keeps (clock_is k) (on_net f)" for f :: "'y \<Rightarrow> (exn + 'x) \<times> 'y"
    by (auto simp: keeps_def on_net_def split: prod.splits)
  then show "keeps (clock_is k) (on_net f)" .
  show "keeps (clock_is k) (get_json env url)"
    unfolding get_json_def by (intro keeps_intros 1) (auto split: json.splits intro: keeps_intros)
qed (auto simp: keeps_def oc_now_def client_provider_def ok_def raise_def split: option.splits)

lemma keeps_clock_documents:
  "keeps (clock_is k) (discovery env p)" "keeps (clock_is k) (jwks env p m f)"
  unfolding discovery_def jwks_def
  by (intro keeps_intros keeps_cached_json keeps_clock keeps_modify; simp)+

lemma keeps_clock_exchange: "keeps (clock_is k) (client_exchange_code env pid code verifier)"
  unfolding client_exchange_code_def
  by (intro keeps_intros keeps_clock keeps_clock_documents) (auto split: option.splits json.splits intro: keeps_intros)

lemma keeps_clock_validate: "keeps (clock_is k) (client_validate_id_token env pid tok n h req)"
  unfolding client_validate_id_token_def should_refresh_jwks_def
  by (intro keeps_intros keeps_clock keeps_clock_documents)

subsection \<open>From the signature to the account\<close>

definition signed_claims ::
    "('n, 'o) oidc_env \<Rightarrow> oidc_provider \<Rightarrow> string \<Rightarrow> bool \<Rightarrow> 'n oidc_client \<Rightarrow> oidc_verified_claims \<Rightarrow> bool" where
  "signed_claims env p nonce_hash reauth c claims =
     (\<exists>id_token raw i. signed_by env p id_token raw \<and> accepted env p raw (oc_clock c i) None (Some nonce_hash) reauth claims)"

interpretation provider_client: oidc_provider_contract "provider_client_ops env" "client_inv env" "oe_settings env" "signed_claims env"
  for env :: "('n, 'o) oidc_env"
proof
  fix c :: "'n oidc_client" and pid code verifier p h reauth claims tok c'
  show "client_inv env c \<Longrightarrow> client_inv env (snd (exchange_code (provider_client_ops env) pid code verifier c))"
    by (simp add: provider_client_ops_def client_operations_inv)
  have "oc_clock (snd (client_exchange_code env pid code verifier c)) = oc_clock c" by (rule keepsD [OF keeps_clock_exchange refl])
  then show "signed_claims env p h reauth (snd (exchange_code (provider_client_ops env) pid code verifier c)) claims \<Longrightarrow> signed_claims env p h reauth c claims"
    by (simp add: signed_claims_def provider_client_ops_def)
  assume inv: "client_inv env c" and v: "validate_id_token (provider_client_ops env) pid tok h reauth c = (Inr claims, c')"
  have v': "client_validate_id_token env pid tok None (Some h) reauth c = (Inr claims, c')" using v by (simp add: provider_client_ops_def)
  have "oc_clock c' = oc_clock c" using keepsD [OF keeps_clock_validate refl] v' by (metis snd_conv)
  with wp_Ok [OF validate_id_token_sound [OF inv] v'] show "\<exists>p. get_provider (oe_settings env) pid = Some p \<and> signed_claims env p h reauth c claims"
    unfolding signed_claims_def by metis
qed

interpretation signed_app: oidc_app "app\<lparr>oidc_settings_of := oe_settings env, oidc_provider_client := provider_client_ops env\<rparr>" "client_inv env" "signed_claims env"
  for app :: "('l, 'n oidc_client) app" and env :: "('n, 'o) oidc_env"
  using provider_client.oidc_provider_contract_axioms [of env] by (simp add: oidc_app_def)

definition signed_login ::
    "('l, 'n oidc_client) app \<Rightarrow> ('n, 'o) oidc_env \<Rightarrow> oidc_provider \<Rightarrow> auth_oidc_state \<Rightarrow> ('l, 'n oidc_client) world \<Rightarrow> oidc_verified_claims \<Rightarrow> bool" where
  "signed_login app env p x s claims = signed_claims env p (o_nonce_hash x) (o_purpose x = Account_deletion_reauth) (w_client s) claims"


definition demo_signed_app :: "(in_memory_limiter, nat oidc_client) app" where
  "demo_signed_app = \<lparr>auth_settings_of = default_auth_settings, oidc_settings_of = oe_settings (demo_idp_env True),
     sha256_hex = (\<lambda>t. ''h:'' @ t), hash_password_with = (\<lambda>_ raw. ''hash:'' @ raw),
     verify_password = (\<lambda>raw h. h = ''hash:'' @ raw), s256_code_challenge = (\<lambda>v. ''c:'' @ v),
     auth_rate_limiter = in_memory_ops, oidc_provider_client = provider_client_ops (demo_idp_env True)\<rparr>"

definition demo_signed_world :: "(in_memory_limiter, nat oidc_client) world" where
  "demo_signed_world = (demo_world demo_limiter demo_idp_client)
     \<lparr>w_db := demo_database\<lparr>oidc_states := [(demo_state Login None None)\<lparr>o_nonce_hash := ''h:n''\<rparr>]\<rparr>\<rparr>"


end
