(* ===== verification/Spec2Isabelle.thy ===== *)
theory Spec2Isabelle
  imports Start_Up Request_Parameters Openapi_Document Alembic_Env Container Item_Store Oidc_Login
begin

text \<open>
  \<^bold>\<open>A verification of the back end of python-react-template.\<close>

  The program (\<^verbatim>\<open>src/backend\<close>) is a web service: accounts with password or OpenID Connect login,
  sessions with CSRF protection, roles and permissions, administration of users, and an example
  resource. A request passes the CSRF middleware (\<^verbatim>\<open>app/bootstrap/csrf.py\<close>), reaches an endpoint of a controller
  (\<^verbatim>\<open>app/controllers\<close>), which authenticates the caller and calls a use case (\<^verbatim>\<open>app/usecases\<close>); the use case
  works on repositories (\<^verbatim>\<open>app/services\<close>) inside a unit of work over PostgreSQL, asks a rate limiter
  (\<^verbatim>\<open>app/libraries\<close>) and, for OpenID Connect, a provider client. Exceptions become problem documents
  (\<^verbatim>\<open>app/bootstrap/error_handlers.py\<close>).

  \<^bold>\<open>How the program is modelled.\<close> An \<open>async def\<close> is a computation from the state of the application to
  an exception or a value and the new state (theory \<open>Computation\<close>). The state \<open>world\<close> (theory
  \<open>Data_Model\<close>) holds the tables, the limiter, the state of the provider client, the open
  transaction, the log, and the sources of clock readings, tokens, UUIDs, password salts and advisory
  locks, each an arbitrary sequence that is consumed one by one. What the source takes from outside is
  a field of the record \<open>app\<close>: the settings, SHA-256, the password hasher, the PKCE digest, the
  limiter and the provider client.

  \<^bold>\<open>Theories and what they model.\<close>
  \<^item> \<open>Auth_Prelude\<close>, \<open>Computation\<close>: lists, strings and options; computations, weakest preconditions \<open>wp\<close>
    and invariants \<open>keeps\<close>. \<open>Ip_Address\<close>, \<open>Url\<close>, \<open>Text_Codec\<close>: the parts of \<^verbatim>\<open>ipaddress\<close>, \<^verbatim>\<open>urllib.parse\<close>, \<^verbatim>\<open>base64\<close>, \<^verbatim>\<open>json\<close> and
    \<^verbatim>\<open>uuid\<close> in use.
  \<^item> \<open>Rate_Limiter_Interface\<close>: the protocol \<open>LoginRateLimiterInterface\<close> as a record of operations and the
    contract \<open>login_rate_limiter\<close>; \<open>In_Memory_Limiter\<close> (\<^verbatim>\<open>auth_rate_limiter.py\<close>) and \<open>Redis_Limiter\<close>
    (\<^verbatim>\<open>redis_login_rate_limiter.py\<close>, over any Redis client) interpret it. Sliding windows, lock-out, bounds on
    memory, warnings, recovery; the circuit breaker.
  \<^item> \<open>Client_Ip\<close> (\<^verbatim>\<open>client_ip.py\<close>), \<open>Auth_Settings\<close> (\<^verbatim>\<open>config/auth.py\<close>, cookies, password policy), \<open>Oidc_Settings\<close>
    (\<^verbatim>\<open>config/oidc.py\<close>), \<open>Authorization_Catalog\<close> (\<^verbatim>\<open>config/authorization.py\<close>): configuration and what its
    validation guarantees.
  \<^item> \<open>Data_Model\<close> (\<^verbatim>\<open>app/models\<close>), \<open>Database\<close> (\<^verbatim>\<open>unit_of_work.py\<close> and the constraints of the migration),
    \<open>Invariants\<close>: the tables, transactions with rollback, \<open>db_ok\<close> for the constraints of the schema and
    \<open>app_inv\<close> for what the application adds to them. \<open>Schema_Migration\<close> has the migration itself
    (\<^verbatim>\<open>alembic/versions\<close>), what PostgreSQL makes of it, and that the result demands exactly \<open>db_ok\<close>;
    \<open>Alembic_Env\<close> (\<^verbatim>\<open>alembic/env.py\<close>) has the environment it runs in.
  \<^item> \<open>Auth_Repository\<close>, \<open>Authorization_Repository\<close>, \<open>Admin_User_Repository\<close>, \<open>Sample_Items\<close>: the repositories,
    every method with its queries.
  \<^item> \<open>Auth_Usecase\<close>, \<open>Authorization_Usecase\<close>, \<open>Account_Deletion\<close>, \<open>Admin_User_Usecase\<close>, \<open>Oidc_Usecase\<close> (with
    \<open>Redirect_Path\<close>), \<open>Sample_Items\<close>: the use cases; \<open>Auth_Properties\<close> and \<open>Oidc_Properties\<close> hold the theorems
    on logins, sessions and OpenID Connect. The locale \<open>auth_app\<close> is a use case layer over any limiter that
    satisfies the contract; it is interpreted for each of the two limiters.
  \<^item> \<open>Oidc_Client\<close> (\<^verbatim>\<open>oidc_provider_client.py\<close>): caches, discovery, keys, code exchange and identity tokens, over
    parameters for Authlib, joserfc and httpx. \<open>Oidc_Login\<close> puts it behind the use case: the locale
    \<open>oidc_provider_contract\<close> says what the client vouches for, \<open>oidc_app\<close> what logins over any such client are worth, and both are
    interpreted on the client of the source.
  \<^item> \<open>Refinement\<close>: sequences of operations that refine a specification step by step (locale \<open>stepwise_refinement\<close>).
    \<open>Item_Store\<close>: the sample items as a finite map per owner, refined by the use case.
  \<^item> \<open>Problem_Details\<close>, \<open>Http\<close>, \<open>Auth_Controller\<close>, \<open>Resource_Controllers\<close>, \<open>System\<close>: error documents,
    dependencies, cookies, the middleware, every endpoint, and the application that routes to them.
    \<open>Documented_Responses\<close>: the answers that the decorators of the endpoints document.
  \<^item> \<open>Request_Schemas\<close> (the request schemas of \<^verbatim>\<open>app/models\<close>): which documents an endpoint accepts and the calls they
    become. \<open>Request_Parameters\<close>: the same for the query and path parameters of the controllers. \<open>Static_Files\<close> and \<open>Openapi_Document\<close>
    (\<^verbatim>\<open>route.py\<close>, \<^verbatim>\<open>error.py\<close>): the files of the single-page application, the order of the routers, and what the application adds to the
    document that FastAPI generates.
  \<^item> \<open>Maintenance\<close> (\<^verbatim>\<open>manage.py\<close>, \<^verbatim>\<open>config/database.py\<close>): the commands of an operator. \<open>Start_Up\<close> (\<^verbatim>\<open>modules.py\<close>,
    \<^verbatim>\<open>create_app.py\<close>, \<^verbatim>\<open>cli.py\<close>, \<^verbatim>\<open>database_engine.py\<close>): what the process builds from its settings, and how it ends.
    \<open>Container\<close> (\<^verbatim>\<open>modules.py\<close>, \<^verbatim>\<open>container.py\<close>): the bindings of the injector and how it builds the objects.
  \<^item> This theory: the states a running application can reach, and the theorems about whole requests.

  \<^bold>\<open>What is shown.\<close> Authentication is exact, and login, logout, registration, deactivation and deletion
  have the effects on later requests that they promise; deletions are complete and confined to the
  account; a provider's claims open only the account they are entitled to, once, in the browser
  that started, and only with that provider's signature; a provider that is down is asked once a
  minute at most; request bodies and parameters become well-formed calls or are refused; CSRF tokens and permissions are enforced before anything changes; every reachable
  state satisfies the invariant, whatever requests and maintenance commands led to it; every response
  has the status that its endpoint documents for success (303 for the redirects of OpenID Connect) or is a problem document with a documented
  status or 500; the limiters count, lock out and
  recover; client addresses cannot be forged; settings that validate are usable; paging is complete;
  searches are literal; pruning and seeding do what they say; the migration installs the constraints that
  are relied on, completely or not at all; the container builds every object once, and all share one unit of work; the
  references of the OpenAPI document resolve. Counterexamples are kept as lemmas where the code falls short of its
  intention: the last theorem of this theory, \<open>Sample_Items\<close>, where a cursor with a number for an
  identifier ends in an unexpected exception, and \<open>Auth_Repository\<close>, where the
  counter of distinct addresses overstates.

  \<^bold>\<open>Limits of the model.\<close> Requests are served one at a time: no two transactions overlap, so locks and
  races are not modelled, only the failure to take an advisory lock. Instants are microseconds since
  the epoch as unbounded integers, rounded to milliseconds where the column type does so;
  \<^verbatim>\<open>time.monotonic\<close> and Redis scores are rational numbers. The columns \<^verbatim>\<open>created_at\<close> and \<^verbatim>\<open>updated_at\<close> are left
  out, and reads return the stored row (no identity map). Strings are sequences of code points below
  256, \<open>lower\<close> is ASCII lower case, and what PostgreSQL refuses in text (NUL) is not modelled. A request
  is a call of an endpoint, a JSON document for one, or its query and path parameters as text (identifiers in the paths of
  endpoints with a body are already read); routing is by endpoint, with the path that belongs to it. Responses carry no \<^verbatim>\<open>Content-Type\<close>. Logging is modelled where the code counts or limits it. No loop needs
  fuel: every function of the model terminates.

  \<^bold>\<open>Not modelled.\<close> The insides of third-party frameworks (injector, FastAPI, SQLAlchemy, Alembic) beyond what the
  source relies on; the abstract interfaces of \<^verbatim>\<open>app/interfaces\<close>, which only declare the signatures of the classes that are modelled; the
  part of the OpenAPI document that FastAPI generates; the command that prints the version; and the React front end.
\<close>

section \<open>Reachable states\<close>

text \<open>
  A running application serves requests one after the other, and an operator may run the commands of
  \<^verbatim>\<open>manage.py\<close> on its database in between. Each runs in a context of its own, where no transaction is open
  yet (the context variable of \<^verbatim>\<open>app/services/unit_of_work.py\<close>), and between them the state of the
  provider client may change in any way.
\<close>

inductive reachable ::
    "text_lib \<Rightarrow> ('l, 'c, 'u) cli_env \<Rightarrow> ('l, 'c) app \<Rightarrow> ('l, 'c) world \<Rightarrow> ('l, 'c) world \<Rightarrow> bool"
  for lib env app s\<^sub>0 where
  started: "reachable lib env app s\<^sub>0 s\<^sub>0"
| request: "reachable lib env app s\<^sub>0 s \<Longrightarrow> serve lib app r call (s\<lparr>w_in_tx := False\<rparr>) = (answer, s')
    \<Longrightarrow> reachable lib env app s\<^sub>0 s'"
| body_request: "reachable lib env app s\<^sub>0 s \<Longrightarrow> serve_body lib pd app r ep body (s\<lparr>w_in_tx := False\<rparr>) = (answer, s')
    \<Longrightarrow> reachable lib env app s\<^sub>0 s'"
| param_request: "reachable lib env app s\<^sub>0 s \<Longrightarrow> serve_params lib pd app r pep q (s\<lparr>w_in_tx := False\<rparr>) = (answer, s')
    \<Longrightarrow> reachable lib env app s\<^sub>0 s'"
| maintenance: "reachable lib env app s\<^sub>0 s \<Longrightarrow> run_command app env cmd (s\<lparr>w_in_tx := False\<rparr>) = (outcome, s')
    \<Longrightarrow> reachable lib env app s\<^sub>0 s'"
| provider: "reachable lib env app s\<^sub>0 s \<Longrightarrow> reachable lib env app s\<^sub>0 (s\<lparr>w_client := c\<rparr>)"

context auth_app
begin

lemma reachable_inv:
  assumes "reachable lib env app s\<^sub>0 s" "inv_live {} s\<^sub>0"
  shows "inv_live {} s"
  using assms
proof (induction rule: reachable.induct)
  case (request s r call answer s')
  have "inv_live {} (s\<lparr>w_in_tx := False\<rparr>)" using request by (simp add: winv_def)
  from serve_inv [OF this, of lib r call] request.hyps(2) show ?case by simp
next
  case (body_request s pd r ep body answer s')
  have "inv_live {} (s\<lparr>w_in_tx := False\<rparr>)" using body_request by (simp add: winv_def)
  from serve_body_inv [OF this, of lib pd r ep body] body_request.hyps(2) show ?case by simp
next
  case (param_request s pd r pep q answer s')
  have "inv_live {} (s\<lparr>w_in_tx := False\<rparr>)" using param_request by (simp add: winv_def)
  from serve_params_inv [OF this, of lib pd r pep q] param_request.hyps(2) show ?case by simp
next
  case (maintenance s cmd outcome s')
  have "inv_live {} (s\<lparr>w_in_tx := False\<rparr>)" using maintenance by (simp add: winv_def)
  from keepsD [OF keeps_run_command this, of app env cmd] maintenance.hyps(2) show ?case by simp
qed (simp_all add: winv_def)

end

interpretation redis_app: auth_app "app\<lparr>auth_rate_limiter := redis_ops\<rparr>" rl_inv
  for app :: "('r redis_limiter, 'c) app"
  by unfold_locales (simp add: rl.step_inv)

text \<open>
  C1: From an empty database, and with the in-memory limiter that start-up builds from the settings, no sequence of requests and
  maintenance commands leads to a state that violates the invariant: the constraints of the schema hold, every session
  ends within the absolute and the idle time of the settings, an account that was deleted has no
  session in force, no role and no linked identity, and the limiter keeps its bounds.
\<close>

theorem reachable_states_safe:
  assumes "reachable lib env (app\<lparr>auth_rate_limiter := in_memory_ops\<rparr>) s\<^sub>0 s"
    and "w_db s\<^sub>0 = empty_database" "mono clock"
    and "provide_rate_limiter (auth_settings_of app) (oidc_settings_of app) connect redis sha256 token_hex clock = Inr (w_lim s\<^sub>0)"
  shows "app_inv (auth_settings_of app) {} (w_db s) \<and> im_inv (w_lim s)"
proof -
  have "winv (app_inv (auth_settings_of (app\<lparr>auth_rate_limiter := in_memory_ops\<rparr>)) {}) im_inv s\<^sub>0"
    using assms(2) provided_limiter_inv [OF assms(3), of "auth_settings_of app" "oidc_settings_of app" connect redis sha256 token_hex] assms(4)
    by (simp add: winv_def app_inv_empty)
  from in_memory_app.reachable_inv [OF assms(1) this] show ?thesis by (simp add: winv_def)
qed
definition demo_fresh :: "(in_memory_limiter, oidc_verified_claims) world" where
  "demo_fresh = demo_running\<lparr>w_db := empty_database,
     w_lim := projr (provide_rate_limiter default_auth_settings (oidc_settings_of (demo_app in_memory_ops)) (\<lambda>_ _. undefined) () id (\<lambda>_. []) of_nat)\<rparr>"

definition demo_post :: request where
  "demo_post = demo_request\<lparr>req_headers := [(''X-CSRF-Token'', ''t'')], req_cookies := [(csrf_cookie_name, ''t'')]\<rparr>"

definition demo_registered :: "(in_memory_limiter, oidc_verified_claims) world" where
  "demo_registered = snd (serve (demo_lib []) (demo_app in_memory_ops) demo_post
     (Register ''Cleo@example.com'' ''correct horse battery'' ''en'') demo_fresh)"

abbreviation demo_cli :: "(in_memory_limiter, oidc_verified_claims, string) cli_env" where
  "demo_cli \<equiv> demo_cli_env ''local'' True"

lemma reachable_states_safe_witness:
  "length (auth_sessions (w_db demo_registered)) = 1 \<and> app_inv default_auth_settings {} (w_db demo_registered)
     \<and> im_inv (w_lim demo_registered)"
proof -
  have "serve (demo_lib []) (demo_app in_memory_ops) demo_post (Register ''Cleo@example.com'' ''correct horse battery'' ''en'')
      (demo_fresh\<lparr>w_in_tx := False\<rparr>) = (fst (serve (demo_lib []) (demo_app in_memory_ops) demo_post
        (Register ''Cleo@example.com'' ''correct horse battery'' ''en'') demo_fresh), demo_registered)"
    by (simp add: demo_registered_def demo_fresh_def demo_world_def)
  moreover have "demo_app in_memory_ops = (demo_app in_memory_ops)\<lparr>auth_rate_limiter := in_memory_ops\<rparr>"
    by (simp add: demo_app_def)
  ultimately have "reachable (demo_lib []) demo_cli ((demo_app in_memory_ops)\<lparr>auth_rate_limiter := in_memory_ops\<rparr>) demo_fresh demo_registered"
    using reachable.request [OF reachable.started] by metis
  from reachable_states_safe [OF this, of of_nat "\<lambda>_ _. undefined" "()" id "\<lambda>_. []"]
  have "app_inv default_auth_settings {} (w_db demo_registered) \<and> im_inv (w_lim demo_registered)"
    by (simp add: demo_fresh_def demo_world_def demo_app_def mono_def provide_rate_limiter_def default_auth_settings_def)
  moreover have "length (auth_sessions (w_db demo_registered)) = 1" by code_simp
  ultimately show ?thesis by blast
qed
section \<open>Responses\<close>

text \<open>
  A response that describes a problem of the catalogue (RFC 9457): its members occur once, and type,
  title, status and code are those of one entry, whose status is also that of the response.
\<close>

definition describes :: "response \<Rightarrow> problem_type \<Rightarrow> string \<Rightarrow> bool" where
  "describes rs t path =
     (rs_status rs = pt_status t \<and>
      (case rs_body rs of
         Some (JObj ms) \<Rightarrow>
           distinct (map fst ms) \<and> map_of ms ''type'' = Some (JStr (''/problems/'' @ pt_code t)) \<and>
           map_of ms ''title'' = Some (JStr (pt_title t)) \<and> map_of ms ''status'' = Some (JInt (rs_status rs)) \<and>
           map_of ms ''instance'' = Some (JStr path) \<and> map_of ms ''code'' = Some (JStr (pt_code t))
       | _ \<Rightarrow> False) \<and>
      (rs_status rs = 401 \<longrightarrow> map_of (rs_headers rs) ''Cache-Control'' \<noteq> None))"

lemma catalogue_entries:
  "map_of PROBLEM_TYPES code = Some t \<Longrightarrow> pt_type t = ''/problems/'' @ pt_code t \<and> normalize_problem_code code = code"
  by (drule map_of_SomeD) (auto simp: PROBLEM_TYPES_def mk_problem_type_def normalize_problem_code_def lower_def lower_char_def)

lemma problem_response_describes:
  assumes t: "map_of PROBLEM_TYPES code = Some t" "pt_status t = status" and d: "distinct (map fst extensions)"
  shows "describes (problem_response status code detail errors extensions path headers) t path"
proof -
  let ?ext = "filter (\<lambda>(_, v). v \<noteq> JNull) (safe_problem_extensions extensions)"
  have p: "problem_type_for_code code status = t" using t catalogue_entries [OF t(1)] by (simp add: problem_type_for_code_def)
  have e: "distinct (map fst ?ext)" using d by (auto simp: safe_problem_extensions_def filter_filter intro: distinct_map_filter)
  have "k \<notin> fst ` set ?ext" if "k \<in> set RESERVED_PROBLEM_DETAILS_MEMBERS" for k
    using that by (auto simp: safe_problem_extensions_def)
  with e show ?thesis
    using t(2) catalogue_entries [OF t(1)]
    by (auto simp: describes_def problem_response_def Let_def p RESERVED_PROBLEM_DETAILS_MEMBERS_def map_add_Some_iff)
qed

definition is_problem :: "response \<Rightarrow> string \<Rightarrow> bool" where
  "is_problem rs path = (\<exists>t \<in> set (map snd PROBLEM_TYPES). describes rs t path)"

lemma is_problem_response:
  "map_of PROBLEM_TYPES code = Some t \<Longrightarrow> pt_status t = status \<Longrightarrow> distinct (map fst extensions) \<Longrightarrow>
     is_problem (problem_response status code detail errors extensions path headers) path"
  using problem_response_describes [of code t status extensions] map_of_SomeD [of PROBLEM_TYPES code t]
  by (force simp: is_problem_def)

lemma is_problem_internal: "is_problem (unhandled_exception_handler path) path"
  unfolding unhandled_exception_handler_def
  by (rule is_problem_response [where t = "mk_problem_type ''internal_server_error'' ''Internal server error'' 500"])
    (simp_all add: PROBLEM_TYPES_def mk_problem_type_def)

lemma is_problem_csrf: "is_problem (csrf_error_response path) path"
  unfolding csrf_error_response_def
  by (rule is_problem_response [where t = "mk_problem_type ''csrf_validation_failed'' ''CSRF validation failed'' 403"])
    (simp_all add: PROBLEM_TYPES_def mk_problem_type_def)

text \<open>A problem document with a documented status, or the one for unexpected exceptions.\<close>

definition is_answer :: "int list \<Rightarrow> response \<Rightarrow> string \<Rightarrow> bool" where
  "is_answer statuses rs path = (is_problem rs path \<and> rs_status rs \<in> set statuses \<union> {500})"

lemma problem_status: "rs_status (problem_response st code detail errors extensions path headers) = st"
  by (simp add: problem_response_def Let_def)

lemma handler_describes:
  assumes "answers ds e"
  shows "is_answer ds (http_exception_handler path e) path"
proof -
  have nonempty: "code \<noteq> []" if "entry_status code = Some st" for code st
    using that map_of_SomeD [of PROBLEM_TYPES code] by (auto simp: entry_status_def PROBLEM_TYPES_def)
  have entry: "is_problem (problem_response st code m er exts path hs) path"
    if "entry_status code = Some st" "distinct (map fst exts)" for code st m er exts hs
    using that is_problem_response [of code _ st exts] by (auto simp: entry_status_def)
  have "is_problem (validation_exception_handler path errors) path" for errors
    unfolding validation_exception_handler_def by (rule entry, code_simp, simp)
  then show ?thesis
    using assms is_problem_internal [of path] nonempty entry
    by (auto simp: is_answer_def answers_def http_exception_handler_def error_parts_def problem_status validation_exception_handler_def
        unhandled_exception_handler_def split: http_error.splits)
qed

lemma csrf_validate_answers:
  assumes "csrf_validate app r s = (Inr (Some e), s')"
  shows "e = csrf_error_response (req_path r)"
proof -
  have "yields (\<lambda>x. x = None \<or> x = Some (csrf_error_response (req_path r))) (\<lambda>_. True) (csrf_validate app r)"
    unfolding csrf_validate_def get_client_ip_def
    by (auto split: option.splits intro!: yields_bind yields_basic)
  then have "case fst (csrf_validate app r s) of Inl _ \<Rightarrow> True | Inr x \<Rightarrow> x = None \<or> x = Some (csrf_error_response (req_path r))"
    unfolding yields_iff by blast
  with assms show ?thesis by simp
qed

lemma middleware_answers:
  assumes m: "yields (has_status st) (answers ds) m" and c: "requires_csrf app r \<Longrightarrow> 403 \<in> set ds"
  shows "\<exists>rs s'. csrf_middleware app r m s = (Inr rs, s') \<and> (rs_status rs = st \<or> is_answer ds rs (req_path r))"
proof -
  have h: "\<exists>rs s'. handled (req_path r) m t = (Inr rs, s') \<and> (rs_status rs = st \<or> is_answer ds rs (req_path r))" for t
    using m [unfolded yields_iff, rule_format, of t] handler_describes [of ds]
    by (auto simp: handled_def split: prod.splits sum.splits)
  have "is_answer ds (csrf_error_response (req_path r)) (req_path r)" if "requires_csrf app r"
    using c [OF that] is_problem_csrf [of "req_path r"] by (simp add: is_answer_def csrf_error_response_def problem_status)
  moreover have "is_answer ds (problem_response 500 ''internal_server_error'' ''Internal server error'' [] [] (req_path r) []) (req_path r)"
    using is_problem_internal [of "req_path r"] by (simp add: is_answer_def problem_status unhandled_exception_handler_def)
  ultimately show ?thesis
    unfolding csrf_middleware_def using h csrf_validate_answers [of app r s]
    by (auto split: prod.split sum.split option.split)
qed

lemma requires_csrf_unsafe: "requires_csrf app r \<Longrightarrow> req_method r \<noteq> ''GET''"
  by (auto simp: requires_csrf_def UNSAFE_METHODS_def upper_def upper_char_def)

text \<open>
  C12: Whatever the request, its document, its parameters and the state, the application answers as the decorators of
  the endpoint document: with the status of a success (a redirect for the OpenID Connect flows), or with a
  problem document of the catalogue whose members agree with each other and with the status line, with
  a status that the endpoint documents or 500.
\<close>

theorem responses_well_formed:
  "(\<exists>rs s'. serve lib app r call s = (Inr rs, s') \<and>
     (rs_status rs = success_status call \<or> is_answer (snd (documented call)) rs (req_root_path r @ snd (route_of call)))) \<and>
   (\<exists>rs s'. serve_body lib pd app r ep body s = (Inr rs, s') \<and>
     (rs_status rs = fst (body_documented ep) \<or> is_answer (snd (body_documented ep)) rs (req_root_path r @ snd (body_route ep)))) \<and>
   (\<exists>rs s'. serve_params lib pd app r pep q s = (Inr rs, s') \<and>
     (rs_status rs = fst (param_documented pep) \<or> is_answer (snd (param_documented pep)) rs (req_root_path r @ snd (param_route pep))))"
proof (intro conjI)
  show "\<exists>rs s'. serve lib app r call s = (Inr rs, s') \<and>
     (rs_status rs = success_status call \<or> is_answer (snd (documented call)) rs (req_root_path r @ snd (route_of call)))"
    using middleware_answers [OF yields_dispatch [of call lib app "routed r call"], of app "routed r call" s]
      requires_csrf_unsafe [of app "routed r call"] csrf_documented [of call]
    by (simp add: serve_def) (simp add: routed_def)
  let ?r = "r\<lparr>req_method := fst (body_route ep), req_path := req_root_path r @ snd (body_route ep)\<rparr>"
  have "403 \<in> set (snd (body_documented ep))" by (cases ep) simp_all
  with middleware_answers [OF yields_dispatch_body [of ep lib pd app ?r body], of app ?r s]
  show "\<exists>rs s'. serve_body lib pd app r ep body s = (Inr rs, s') \<and>
     (rs_status rs = fst (body_documented ep) \<or> is_answer (snd (body_documented ep)) rs (req_root_path r @ snd (body_route ep)))"
    by (simp add: serve_body_def Let_def)
  let ?p = "r\<lparr>req_method := fst (param_route pep), req_path := req_root_path r @ snd (param_route pep)\<rparr>"
  have "fst (param_route pep) \<noteq> ''GET'' \<Longrightarrow> 403 \<in> set (snd (param_documented pep))" by (cases pep) simp_all
  with middleware_answers [OF yields_dispatch_params [of pep lib pd app ?p q], of app ?p s] requires_csrf_unsafe [of app ?p]
  show "\<exists>rs s'. serve_params lib pd app r pep q s = (Inr rs, s') \<and>
     (rs_status rs = fst (param_documented pep) \<or> is_answer (snd (param_documented pep)) rs (req_root_path r @ snd (param_route pep)))"
    by (simp add: serve_params_def Let_def)
qed

section \<open>Access to the endpoints\<close>

lemma routed_fields [simp]:
  "client_host (routed r call) = client_host r" "req_headers (routed r call) = req_headers r"
  "req_cookies (routed r call) = req_cookies r"
  by (simp_all add: routed_def)

lemma route_path_routed: "route_path (routed r call) = snd (route_of call)"
proof -
  have "\<exists>p. snd (route_of call) = CHR ''/'' # p" by (cases call) simp_all
  then show ?thesis by (auto simp: route_path_def routed_def startswith_def)
qed

lemma requires_csrf_routed:
  "requires_csrf app (routed r call) \<longleftrightarrow> fst (route_of call) \<noteq> ''GET'' \<and>
     snd (route_of call) \<notin> csrf_exempt_paths (AUTH_CSRF_EXEMPT_PATHS (auth_settings_of app))"
proof -
  have "upper (fst (route_of call)) \<in> set UNSAFE_METHODS \<longleftrightarrow> fst (route_of call) \<noteq> ''GET''"
    by (cases call) (simp_all add: upper_def upper_char_def UNSAFE_METHODS_def)
  moreover have "startswith (snd (route_of call)) ''/api/''" by (cases call) (simp_all add: startswith_def)
  ultimately show ?thesis by (simp add: requires_csrf_def route_path_routed) (simp add: routed_def)
qed

text \<open>
  A request that its own pages did not make: it does not carry the same token in the cookie and in
  the header, or its session is in force and was issued another token.
\<close>

definition forged :: "('l, 'c) app \<Rightarrow> request \<Rightarrow> ('l, 'c) world \<Rightarrow> bool" where
  "forged app r s =
     (let cookie = truthy (cookies_get r csrf_cookie_name); header = truthy (headers_get r ''x-csrf-token'') in
      cookie = None \<or> cookie \<noteq> header \<or>
      (case (truthy (session_cookie app r), header) of
         (Some token, Some c) \<Rightarrow>
           (\<exists>x \<in> set (auth_sessions (w_db s)). session_in_force (hash_token app token) (w_clock s (w_clock_n s)) x \<and>
              s_csrf_token_hash x \<noteq> hash_token app c)
       | _ \<Rightarrow> False))"

lemma csrf_validate_forged:
  assumes ok: "db_ok (w_db s)" and f: "forged app r s" and ip: "resolve_client_ip r (AUTH_TRUSTED_PROXY_IPS (auth_settings_of app)) = Some ip"
  shows "\<exists>n. csrf_validate app r s = (Inr (Some (csrf_error_response (req_path r))), s\<lparr>w_clock_n := n\<rparr>)"
proof (cases "truthy (cookies_get r csrf_cookie_name) = None \<or> truthy (cookies_get r csrf_cookie_name) \<noteq> truthy (headers_get r ''x-csrf-token'')")
  case True
  then have "csrf_validate app r s = (Inr (Some (csrf_error_response (req_path r))), s\<lparr>w_clock_n := w_clock_n s\<rparr>)"
    by (auto simp: csrf_validate_def ok_def split: option.splits)
  then show ?thesis by blast
next
  case False
  with f obtain c token x where c: "truthy (cookies_get r csrf_cookie_name) = Some c" "truthy (headers_get r ''x-csrf-token'') = Some c"
    "truthy (session_cookie app r) = Some token"
    and x: "x \<in> set (auth_sessions (w_db s))" "session_in_force (hash_token app token) (w_clock s (w_clock_n s)) x"
    and no: "s_csrf_token_hash x \<noteq> hash_token app c"
    by (auto simp: forged_def Let_def split: option.splits)
  have "wp (csrf_validate app r) (\<lambda>v t. v = Some (csrf_error_response (req_path r)) \<and> t = s\<lparr>w_clock_n := Suc (w_clock_n s)\<rparr>) (\<lambda>_ _. False) s"
    unfolding csrf_validate_def validate_session_csrf_def Let_def
    using no by (simp add: c get_client_ip_def ip wp_simps wp_find_active_session_found [OF ok x])
  from wp_OkD [OF this] show ?thesis by blast
qed

text \<open>
  C10: No request that changes anything passes without proof that it comes from the application's own
  pages. A request to an endpoint with an unsafe method, whose path the settings do not exempt, is
  answered with \<open>csrf_validation_failed\<close> when its token is missing, differs between cookie and
  header, or is not the one of the session in force; the database, the limiter and the provider
  client stay as they are, only the clock may have been read.
\<close>

theorem csrf_protects:
  assumes "db_ok (w_db s)" "fst (route_of call) \<noteq> ''GET''"
    and "snd (route_of call) \<notin> csrf_exempt_paths (AUTH_CSRF_EXEMPT_PATHS (auth_settings_of app))"
    and "resolve_client_ip r (AUTH_TRUSTED_PROXY_IPS (auth_settings_of app)) = Some ip"
    and "forged app r s"
  shows "\<exists>n. serve lib app r call s = (Inr (csrf_error_response (req_root_path r @ snd (route_of call))), s\<lparr>w_clock_n := n\<rparr>)"
proof -
  let ?r = "routed r call"
  have same: "resolve_client_ip ?r t = resolve_client_ip r t" "forged app ?r s = forged app r s" for t
    unfolding resolve_client_ip_def parse_direct_client_ip_def headers_get_def headers_getlist_def
      cookies_get_def forged_def session_cookie_def routed_fields by (rule refl)+
  obtain n where "csrf_validate app ?r s = (Inr (Some (csrf_error_response (req_path ?r))), s\<lparr>w_clock_n := n\<rparr>)"
    using csrf_validate_forged [OF assms(1), of app ?r ip] assms(4,5) same by auto
  moreover have "requires_csrf app ?r" using assms(2,3) by (simp add: requires_csrf_routed)
  ultimately show ?thesis
    by (auto simp: serve_def csrf_middleware_def) (simp add: routed_def)
qed

lemma csrf_protects_witness:
  "\<exists>n. serve (demo_lib []) (demo_app in_memory_ops) demo_request (Delete_me ''ann@example.com'' None) demo_running
     = (Inr (csrf_error_response ''/api/auth/me''), demo_running\<lparr>w_clock_n := n\<rparr>)"
proof -
  have ok: "db_ok (w_db demo_running)" using app_invD(1) [OF demo_database_inv] by (simp add: demo_world_def)
  have ex: "''/api/auth/me'' \<notin> csrf_exempt_paths (AUTH_CSRF_EXEMPT_PATHS (auth_settings_of (demo_app in_memory_ops)))" by code_simp
  have ip: "resolve_client_ip demo_request (AUTH_TRUSTED_PROXY_IPS (auth_settings_of (demo_app in_memory_ops))) = Some (Some ''203.0.113.7'')"
    by code_simp
  have "forged (demo_app in_memory_ops) demo_request demo_running" by code_simp
  from csrf_protects [of demo_running "Delete_me ''ann@example.com'' None", OF ok _ _ ip this, of "demo_lib []"] ex show ?thesis
    by (simp add: demo_request_def)
qed
text \<open>The endpoints for administrators.\<close>

fun admin_call :: "api_call \<Rightarrow> bool" where
  "admin_call (List_admin_users _ _ _ _ _) = True"
| "admin_call (Create_admin_user _ _ _ _) = True"
| "admin_call (Get_admin_user _) = True"
| "admin_call (Update_admin_user _ _) = True"
| "admin_call (Delete_admin_user _) = True"
| "admin_call List_roles = True"
| "admin_call (Get_user_roles _) = True"
| "admin_call (Replace_user_roles _ _) = True"
| "admin_call _ = False"

definition is_admin :: "('l, 'c) app \<Rightarrow> request \<Rightarrow> ('l, 'c) world \<Rightarrow> bool" where
  "is_admin app r s =
     (case truthy (session_cookie app r) of
        None \<Rightarrow> False
      | Some token \<Rightarrow> (\<exists>x \<in> set (auth_sessions (w_db s)). \<exists>u \<in> set (users (w_db s)).
          authenticates app s token x u \<and> ''admin:access'' \<in> ua_permissions (authorization_in (w_db s) (u_id u))))"

lemma admin_calls_guarded:
  assumes "admin_call call" "require_admin_access app r s = (Inl e, s')"
  shows "dispatch lib app r call s = (Inl e, s')"
  using assms by (cases call) (simp_all add: list_admin_users_def create_admin_user_def get_admin_user_def update_admin_user_def
      delete_admin_user_def list_roles_endpoint_def get_user_roles_def replace_user_roles_endpoint_def bind_def)

lemma current_session_admin:
  assumes ok: "db_ok (w_db s)" and cx: "current_session app r s = (Inr (Some cx), s')" "''admin:access'' \<in> cx_permissions cx"
  shows "is_admin app r s"
proof -
  obtain ip where a: "authenticate_session app (session_cookie app r) ip (get_user_agent r) s = (Inr (Some cx), s')"
    using cx(1) by (auto simp: current_session_def get_client_ip_def bind_def ok_def raise_def calling_def split: option.splits prod.splits sum.splits)
  then obtain token where t: "session_cookie app r = Some token" "token \<noteq> []"
    by (auto simp: authenticate_session_def Let_def truthy_def ok_def split: option.splits if_splits)
  from authenticate_exact [OF ok t(2)] a t(1) obtain x u where x: "authenticates app s token x u" by metis
  from authenticate_exact [OF ok t(2), THEN conjunct1, rule_format, OF x, of ip "get_user_agent r"] a t(1)
  have "cx_permissions cx = ua_permissions (authorization_in (w_db s) (u_id u))" by auto
  moreover have "x \<in> set (auth_sessions (w_db s))" "u \<in> set (users (w_db s))" using x by (simp_all add: authenticates_def)
  ultimately show ?thesis using x cx(2) t by (simp add: is_admin_def truthy_def) blast
qed

text \<open>
  C11: Only administrators get past the door of the administrators' endpoints. Unless the session cookie is
  the token of a session in force of an active user whose roles in the database grant
  \<open>admin:access\<close>, such an endpoint ends with 401 or 403 (or with the exception that the
  authentication raised) and does nothing beyond the authentication itself.
\<close>

theorem admin_endpoints_guarded:
  assumes "db_ok (w_db s)" "admin_call call" "\<not> is_admin app r s"
  shows "\<exists>e. dispatch lib app r call s = (Inl e, snd (current_session app r s)) \<and>
    (e = api_error 401 ''unauthorized'' ''Unauthorized'' \<or> e = api_error 403 ''permission_denied'' ''Permission denied''
     \<or> fst (current_session app r s) = Inl e)"
proof -
  obtain v t where v: "current_session app r s = (v, t)" by fastforce
  have "''admin:access'' \<notin> cx_permissions cx" if "v = Inr (Some cx)" for cx
    using current_session_admin [OF assms(1), of app r cx t] v that assms(3) by blast
  then obtain e where "require_admin_access app r s = (Inl e, t)" "e = api_error 401 ''unauthorized'' ''Unauthorized''
      \<or> e = api_error 403 ''permission_denied'' ''Permission denied'' \<or> v = Inl e"
    using v by (cases v; cases "projr v") (auto simp: require_admin_access_def require_permission_def require_current_session_def
        bind_def raise_def ok_def)
  with admin_calls_guarded [OF assms(2)] v show ?thesis by fastforce
qed

lemma admin_endpoints_guarded_witness:
  "\<exists>e. dispatch (demo_lib []) (demo_app in_memory_ops) demo_request (Delete_admin_user 2) demo_running
     = (Inl e, snd (current_session (demo_app in_memory_ops) demo_request demo_running))"
proof -
  have ok: "db_ok (w_db demo_running)" using app_invD(1) [OF demo_database_inv] by (simp add: demo_world_def)
  have "\<not> is_admin (demo_app in_memory_ops) demo_request demo_running" by code_simp
  from admin_endpoints_guarded [OF ok _ this, of "Delete_admin_user 2"] show ?thesis by auto
qed
section \<open>An open redirect\<close>


end
